theory Spec2Isabelle
  imports Main
begin

section \<open>The provider boundary\<close>

text \<open>
  A JSON object returned by the provider (a DNS record or a zone) is a Python dict that the
  scripts read with \<^verbatim>\<open>.get(key)\<close>: a missing key reads as \<^verbatim>\<open>None\<close>. Every key
  the scripts read is a field holding an option, \<open>None\<close> for a key that is absent.
\<close>

record obj =
  o_id :: "string option"
  o_type :: "string option"
  o_name :: "string option"
  o_content :: "string option"
  o_ttl :: "int option"
  o_priority :: "int option"
  o_proxied :: "bool option"

text \<open>The body of a POST, PATCH or PUT; keys the script adds conditionally are options.\<close>

record payload =
  p_type :: string
  p_name :: string
  p_content :: string
  p_ttl :: int
  p_priority :: "int option"
  p_proxied :: "bool option"
  p_comment :: "string option"

datatype pval = S string | I nat

datatype request =
    Get string "(string \<times> pval) list"
  | Post string payload
  | Patch string payload
  | Put string payload
  | Delete string

text \<open>
  What the scripts read of an HTTP response: \<^verbatim>\<open>r.ok\<close>, \<^verbatim>\<open>r.status_code\<close>, and of the JSON
  body \<^verbatim>\<open>success\<close> (read with default False), \<^verbatim>\<open>result\<close> for a listing (default the
  empty list), \<^verbatim>\<open>result\<close> for a mutation (one object, \<open>None\<close> when the key is absent) and
  \<^verbatim>\<open>result_info.total_pages\<close> (\<open>None\<close> when the key is absent). A call of
  \<^verbatim>\<open>requests\<close> may also raise before any response arrives.
\<close>

record response =
  r_ok :: bool
  status_code :: nat
  success :: bool
  result :: "obj list"
  result_obj :: "obj option"
  total_pages :: "nat option"

datatype reply = NetworkError | Reply response

text \<open>The empty dict, and \<^verbatim>\<open>data.get("result", {})\<close> for the answer to a mutation.\<close>

definition no_obj :: obj where
  "no_obj = \<lparr> o_id = None, o_type = None, o_name = None, o_content = None, o_ttl = None,
              o_priority = None, o_proxied = None \<rparr>"

definition result_or_empty :: "response \<Rightarrow> obj" where
  "result_or_empty data = (case result_obj data of None \<Rightarrow> no_obj | Some r \<Rightarrow> r)"

datatype error =
    CloudflareError
  | RequestException
  | SystemExit
  | KeyError
  | TypeError
  | AttributeError
  | UnboundLocalError

text \<open>
  The provider is outside the program: its answer to a request may depend on every request
  it received before. The state the program threads is the sequence of requests issued so
  far and the lines printed so far.
\<close>

type_synonym provider = "request list \<Rightarrow> request \<Rightarrow> reply"

datatype line =
    OkExists string string
  | DryRunWouldCreate string string string
  | Creating string string string
  | DoneMark
  | FailedMark
  | AllInPlace
  | ChangesNeeded nat
  | ChangesApplied nat
  | WouldDeleteApexCname "string list"
  | DeletedApexCname "string list"
  | WouldDeleteApexA "string list"
  | DeletedApexA "string list"
  | WouldCreateRec string string string
  | CreatedRec string obj

record state =
  log :: "request list"
  out :: "line list"

definition send :: "provider \<Rightarrow> state \<Rightarrow> request \<Rightarrow> reply \<times> state" where
  "send prov s rq = (prov (log s) rq, s\<lparr>log := log s @ [rq]\<rparr>)"

definition emit :: "line \<Rightarrow> state \<Rightarrow> state" where
  "emit l s = s\<lparr>out := out s @ [l]\<rparr>"

fun is_mutation :: "request \<Rightarrow> bool" where
  "is_mutation (Get _ _) = False"
| "is_mutation _ = True"

definition mutations :: "state \<Rightarrow> request list" where
  "mutations s = filter is_mutation (log s)"

text \<open>An f-string renders a missing id as the text None.\<close>

definition fmt :: "string option \<Rightarrow> string" where
  "fmt x = (case x of None \<Rightarrow> ''None'' | Some v \<Rightarrow> v)"

definition records_path :: "string \<Rightarrow> string" where
  "records_path zone_id = ''/zones/'' @ zone_id @ ''/dns_records''"

definition record_path :: "string \<Rightarrow> string \<Rightarrow> string" where
  "record_path zone_id rec_id = ''/zones/'' @ zone_id @ ''/dns_records/'' @ rec_id"

section \<open>update\_dns.py and enforce\_standard.py: the API wrappers\<close>

text \<open>
  \<^verbatim>\<open>api_get\<close>, \<^verbatim>\<open>api_patch\<close>, \<^verbatim>\<open>api_post\<close> and \<^verbatim>\<open>api_delete\<close> share one body: raise
  CloudflareError when the response is not ok, or when its success flag is false.
\<close>

definition api_call :: "provider \<Rightarrow> state \<Rightarrow> request \<Rightarrow> (error + response) \<times> state" where
  "api_call prov s rq =
     (case send prov s rq of
        (NetworkError, s') \<Rightarrow> (Inl RequestException, s')
      | (Reply r, s') \<Rightarrow>
          if \<not> r_ok r then (Inl CloudflareError, s')
          else if \<not> success r then (Inl CloudflareError, s')
          else (Inr r, s'))"

definition api_get :: "provider \<Rightarrow> state \<Rightarrow> string \<Rightarrow> (string \<times> pval) list \<Rightarrow> (error + response) \<times> state" where
  "api_get prov s path params = api_call prov s (Get path params)"

definition api_patch :: "provider \<Rightarrow> state \<Rightarrow> string \<Rightarrow> payload \<Rightarrow> (error + response) \<times> state" where
  "api_patch prov s path pl = api_call prov s (Patch path pl)"

definition api_post :: "provider \<Rightarrow> state \<Rightarrow> string \<Rightarrow> payload \<Rightarrow> (error + response) \<times> state" where
  "api_post prov s path pl = api_call prov s (Post path pl)"

definition api_delete :: "provider \<Rightarrow> state \<Rightarrow> string \<Rightarrow> (error + response) \<times> state" where
  "api_delete prov s path = api_call prov s (Delete path)"

definition get_zone_id :: "provider \<Rightarrow> state \<Rightarrow> string \<Rightarrow> (error + string) \<times> state" where
  "get_zone_id prov s domain =
     (case api_get prov s ''/zones'' [(''name'', S domain)] of
        (Inl e, s') \<Rightarrow> (Inl e, s')
      | (Inr data, s') \<Rightarrow>
          (case result data of
             [] \<Rightarrow> (Inl CloudflareError, s')
           | z # _ \<Rightarrow> (case o_id z of None \<Rightarrow> (Inl KeyError, s') | Some i \<Rightarrow> (Inr i, s'))))"

section \<open>enforce\_standard.py\<close>

text \<open>
  \<^verbatim>\<open>get_all_records\<close>: the loop \<^verbatim>\<open>while True\<close> leaves when the page number reaches the
  \<^verbatim>\<open>total_pages\<close> of the last response (1 when the key is absent). Nothing bounds the
  number of rounds for an arbitrary provider, so the loop is a partial function: \<open>None\<close>
  is a run that never returns.
\<close>

partial_function (option) get_all_records_loop ::
  "provider \<Rightarrow> string \<Rightarrow> nat \<Rightarrow> obj list \<Rightarrow> state \<Rightarrow> ((error + obj list) \<times> state) option" where
  "get_all_records_loop prov zone_id page all_records s =
     (case api_get prov s (records_path zone_id) [(''per_page'', I 100), (''page'', I page)] of
        (Inl e, s') \<Rightarrow> Some (Inl e, s')
      | (Inr data, s') \<Rightarrow>
          (let all_records' = all_records @ result data in
           if page \<ge> (case total_pages data of None \<Rightarrow> 1 | Some t \<Rightarrow> t)
           then Some (Inr all_records', s')
           else get_all_records_loop prov zone_id (page + 1) all_records' s'))"

definition get_all_records :: "provider \<Rightarrow> state \<Rightarrow> string \<Rightarrow> ((error + obj list) \<times> state) option" where
  "get_all_records prov s zone_id = get_all_records_loop prov zone_id 1 [] s"

text \<open>
  A desired record of the standard set: the dict literal of \<^verbatim>\<open>enforce_standard\<close>, whose
  \<^verbatim>\<open>priority\<close> and \<^verbatim>\<open>proxied\<close> keys are optional.
\<close>

record record_def =
  d_type :: string
  d_name :: string
  d_content :: string
  d_priority :: "int option"
  d_proxied :: "bool option"

definition rec_name_of :: "string \<Rightarrow> record_def \<Rightarrow> string" where
  "rec_name_of zone rd = (if d_name rd = ''@'' then zone else d_name rd @ ''.'' @ zone)"

definition get_priority :: "record_def \<Rightarrow> int" where
  "get_priority rd = (case d_priority rd of None \<Rightarrow> 10 | Some p \<Rightarrow> p)"

definition get_proxied :: "record_def \<Rightarrow> bool" where
  "get_proxied rd = (case d_proxied rd of None \<Rightarrow> True | Some b \<Rightarrow> b)"

definition matches_of :: "string \<Rightarrow> record_def \<Rightarrow> obj list \<Rightarrow> obj list" where
  "matches_of zone rd all_records =
     filter (\<lambda>r. o_type r = Some (d_type rd) \<and> o_name r = Some (rec_name_of zone rd)) all_records"

definition exact_match_of :: "string \<Rightarrow> record_def \<Rightarrow> obj list \<Rightarrow> obj list" where
  "exact_match_of zone rd all_records =
     (let exact_match = filter (\<lambda>r. o_content r = Some (d_content rd)) (matches_of zone rd all_records)
      in if d_type rd = ''MX''
         then filter (\<lambda>r. o_priority r = Some (get_priority rd)) exact_match
         else exact_match)"

text \<open>The test that makes \<^verbatim>\<open>ensure_record\<close> print OK and return False.\<close>

definition already_exists :: "string \<Rightarrow> record_def \<Rightarrow> obj list \<Rightarrow> bool" where
  "already_exists zone rd all_records =
     (if d_type rd \<in> set [''MX'', ''TXT'', ''A'']
      then exact_match_of zone rd all_records \<noteq> []
      else (case matches_of zone rd all_records of
              [] \<Rightarrow> False
            | m # _ \<Rightarrow> o_content m = Some (d_content rd)))"

definition ensure_payload :: "string \<Rightarrow> record_def \<Rightarrow> payload" where
  "ensure_payload zone rd =
     \<lparr> p_type = d_type rd,
       p_name = rec_name_of zone rd,
       p_content = d_content rd,
       p_ttl = 1,
       p_priority = (if d_type rd = ''MX'' then Some (get_priority rd) else None),
       p_proxied = (if d_type rd \<in> set [''A'', ''CNAME''] then Some (get_proxied rd) else None),
       p_comment = None \<rparr>"

definition ensure_record ::
  "provider \<Rightarrow> state \<Rightarrow> string \<Rightarrow> string \<Rightarrow> record_def \<Rightarrow> obj list \<Rightarrow> bool \<Rightarrow> (error + bool) \<times> state" where
  "ensure_record prov s zone_id zone rd all_records dry_run =
     (if already_exists zone rd all_records
      then (Inr False, emit (OkExists (d_type rd) (d_name rd)) s)
      else if dry_run
      then (Inr True, emit (DryRunWouldCreate (d_type rd) (d_name rd) (d_content rd)) s)
      else
        (case api_post prov (emit (Creating (d_type rd) (d_name rd) (d_content rd)) s)
                (records_path zone_id) (ensure_payload zone rd) of
           (Inr _, s') \<Rightarrow> (Inr True, emit DoneMark s')
         | (Inl CloudflareError, s') \<Rightarrow> (Inl CloudflareError, emit FailedMark s')
         | (Inl e, s') \<Rightarrow> (Inl e, s')))"

definition standards :: "string \<Rightarrow> record_def list" where
  "standards zone =
     [ \<lparr> d_type = ''MX'', d_name = ''@'', d_content = ''freeforcharity-org.mail.protection.outlook.com'',
         d_priority = Some 0, d_proxied = None \<rparr>,
       \<lparr> d_type = ''TXT'', d_name = ''@'', d_content = ''v=spf1 include:spf.protection.outlook.com -all'',
         d_priority = None, d_proxied = None \<rparr>,
       \<lparr> d_type = ''TXT'', d_name = ''_dmarc'',
         d_content = ''v=DMARC1; p=none; rua=mailto:dmarc-rua@freeforcharity.org'',
         d_priority = None, d_proxied = None \<rparr>,
       \<lparr> d_type = ''A'', d_name = ''@'', d_content = ''185.199.108.153'', d_priority = None, d_proxied = Some False \<rparr>,
       \<lparr> d_type = ''A'', d_name = ''@'', d_content = ''185.199.109.153'', d_priority = None, d_proxied = Some False \<rparr>,
       \<lparr> d_type = ''A'', d_name = ''@'', d_content = ''185.199.110.153'', d_priority = None, d_proxied = Some False \<rparr>,
       \<lparr> d_type = ''A'', d_name = ''@'', d_content = ''185.199.111.153'', d_priority = None, d_proxied = Some False \<rparr>,
       \<lparr> d_type = ''CNAME'', d_name = ''www'', d_content = zone, d_priority = None, d_proxied = Some False \<rparr> ]"

text \<open>The loop \<^verbatim>\<open>for std in standards\<close>; an exception leaves it at once.\<close>

fun ensure_all ::
  "provider \<Rightarrow> string \<Rightarrow> string \<Rightarrow> obj list \<Rightarrow> bool \<Rightarrow> record_def list \<Rightarrow> nat \<Rightarrow> state \<Rightarrow> (error + nat) \<times> state" where
  "ensure_all prov zone_id zone all_records dry_run [] changes_needed s = (Inr changes_needed, s)"
| "ensure_all prov zone_id zone all_records dry_run (std # stds) changes_needed s =
     (case ensure_record prov s zone_id zone std all_records dry_run of
        (Inl e, s') \<Rightarrow> (Inl e, s')
      | (Inr b, s') \<Rightarrow>
          ensure_all prov zone_id zone all_records dry_run stds
            (if b then changes_needed + 1 else changes_needed) s')"

definition summary_line :: "nat \<Rightarrow> bool \<Rightarrow> line" where
  "summary_line changes_needed dry_run =
     (if changes_needed = 0 then AllInPlace
      else if dry_run then ChangesNeeded changes_needed
      else ChangesApplied changes_needed)"

definition enforce_standard :: "provider \<Rightarrow> state \<Rightarrow> string \<Rightarrow> bool \<Rightarrow> ((error + nat) \<times> state) option" where
  "enforce_standard prov s zone dry_run =
     (case get_zone_id prov s zone of
        (Inl e, s1) \<Rightarrow> Some (Inl e, s1)
      | (Inr zone_id, s1) \<Rightarrow>
          (case get_all_records prov s1 zone_id of
             None \<Rightarrow> None
           | Some (Inl e, s2) \<Rightarrow> Some (Inl e, s2)
           | Some (Inr all_records, s2) \<Rightarrow>
               (case ensure_all prov zone_id zone all_records dry_run (standards zone) 0 s2 of
                  (Inl e, s3) \<Rightarrow> (Some (Inl e, s3))
                | (Inr changes_needed, s3) \<Rightarrow>
                    Some (Inr changes_needed, emit (summary_line changes_needed dry_run) s3))))"

section \<open>update\_dns.py\<close>

definition get_dns_records ::
  "provider \<Rightarrow> state \<Rightarrow> string \<Rightarrow> string \<Rightarrow> string \<Rightarrow> (error + obj list) \<times> state" where
  "get_dns_records prov s zone_id name record_type =
     (case api_get prov s (records_path zone_id) [(''type'', S record_type), (''name'', S name)] of
        (Inl e, s') \<Rightarrow> (Inl e, s')
      | (Inr data, s') \<Rightarrow> (Inr (result data), s'))"

datatype delete_result =
    WouldDeleteRecord string
  | RecordDeleted string response

definition delete_dns_record ::
  "provider \<Rightarrow> state \<Rightarrow> string \<Rightarrow> string \<Rightarrow> bool \<Rightarrow> (error + delete_result) \<times> state" where
  "delete_dns_record prov s zone_id record_id dry_run =
     (if dry_run then (Inr (WouldDeleteRecord record_id), s)
      else (case api_delete prov s (record_path zone_id record_id) of
              (Inl e, s') \<Rightarrow> (Inl e, s')
            | (Inr res, s') \<Rightarrow> (Inr (RecordDeleted record_id res), s')))"

text \<open>
  One entry of the \<^verbatim>\<open>details\<close> list of \<^verbatim>\<open>update_or_create_records\<close> and
  \<^verbatim>\<open>update_or_create_cname\<close>, by its \<^verbatim>\<open>status\<close>: the record id, then the other keys of
  the dict in the order the source writes them.
\<close>

datatype detail =
    Unchanged "string option" "string option" "bool option"
  | DryRunDetail "string option" payload "string option" "bool option"
  | Updated "string option" "string option" "string option" "bool option" "bool option"

datatype update_result =
    Processed nat "detail list"
  | DryRunCreate payload
  | Created "obj option"
  | AlreadyExact "string option"

definition payload_template :: "string \<Rightarrow> string \<Rightarrow> string \<Rightarrow> bool \<Rightarrow> payload" where
  "payload_template record_type name new_ip proxied =
     \<lparr> p_type = record_type, p_name = name, p_content = new_ip, p_ttl = 120,
       p_priority = None, p_proxied = Some proxied, p_comment = None \<rparr>"

text \<open>
  The loop \<^verbatim>\<open>for rec in existing_records\<close>, the same in \<^verbatim>\<open>update_or_create_records\<close>
  and \<^verbatim>\<open>update_or_create_cname\<close>.
\<close>

fun process_existing ::
  "provider \<Rightarrow> string \<Rightarrow> payload \<Rightarrow> string \<Rightarrow> bool \<Rightarrow> bool \<Rightarrow> obj list \<Rightarrow> detail list \<Rightarrow> state
     \<Rightarrow> (error + detail list) \<times> state" where
  "process_existing prov zone_id pt new_ip dry_run proxied [] results s = (Inr results, s)"
| "process_existing prov zone_id pt new_ip dry_run proxied (rec # recs) results s =
     (let needs_ip_change = (o_content rec \<noteq> Some new_ip);
          needs_proxy_change = (o_proxied rec \<noteq> Some proxied)
      in if \<not> needs_ip_change \<and> \<not> needs_proxy_change
         then process_existing prov zone_id pt new_ip dry_run proxied recs
                (results @ [Unchanged (o_id rec) (o_content rec) (o_proxied rec)]) s
         else if dry_run
         then process_existing prov zone_id pt new_ip dry_run proxied recs
                (results @ [DryRunDetail (o_id rec) pt (o_content rec) (o_proxied rec)]) s
         else (case api_patch prov s (record_path zone_id (fmt (o_id rec))) pt of
                 (Inl e, s') \<Rightarrow> (Inl e, s')
               | (Inr updated, s') \<Rightarrow>
                   process_existing prov zone_id pt new_ip dry_run proxied recs
                     (results @ [Updated (o_id rec) (o_content (result_or_empty updated)) (o_content rec)
                                   (o_proxied (result_or_empty updated)) (o_proxied rec)]) s'))"

definition update_or_create_records ::
  "provider \<Rightarrow> state \<Rightarrow> string \<Rightarrow> string \<Rightarrow> string \<Rightarrow> bool \<Rightarrow> bool \<Rightarrow> string
     \<Rightarrow> (error + update_result) \<times> state" where
  "update_or_create_records prov s zone_id name new_ip dry_run proxied record_type =
     (case get_dns_records prov s zone_id name record_type of
        (Inl e, s') \<Rightarrow> (Inl e, s')
      | (Inr existing_records, s') \<Rightarrow>
          (let pt = payload_template record_type name new_ip proxied in
           if existing_records \<noteq> []
           then (case process_existing prov zone_id pt new_ip dry_run proxied existing_records [] s' of
                   (Inl e, s'') \<Rightarrow> (Inl e, s'')
                 | (Inr results, s'') \<Rightarrow> (Inr (Processed (length existing_records) results), s''))
           else if dry_run then (Inr (DryRunCreate pt), s')
           else (case api_post prov s' (records_path zone_id) pt of
                   (Inl e, s'') \<Rightarrow> (Inl e, s'')
                 | (Inr created, s'') \<Rightarrow> (Inr (Created (result_obj created)), s''))))"

definition update_or_create_cname ::
  "provider \<Rightarrow> state \<Rightarrow> string \<Rightarrow> string \<Rightarrow> string \<Rightarrow> bool \<Rightarrow> bool \<Rightarrow> (error + update_result) \<times> state" where
  "update_or_create_cname prov s zone_id name target dry_run proxied =
     (case get_dns_records prov s zone_id name ''CNAME'' of
        (Inl e, s') \<Rightarrow> (Inl e, s')
      | (Inr existing_records, s') \<Rightarrow>
          (let pt = payload_template ''CNAME'' name target proxied in
           if existing_records \<noteq> []
           then (case process_existing prov zone_id pt target dry_run proxied existing_records [] s' of
                   (Inl e, s'') \<Rightarrow> (Inl e, s'')
                 | (Inr results, s'') \<Rightarrow> (Inr (Processed (length existing_records) results), s''))
           else if dry_run then (Inr (DryRunCreate pt), s')
           else (case api_post prov s' (records_path zone_id) pt of
                   (Inl e, s'') \<Rightarrow> (Inl e, s'')
                 | (Inr created, s'') \<Rightarrow> (Inr (Created (result_obj created)), s''))))"

definition mx_txt_payload :: "string \<Rightarrow> string \<Rightarrow> string \<Rightarrow> int \<Rightarrow> payload" where
  "mx_txt_payload record_type name content priority =
     \<lparr> p_type = record_type, p_name = name, p_content = content, p_ttl = 1,
       p_priority = (if record_type = ''MX'' then Some priority else None),
       p_proxied = None, p_comment = None \<rparr>"

text \<open>
  The search \<^verbatim>\<open>for rec in existing_records\<close> that stops at the first record with the
  desired content and, for MX, the desired priority.
\<close>

fun find_exact_match :: "string \<Rightarrow> string \<Rightarrow> int \<Rightarrow> obj list \<Rightarrow> obj option" where
  "find_exact_match record_type content priority [] = None"
| "find_exact_match record_type content priority (rec # recs) =
     (if o_content rec = Some content \<and> (record_type \<noteq> ''MX'' \<or> o_priority rec = Some priority)
      then Some rec
      else find_exact_match record_type content priority recs)"

definition update_or_create_mx_txt ::
  "provider \<Rightarrow> state \<Rightarrow> string \<Rightarrow> string \<Rightarrow> string \<Rightarrow> bool \<Rightarrow> string \<Rightarrow> int
     \<Rightarrow> (error + update_result) \<times> state" where
  "update_or_create_mx_txt prov s zone_id name content dry_run record_type priority =
     (case get_dns_records prov s zone_id name record_type of
        (Inl e, s') \<Rightarrow> (Inl e, s')
      | (Inr existing_records, s') \<Rightarrow>
          (let pt = mx_txt_payload record_type name content priority in
           case find_exact_match record_type content priority existing_records of
             Some exact_match \<Rightarrow> (Inr (AlreadyExact (o_id exact_match)), s')
           | None \<Rightarrow>
               if dry_run then (Inr (DryRunCreate pt), s')
               else (case api_post prov s' (records_path zone_id) pt of
                       (Inl e, s'') \<Rightarrow> (Inl e, s'')
                     | (Inr created, s'') \<Rightarrow> (Inr (Created (result_obj created)), s''))))"

text \<open>
  The command line after \<^verbatim>\<open>argparse\<close>: an option that was not given is \<open>None\<close>.
  \<^verbatim>\<open>ipaddress.IPv4Address\<close> and \<^verbatim>\<open>ipaddress.IPv6Address\<close> belong to the standard
  library; \<^verbatim>\<open>validate_ip\<close> takes the two acceptance tests as parameters.
\<close>

record args =
  a_zone :: string
  a_name :: "string option"
  a_type :: "string option"
  a_ip :: "string option"
  a_target :: "string option"
  a_content :: "string option"
  a_priority :: int
  a_record_id :: "string option"
  a_search :: bool
  a_delete :: bool
  a_dry_run :: bool
  a_proxied :: bool
  a_no_proxy :: bool

text \<open>How a run of \<^verbatim>\<open>main\<close> ends: it returns, or the process exits with a status.\<close>

datatype outcome =
    Returned
  | Exit nat
  | ExitMessage
  | Traceback error

definition falsy :: "string option \<Rightarrow> bool" where
  "falsy x = (case x of None \<Rightarrow> True | Some v \<Rightarrow> v = [])"

definition validate_ip :: "(string \<Rightarrow> bool) \<Rightarrow> (string \<Rightarrow> bool) \<Rightarrow> string \<Rightarrow> string \<Rightarrow> outcome option" where
  "validate_ip ipv4 ipv6 ip record_type =
     (if record_type = ''A'' then (if ipv4 ip then None else Some ExitMessage)
      else if record_type = ''AAAA'' then (if ipv6 ip then None else Some ExitMessage)
      else None)"

text \<open>
  The checks of \<^verbatim>\<open>main\<close> that run before any request: \<open>Some\<close> is the exit they end
  the process with, \<open>None\<close> lets the run go on. The token is the one \<^verbatim>\<open>retrieve_token\<close>
  returned.
\<close>

definition validate_args :: "(string \<Rightarrow> bool) \<Rightarrow> (string \<Rightarrow> bool) \<Rightarrow> args \<Rightarrow> string \<Rightarrow> outcome option" where
  "validate_args ipv4 ipv6 a token =
     (let pre =
        (if a_delete a then (if falsy (a_record_id a) then Some (Exit 2) else None)
         else if a_search a then (if falsy (a_name a) \<or> falsy (a_type a) then Some (Exit 2) else None)
         else if falsy (a_name a) \<or> falsy (a_type a) then Some (Exit 2)
         else if the (a_type a) \<in> set [''A'', ''AAAA''] \<and> falsy (a_ip a) then Some (Exit 2)
         else if the (a_type a) = ''CNAME'' \<and> falsy (a_target a) then Some (Exit 2)
         else if the (a_type a) \<in> set [''MX'', ''TXT''] \<and> falsy (a_content a) then Some (Exit 2)
         else if the (a_type a) \<in> set [''A'', ''AAAA'']
         then validate_ip ipv4 ipv6 (the (a_ip a)) (the (a_type a))
         else None)
      in case pre of
           Some x \<Rightarrow> Some x
         | None \<Rightarrow>
             if a_no_proxy a \<and> a_proxied a then Some (Exit 2)
             else if token = [] then Some (Exit 2)
             else None)"

definition full_name_of :: "args \<Rightarrow> string option" where
  "full_name_of a =
     (if a_name a = Some ''@'' then Some (a_zone a)
      else if \<not> falsy (a_name a) then Some (the (a_name a) @ ''.'' @ a_zone a)
      else None)"

definition outcome_of :: "(error + 'a) \<Rightarrow> outcome" where
  "outcome_of r =
     (case r of
        Inr _ \<Rightarrow> Returned
      | Inl CloudflareError \<Rightarrow> Exit 1
      | Inl RequestException \<Rightarrow> Exit 1
      | Inl e \<Rightarrow> Traceback e)"

text \<open>
  The end of \<^verbatim>\<open>main\<close>, which prints the result of the update or create. A result with
  the key \<^verbatim>\<open>result\<close> is a created record: \<^verbatim>\<open>r = result["result"]\<close> is what
  \<^verbatim>\<open>created.get("result")\<close> returned, and \<^verbatim>\<open>r.get('id')\<close> raises AttributeError when
  that is None. The other results (the details of the records processed, a proposed payload,
  a record that already exists) print keys that are always there. The text printed is not
  recorded.
\<close>

definition print_result :: "update_result \<Rightarrow> error + unit" where
  "print_result res =
     (case res of
        Created r \<Rightarrow> (case r of None \<Rightarrow> Inl AttributeError | Some created \<Rightarrow> Inr ())
      | Processed count details \<Rightarrow> Inr ()
      | DryRunCreate proposed \<Rightarrow> Inr ()
      | AlreadyExact i \<Rightarrow> Inr ())"

text \<open>
  \<^verbatim>\<open>main\<close>, from the validation to the \<^verbatim>\<open>except\<close> clauses that turn a CloudflareError
  or a RequestException into exit status 1; any other exception ends the process with a
  traceback. The deletion and the search print keys of dicts that are always there.
\<close>

definition main :: "(string \<Rightarrow> bool) \<Rightarrow> (string \<Rightarrow> bool) \<Rightarrow> provider \<Rightarrow> state \<Rightarrow> args \<Rightarrow> string \<Rightarrow> outcome \<times> state" where
  "main ipv4 ipv6 prov s a token =
     (case validate_args ipv4 ipv6 a token of
        Some x \<Rightarrow> (x, s)
      | None \<Rightarrow>
          (let proxied = (a_proxied a \<and> \<not> a_no_proxy a) in
           case get_zone_id prov s (a_zone a) of
             (Inl e, s1) \<Rightarrow> (outcome_of (Inl e :: error + unit), s1)
           | (Inr zone_id, s1) \<Rightarrow>
               if a_delete a
               then (case delete_dns_record prov s1 zone_id (the (a_record_id a)) (a_dry_run a) of
                       (r, s2) \<Rightarrow> (outcome_of r, s2))
               else if a_search a
               then (case get_dns_records prov s1 zone_id (fmt (full_name_of a)) (the (a_type a)) of
                       (r, s2) \<Rightarrow> (outcome_of r, s2))
               else
                 (case (if the (a_type a) \<in> set [''A'', ''AAAA'']
                        then Some (update_or_create_records prov s1 zone_id (fmt (full_name_of a))
                                     (the (a_ip a)) (a_dry_run a) proxied (the (a_type a)))
                        else if the (a_type a) = ''CNAME''
                        then Some (update_or_create_cname prov s1 zone_id (fmt (full_name_of a))
                                     (the (a_target a)) (a_dry_run a) proxied)
                        else if the (a_type a) \<in> set [''MX'', ''TXT'']
                        then Some (update_or_create_mx_txt prov s1 zone_id (fmt (full_name_of a))
                                     (the (a_content a)) (a_dry_run a) (the (a_type a)) (a_priority a))
                        else None) of
                    None \<Rightarrow> (Traceback UnboundLocalError, s1)
                  | Some (Inl e, s2) \<Rightarrow> (outcome_of (Inl e :: error + unit), s2)
                  | Some (Inr res, s2) \<Rightarrow> (outcome_of (print_result res), s2))))"

section \<open>update\_pages\_dns.py\<close>

text \<open>
  Here \<^verbatim>\<open>api_get\<close> calls \<^verbatim>\<open>raise_for_status\<close>, which raises an HTTPError (a
  RequestException) for a response that is not ok; \<^verbatim>\<open>api_post\<close> and \<^verbatim>\<open>api_put\<close> raise
  CloudflareError as the wrappers of update\_dns.py do.
\<close>

definition pages_api_get ::
  "provider \<Rightarrow> state \<Rightarrow> string \<Rightarrow> (string \<times> pval) list \<Rightarrow> (error + response) \<times> state" where
  "pages_api_get prov s path params =
     (case send prov s (Get path params) of
        (NetworkError, s') \<Rightarrow> (Inl RequestException, s')
      | (Reply r, s') \<Rightarrow>
          if \<not> r_ok r then (Inl RequestException, s')
          else if \<not> success r then (Inl CloudflareError, s')
          else (Inr r, s'))"

definition api_put :: "provider \<Rightarrow> state \<Rightarrow> string \<Rightarrow> payload \<Rightarrow> (error + response) \<times> state" where
  "api_put prov s path pl = api_call prov s (Put path pl)"

definition pages_get_dns_records ::
  "provider \<Rightarrow> state \<Rightarrow> string \<Rightarrow> string \<Rightarrow> string option \<Rightarrow> (error + obj list) \<times> state" where
  "pages_get_dns_records prov s zone_id name record_type =
     (let params = (if falsy record_type then [(''name'', S name)]
                    else [(''name'', S name), (''type'', S (the record_type))])
      in case pages_api_get prov s (records_path zone_id) params of
           (Inl e, s') \<Rightarrow> (Inl e, s')
         | (Inr data, s') \<Rightarrow> (Inr (result data), s'))"

fun delete_records :: "provider \<Rightarrow> state \<Rightarrow> string \<Rightarrow> string list \<Rightarrow> (error + unit) \<times> state" where
  "delete_records prov s zone_id [] = (Inr (), s)"
| "delete_records prov s zone_id (rec_id # record_ids) =
     (case send prov s (Delete (record_path zone_id rec_id)) of
        (NetworkError, s') \<Rightarrow> (Inl RequestException, s')
      | (Reply r, s') \<Rightarrow>
          if \<not> r_ok r \<or> \<not> success r then (Inl CloudflareError, s')
          else delete_records prov s' zone_id record_ids)"

definition create_payload :: "string \<Rightarrow> string \<Rightarrow> string \<Rightarrow> int \<Rightarrow> bool \<Rightarrow> string option \<Rightarrow> payload" where
  "create_payload record_type name ip ttl proxied comment =
     \<lparr> p_type = record_type, p_name = name, p_content = ip, p_ttl = ttl, p_priority = None,
       p_proxied = Some proxied, p_comment = (if falsy comment then None else comment) \<rparr>"

definition create_a_record ::
  "provider \<Rightarrow> state \<Rightarrow> string \<Rightarrow> string \<Rightarrow> string \<Rightarrow> int \<Rightarrow> bool \<Rightarrow> string option \<Rightarrow> (error + line) \<times> state" where
  "create_a_record prov s zone_id name ip ttl proxied comment =
     (case api_post prov s (records_path zone_id) (create_payload ''A'' name ip ttl proxied comment) of
        (Inl e, s') \<Rightarrow> (Inl e, s')
      | (Inr created, s') \<Rightarrow> (Inr (CreatedRec ''A'' (result_or_empty created)), s'))"

definition create_aaaa_record ::
  "provider \<Rightarrow> state \<Rightarrow> string \<Rightarrow> string \<Rightarrow> string \<Rightarrow> int \<Rightarrow> bool \<Rightarrow> string option \<Rightarrow> (error + line) \<times> state" where
  "create_aaaa_record prov s zone_id name ip6 ttl proxied comment =
     (case api_post prov s (records_path zone_id) (create_payload ''AAAA'' name ip6 ttl proxied comment) of
        (Inl e, s') \<Rightarrow> (Inl e, s')
      | (Inr created, s') \<Rightarrow> (Inr (CreatedRec ''AAAA'' (result_or_empty created)), s'))"

datatype upsert_message =
    AlreadyPoints string string bool
  | WouldUpdate string string bool
  | UpdatedCname obj
  | WouldCreate string string bool
  | CreatedCname obj

definition upsert_cname ::
  "provider \<Rightarrow> state \<Rightarrow> string \<Rightarrow> string \<Rightarrow> string \<Rightarrow> bool \<Rightarrow> int \<Rightarrow> bool \<Rightarrow> (error + upsert_message) \<times> state" where
  "upsert_cname prov s zone_id name target proxied ttl dry_run =
     (case pages_get_dns_records prov s zone_id name (Some ''CNAME'') of
        (Inl e, s') \<Rightarrow> (Inl e, s')
      | (Inr existing, s') \<Rightarrow>
          (let pl = \<lparr> p_type = ''CNAME'', p_name = name, p_content = target, p_ttl = ttl,
                      p_priority = None, p_proxied = Some proxied, p_comment = None \<rparr>
           in case existing of
                current # _ \<Rightarrow>
                  (case o_id current of
                     None \<Rightarrow> (Inl KeyError, s')
                   | Some rec_id \<Rightarrow>
                       if o_content current = Some target \<and> o_proxied current = Some proxied
                          \<and> (o_ttl current = Some ttl \<or> o_ttl current = Some 1)
                       then (Inr (AlreadyPoints name target proxied), s')
                       else if dry_run then (Inr (WouldUpdate name target proxied), s')
                       else (case api_put prov s' (record_path zone_id rec_id) pl of
                               (Inl e, s'') \<Rightarrow> (Inl e, s'')
                             | (Inr updated, s'') \<Rightarrow> (Inr (UpdatedCname (result_or_empty updated)), s'')))
              | [] \<Rightarrow>
                  if dry_run then (Inr (WouldCreate name target proxied), s')
                  else (case api_post prov s' (records_path zone_id) pl of
                          (Inl e, s'') \<Rightarrow> (Inl e, s'')
                        | (Inr created, s'') \<Rightarrow> (Inr (CreatedCname (result_or_empty created)), s''))))"

text \<open>\<^verbatim>\<open>[r["id"] for r in records]\<close>: a record without an id raises KeyError.\<close>

fun ids_of :: "obj list \<Rightarrow> error + string list" where
  "ids_of [] = Inr []"
| "ids_of (r # rs) =
     (case o_id r of
        None \<Rightarrow> Inl KeyError
      | Some i \<Rightarrow> (case ids_of rs of Inl e \<Rightarrow> Inl e | Inr is \<Rightarrow> Inr (i # is)))"

text \<open>\<^verbatim>\<open>",".join\<close> of the contents, a TypeError when one of them is None.\<close>

fun join_contents :: "obj list \<Rightarrow> error + string" where
  "join_contents [] = Inr []"
| "join_contents (r # rs) =
     (case o_content r of
        None \<Rightarrow> Inl TypeError
      | Some c \<Rightarrow>
          (case join_contents rs of
             Inl e \<Rightarrow> Inl e
           | Inr rest \<Rightarrow> Inr (if rs = [] then c else c @ '','' @ rest)))"

definition github_ips :: "string list" where
  "github_ips = [''185.199.108.153'', ''185.199.109.153'', ''185.199.110.153'', ''185.199.111.153'']"

definition github_ipv6 :: "string list" where
  "github_ipv6 = [''2606:50c0:8000::153'', ''2606:50c0:8001::153'', ''2606:50c0:8002::153'',
                  ''2606:50c0:8003::153'']"

text \<open>
  The two loops \<^verbatim>\<open>for ip in github_ips\<close> and \<^verbatim>\<open>for ip6 in github_ipv6\<close> of \<^verbatim>\<open>main\<close>;
  \<open>record_type\<close> tells which of \<^verbatim>\<open>create_a_record\<close> and \<^verbatim>\<open>create_aaaa_record\<close> is called.
\<close>

fun create_each ::
  "provider \<Rightarrow> string \<Rightarrow> string \<Rightarrow> string \<Rightarrow> string \<Rightarrow> bool \<Rightarrow> string list \<Rightarrow> state \<Rightarrow> (error + unit) \<times> state" where
  "create_each prov zone_id domain record_type previous dry_run [] s = (Inr (), s)"
| "create_each prov zone_id domain record_type previous dry_run (ip # ips) s =
     (if dry_run
      then create_each prov zone_id domain record_type previous dry_run ips
             (emit (WouldCreateRec record_type domain ip) s)
      else
        (let comment = (if previous \<noteq> [] then Some (''Previous apex '' @ record_type @ '': '' @ previous)
                        else None)
         in case (if record_type = ''A''
                  then create_a_record prov s zone_id domain ip 300 False comment
                  else create_aaaa_record prov s zone_id domain ip 300 False comment) of
              (Inl e, s') \<Rightarrow> (Inl e, s')
            | (Inr msg, s') \<Rightarrow>
                create_each prov zone_id domain record_type previous dry_run ips (emit msg s')))"

text \<open>
  The last branch of \<^verbatim>\<open>main\<close>, \<^verbatim>\<open>if args.set_github_a or args.set_github_aaaa\<close>, in
  the three steps its comments name. \<^verbatim>\<open>main\<close> catches nothing, so the first exception
  ends the run. First step: remove the existing apex CNAME.
\<close>

definition remove_apex_cname ::
  "provider \<Rightarrow> state \<Rightarrow> string \<Rightarrow> string \<Rightarrow> bool \<Rightarrow> (error + unit) \<times> state" where
  "remove_apex_cname prov s zone_id domain dry_run =
     (case pages_get_dns_records prov s zone_id domain (Some ''CNAME'') of
        (Inl e, s1) \<Rightarrow> (Inl e, s1)
      | (Inr existing_apex_cname, s1) \<Rightarrow>
          (case ids_of existing_apex_cname of
             Inl e \<Rightarrow> (Inl e, s1)
           | Inr cname_ids \<Rightarrow>
               if cname_ids \<noteq> []
               then (if dry_run then (Inr (), emit (WouldDeleteApexCname cname_ids) s1)
                     else (case delete_records prov s1 zone_id cname_ids of
                             (Inl e, s2) \<Rightarrow> (Inl e, s2)
                           | (Inr u, s2) \<Rightarrow> (Inr (), emit (DeletedApexCname cname_ids) s2)))
               else (Inr (), s1)))"

text \<open>
  Second step: remove the existing apex A and AAAA records; the result is the pair
  \<^verbatim>\<open>previous_a\<close>, \<^verbatim>\<open>previous_aaaa\<close> of their joined contents.
\<close>

definition remove_apex_a_aaaa ::
  "provider \<Rightarrow> state \<Rightarrow> string \<Rightarrow> string \<Rightarrow> bool \<Rightarrow> (error + string \<times> string) \<times> state" where
  "remove_apex_a_aaaa prov s zone_id domain dry_run =
     (case pages_get_dns_records prov s zone_id domain (Some ''A'') of
        (Inl e, s3) \<Rightarrow> (Inl e, s3)
      | (Inr existing_apex_a, s3) \<Rightarrow>
     (case pages_get_dns_records prov s3 zone_id domain (Some ''AAAA'') of
        (Inl e, s4) \<Rightarrow> (Inl e, s4)
      | (Inr existing_apex_aaaa, s4) \<Rightarrow>
     (case join_contents existing_apex_a of
        Inl e \<Rightarrow> (Inl e, s4)
      | Inr previous_a \<Rightarrow>
     (case join_contents existing_apex_aaaa of
        Inl e \<Rightarrow> (Inl e, s4)
      | Inr previous_aaaa \<Rightarrow>
     (case ids_of (existing_apex_a @ existing_apex_aaaa) of
        Inl e \<Rightarrow> (Inl e, s4)
      | Inr ids_to_delete \<Rightarrow>
          if ids_to_delete \<noteq> []
          then (if dry_run then (Inr (previous_a, previous_aaaa), emit (WouldDeleteApexA ids_to_delete) s4)
                else (case delete_records prov s4 zone_id ids_to_delete of
                        (Inl e, s5) \<Rightarrow> (Inl e, s5)
                      | (Inr u, s5) \<Rightarrow>
                          (Inr (previous_a, previous_aaaa), emit (DeletedApexA ids_to_delete) s5)))
          else (Inr (previous_a, previous_aaaa), s4))))))"

text \<open>Third step: create the requested records.\<close>

definition create_requested ::
  "provider \<Rightarrow> state \<Rightarrow> string \<Rightarrow> string \<Rightarrow> bool \<Rightarrow> bool \<Rightarrow> bool \<Rightarrow> string \<Rightarrow> string
     \<Rightarrow> (error + unit) \<times> state" where
  "create_requested prov s zone_id domain set_github_a set_github_aaaa dry_run previous_a previous_aaaa =
     (case (if set_github_a
            then create_each prov zone_id domain ''A'' previous_a dry_run github_ips s
            else (Inr (), s)) of
        (Inl e, s6) \<Rightarrow> (Inl e, s6)
      | (Inr u, s6) \<Rightarrow>
          if set_github_aaaa
          then create_each prov zone_id domain ''AAAA'' previous_aaaa dry_run github_ipv6 s6
          else (Inr (), s6))"

definition main_set_github ::
  "provider \<Rightarrow> state \<Rightarrow> string \<Rightarrow> string \<Rightarrow> bool \<Rightarrow> bool \<Rightarrow> bool \<Rightarrow> (error + unit) \<times> state" where
  "main_set_github prov s zone_id domain set_github_a set_github_aaaa dry_run =
     (case remove_apex_cname prov s zone_id domain dry_run of
        (Inl e, s2) \<Rightarrow> (Inl e, s2)
      | (Inr u, s2) \<Rightarrow>
          (case remove_apex_a_aaaa prov s2 zone_id domain dry_run of
             (Inl e, s5) \<Rightarrow> (Inl e, s5)
           | (Inr (previous_a, previous_aaaa), s5) \<Rightarrow>
               create_requested prov s5 zone_id domain set_github_a set_github_aaaa dry_run
                 previous_a previous_aaaa))"

fun is_create :: "request \<Rightarrow> bool" where
  "is_create (Post _ _) = True"
| "is_create _ = False"

fun is_would_create :: "line \<Rightarrow> bool" where
  "is_would_create (WouldCreateRec _ _ _) = True"
| "is_would_create _ = False"

section \<open>export\_zone\_dns\_summary.py\<close>

text \<open>Here \<^verbatim>\<open>api_get\<close> raises SystemExit for a failed response.\<close>

definition export_api_get ::
  "provider \<Rightarrow> state \<Rightarrow> string \<Rightarrow> (string \<times> pval) list \<Rightarrow> (error + response) \<times> state" where
  "export_api_get prov s path params =
     (case send prov s (Get path params) of
        (NetworkError, s') \<Rightarrow> (Inl RequestException, s')
      | (Reply r, s') \<Rightarrow>
          if \<not> r_ok r then (Inl SystemExit, s')
          else if \<not> success r then (Inl SystemExit, s')
          else (Inr r, s'))"

definition get_zone_id_by_name :: "provider \<Rightarrow> state \<Rightarrow> string \<Rightarrow> (error + string option) \<times> state" where
  "get_zone_id_by_name prov s zone_name =
     (case export_api_get prov s ''/zones'' [(''name'', S zone_name), (''per_page'', I 1)] of
        (Inl e, s') \<Rightarrow> (Inl e, s')
      | (Inr data, s') \<Rightarrow>
          (case result data of
             [] \<Rightarrow> (Inr None, s')
           | z # _ \<Rightarrow> (Inr (o_id z), s')))"

definition dns_records ::
  "provider \<Rightarrow> state \<Rightarrow> string \<Rightarrow> (string \<times> pval) list \<Rightarrow> (error + obj list) \<times> state" where
  "dns_records prov s zone_id params =
     (case export_api_get prov s (records_path zone_id) params of
        (Inl e, s') \<Rightarrow> (Inl e, s')
      | (Inr data, s') \<Rightarrow> (Inr (result data), s'))"

text \<open>
  One row of the CSV. A column the source fills with \<^verbatim>\<open>";".join(values)\<close> holds the list
  of values here; the join of no value is the empty string of the empty row.
\<close>

datatype cell = Str string | Num int | Null

record row =
  row_zone :: string
  apex_a_ips :: "cell list"
  apex_a_ttls :: "cell list"
  apex_a_proxied :: "string list"
  apex_aaaa_ips :: "cell list"
  apex_aaaa_ttls :: "cell list"
  apex_aaaa_proxied :: "string list"
  www_cname_target :: cell
  www_cname_ttl :: cell
  www_cname_proxied :: string
  other_a_count :: nat
  other_aaaa_count :: nat
  other_cname_count :: nat

definition empty_row :: "string \<Rightarrow> row" where
  "empty_row zone_name =
     \<lparr> row_zone = zone_name, apex_a_ips = [], apex_a_ttls = [], apex_a_proxied = [],
       apex_aaaa_ips = [], apex_aaaa_ttls = [], apex_aaaa_proxied = [],
       www_cname_target = Str [], www_cname_ttl = Str [], www_cname_proxied = [],
       other_a_count = 0, other_aaaa_count = 0, other_cname_count = 0 \<rparr>"

definition filter_out :: "obj list \<Rightarrow> string list \<Rightarrow> obj list" where
  "filter_out records names = filter (\<lambda>r. o_name r \<notin> Some ` set names) records"

definition str_cell :: "string option \<Rightarrow> cell" where
  "str_cell v = (case v of None \<Rightarrow> Str [] | Some c \<Rightarrow> Str c)"

definition num_cell :: "int option \<Rightarrow> cell" where
  "num_cell v = (case v of None \<Rightarrow> Str [] | Some n \<Rightarrow> Num n)"

definition join_bool :: "obj list \<Rightarrow> string list" where
  "join_bool records = map (\<lambda>r. if o_proxied r = Some True then ''true'' else ''false'') records"

definition collect_zone_summary ::
  "provider \<Rightarrow> state \<Rightarrow> string \<Rightarrow> string option \<Rightarrow> (error + row) \<times> state" where
  "collect_zone_summary prov s zone_name zone_id_override =
     (case (if \<not> falsy zone_id_override then (Inr zone_id_override, s)
            else get_zone_id_by_name prov s zone_name) of
        (Inl e, s0) \<Rightarrow> (Inl e, s0)
      | (Inr zid, s0) \<Rightarrow>
     if falsy zid then (Inr (empty_row zone_name), s0)
     else
     (let www_name = ''www.'' @ zone_name in
      case dns_records prov s0 (the zid) [(''type'', S ''A''), (''name'', S zone_name), (''per_page'', I 100)] of
        (Inl e, s1) \<Rightarrow> (Inl e, s1)
      | (Inr apex_a, s1) \<Rightarrow>
     (case dns_records prov s1 (the zid) [(''type'', S ''AAAA''), (''name'', S zone_name), (''per_page'', I 100)] of
        (Inl e, s2) \<Rightarrow> (Inl e, s2)
      | (Inr apex_aaaa, s2) \<Rightarrow>
     (case dns_records prov s2 (the zid) [(''type'', S ''CNAME''), (''name'', S www_name), (''per_page'', I 1)] of
        (Inl e, s3) \<Rightarrow> (Inl e, s3)
      | (Inr www_cname, s3) \<Rightarrow>
     (case dns_records prov s3 (the zid) [(''type'', S ''A''), (''per_page'', I 100)] of
        (Inl e, s4) \<Rightarrow> (Inl e, s4)
      | (Inr other_a, s4) \<Rightarrow>
     (case dns_records prov s4 (the zid) [(''type'', S ''AAAA''), (''per_page'', I 100)] of
        (Inl e, s5) \<Rightarrow> (Inl e, s5)
      | (Inr other_aaaa, s5) \<Rightarrow>
     (case dns_records prov s5 (the zid) [(''type'', S ''CNAME''), (''per_page'', I 100)] of
        (Inl e, s6) \<Rightarrow> (Inl e, s6)
      | (Inr other_cname, s6) \<Rightarrow>
          (Inr \<lparr> row_zone = zone_name,
                 apex_a_ips = map (\<lambda>r. str_cell (o_content r)) apex_a,
                 apex_a_ttls = map (\<lambda>r. num_cell (o_ttl r)) apex_a,
                 apex_a_proxied = join_bool apex_a,
                 apex_aaaa_ips = map (\<lambda>r. str_cell (o_content r)) apex_aaaa,
                 apex_aaaa_ttls = map (\<lambda>r. num_cell (o_ttl r)) apex_aaaa,
                 apex_aaaa_proxied = join_bool apex_aaaa,
                 www_cname_target =
                   (case www_cname of [] \<Rightarrow> Str []
                    | w # _ \<Rightarrow> (case o_content w of None \<Rightarrow> Null | Some c \<Rightarrow> Str c)),
                 www_cname_ttl =
                   (case www_cname of [] \<Rightarrow> Str []
                    | w # _ \<Rightarrow> (case o_ttl w of None \<Rightarrow> Null | Some t \<Rightarrow> Num t)),
                 www_cname_proxied =
                   (case www_cname of [] \<Rightarrow> []
                    | w # _ \<Rightarrow> (case o_proxied w of None \<Rightarrow> []
                                 | Some b \<Rightarrow> if b then ''true'' else ''false'')),
                 other_a_count = length (filter_out other_a [zone_name]),
                 other_aaaa_count = length (filter_out other_aaaa [zone_name]),
                 other_cname_count = length (filter_out other_cname [zone_name, www_name]) \<rparr>,
           s6))))))))"

text \<open>
  The loop of \<^verbatim>\<open>main\<close> over the zone names: a SystemExit is raised again, any other
  exception leaves an empty row. \<open>zone_id_map\<close> is the dict of given zone ids.
\<close>

fun collect_rows ::
  "provider \<Rightarrow> (string \<rightharpoonup> string) \<Rightarrow> string list \<Rightarrow> row list \<Rightarrow> state \<Rightarrow> (error + row list) \<times> state" where
  "collect_rows prov zone_id_map [] rows s = (Inr rows, s)"
| "collect_rows prov zone_id_map (zone_name # zones) rows s =
     (case collect_zone_summary prov s zone_name (zone_id_map zone_name) of
        (Inl SystemExit, s') \<Rightarrow> (Inl SystemExit, s')
      | (Inl e, s') \<Rightarrow> collect_rows prov zone_id_map zones (rows @ [empty_row zone_name]) s'
      | (Inr r, s') \<Rightarrow> collect_rows prov zone_id_map zones (rows @ [r]) s')"

section \<open>Sample providers and records\<close>

text \<open>Concrete providers and records, for evaluating the scripts on explicit inputs.\<close>

definition listing :: "obj list \<Rightarrow> response" where
  "listing rs = \<lparr> r_ok = True, status_code = 200, success = True, result = rs, result_obj = None,
                  total_pages = Some 1 \<rparr>"

definition not_found :: response where
  "not_found = \<lparr> r_ok = False, status_code = 404, success = False, result = [], result_obj = None,
                 total_pages = None \<rparr>"

definition rec_obj :: "string \<Rightarrow> string \<Rightarrow> string \<Rightarrow> string \<Rightarrow> int \<Rightarrow> bool \<Rightarrow> obj" where
  "rec_obj i t n c ttl prox =
     \<lparr> o_id = Some i, o_type = Some t, o_name = Some n, o_content = Some c, o_ttl = Some ttl,
       o_priority = None, o_proxied = Some prox \<rparr>"

text \<open>A provider that answers every GET with the same listing and accepts every mutation.\<close>

definition accepting :: "obj list \<Rightarrow> provider" where
  "accepting rs hist rq = Reply (listing rs)"

text \<open>A provider that knows one zone and no record: every DELETE is answered 404.\<close>

definition record_gone :: provider where
  "record_gone hist rq = (case rq of Delete _ \<Rightarrow> Reply not_found | _ \<Rightarrow> Reply (listing [rec_obj ''z1'' [] ''example.org'' [] 1 False]))"

text \<open>A provider that refuses every request with status 404.\<close>

definition refusing :: provider where
  "refusing hist rq = Reply not_found"

text \<open>
  A provider holding the records \<open>rs\<close> that answers a listing in pages of \<open>page_size\<close>
  records: page \<open>p\<close> (1 when the request names none) holds the records from position
  \<open>(p - 1) * page_size\<close> on, and \<open>total_pages\<close> is the number of pages, rounded up.
\<close>

definition page_param :: "(string \<times> pval) list \<Rightarrow> nat" where
  "page_param params = (case map_of params ''page'' of Some (I p) \<Rightarrow> p | _ \<Rightarrow> 1)"

definition paged :: "nat \<Rightarrow> obj list \<Rightarrow> provider" where
  "paged page_size rs hist rq =
     (case rq of
        Get path params \<Rightarrow>
          Reply \<lparr> r_ok = True, status_code = 200, success = True,
                  result = take page_size (drop ((page_param params - 1) * page_size) rs),
                  result_obj = None,
                  total_pages = Some ((length rs + page_size - 1) div page_size) \<rparr>
      | _ \<Rightarrow> Reply (listing []))"

definition s0 :: state where
  "s0 = \<lparr> log = [], out = [] \<rparr>"

text \<open>
  The record a provider lists after it stored a payload under the id \<open>i\<close>: the fields of
  the payload, unchanged.
\<close>

definition stored :: "string \<Rightarrow> payload \<Rightarrow> obj" where
  "stored i p =
     \<lparr> o_id = Some i, o_type = Some (p_type p), o_name = Some (p_name p), o_content = Some (p_content p),
       o_ttl = Some (p_ttl p), o_priority = p_priority p, o_proxied = p_proxied p \<rparr>"

definition delete_args :: args where
  "delete_args = \<lparr> a_zone = ''example.org'', a_name = None, a_type = None, a_ip = None, a_target = None,
                    a_content = None, a_priority = 10, a_record_id = Some ''r9'', a_search = False,
                    a_delete = True, a_dry_run = False, a_proxied = False, a_no_proxy = False \<rparr>"

definition apex_cname :: obj where
  "apex_cname = rec_obj ''c1'' ''CNAME'' ''example.org'' ''old-host.github.io'' 1 False"

definition apex_a_def :: record_def where
  "apex_a_def = \<lparr> d_type = ''A'', d_name = ''@'', d_content = ''185.199.108.153'', d_priority = None,
                   d_proxied = Some False \<rparr>"

definition old_a :: obj where
  "old_a = rec_obj ''a1'' ''A'' ''staging.example.org'' ''203.0.113.7'' 120 False"

text \<open>
  A provider holding the records \<open>rs\<close> that answers a listing with the records of the
  requested type and name, and accepts every mutation.
\<close>

definition wanted :: "(string \<times> pval) list \<Rightarrow> obj \<Rightarrow> bool" where
  "wanted params r =
     ((case map_of params ''type'' of Some (S t) \<Rightarrow> o_type r = Some t | _ \<Rightarrow> True)
      \<and> (case map_of params ''name'' of Some (S n) \<Rightarrow> o_name r = Some n | _ \<Rightarrow> True))"

definition filtering :: "obj list \<Rightarrow> provider" where
  "filtering rs hist rq =
     (case rq of
        Get path params \<Rightarrow> Reply (listing (filter (wanted params) rs))
      | _ \<Rightarrow> Reply (listing []))"

definition txt1 :: obj where
  "txt1 = rec_obj ''t1'' ''TXT'' ''example.org'' ''v=spf1 -all'' 1 False"

definition txt2 :: obj where
  "txt2 = rec_obj ''t2'' ''TXT'' ''example.org'' ''site-verification=abc'' 1 False"

definition txt3 :: obj where
  "txt3 = rec_obj ''t3'' ''TXT'' ''example.org'' ''site-verification=def'' 1 False"

definition page_request :: "string \<Rightarrow> nat \<Rightarrow> request" where
  "page_request zone_id page = Get (records_path zone_id) [(''per_page'', I 100), (''page'', I page)]"

definition stale_www :: obj where
  "stale_www = rec_obj ''w0'' ''CNAME'' ''www.example.org'' ''other.example.net'' 1 False"

text \<open>The payloads of the POST requests of a log, in order.\<close>

fun posted_payloads :: "request list \<Rightarrow> payload list" where
  "posted_payloads [] = []"
| "posted_payloads (Post path pl # rqs) = pl # posted_payloads rqs"
| "posted_payloads (rq # rqs) = posted_payloads rqs"

text \<open>
  The records of a zone after a run that started from the log \<open>before\<close> and ended with
  the log \<open>after\<close>, when nothing else changed the zone: the records listed before the
  run, then the records stored for the payloads the run posted, under the ids \<open>ids\<close>.
\<close>

definition zone_after :: "obj list \<Rightarrow> string list \<Rightarrow> request list \<Rightarrow> request list \<Rightarrow> obj list" where
  "zone_after all_records ids before after =
     all_records @ map (\<lambda>(i, pl). stored i pl) (zip ids (posted_payloads (drop (length before) after)))"

definition www_def :: "string \<Rightarrow> record_def" where
  "www_def z = \<lparr> d_type = ''CNAME'', d_name = ''www'', d_content = z, d_priority = None,
                 d_proxied = Some False \<rparr>"

definition first_run_log :: "request list" where
  "first_run_log =
     log (snd (ensure_all (accepting []) ''z1'' ''example.org'' [stale_www] False
                 (standards ''example.org'') 0 s0))"

definition new_ids :: "string list" where
  "new_ids = [''n1'', ''n2'', ''n3'', ''n4'', ''n5'', ''n6'', ''n7'', ''n8'']"

text \<open>
  A provider that knows one zone, under the id \<open>zid\<close>, lists the records \<open>rs\<close> on one
  page and accepts every mutation.
\<close>

definition hosting :: "string \<Rightarrow> obj list \<Rightarrow> provider" where
  "hosting zid rs hist rq =
     (case rq of
        Get path params \<Rightarrow>
          if path = ''/zones'' then Reply (listing [no_obj\<lparr>o_id := Some zid\<rparr>]) else Reply (listing rs)
      | _ \<Rightarrow> Reply (listing []))"

definition fresh_run_log :: "request list" where
  "fresh_run_log =
     log (snd (ensure_all (hosting ''z1'' []) ''z1'' ''example.org'' [] False
                 (standards ''example.org'') 0 s0))"

text \<open>
  The requests a dry-run report of update\_dns.py describes: a PATCH of the record, with the
  proposed payload, for every detail with status dry-run, and a POST of the proposed payload
  for a proposed create.
\<close>

fun detail_request :: "string \<Rightarrow> detail \<Rightarrow> request list" where
  "detail_request zone_id (DryRunDetail i proposed old_ip old_proxied) =
     [Patch (record_path zone_id (fmt i)) proposed]"
| "detail_request zone_id _ = []"

fun intended :: "string \<Rightarrow> update_result \<Rightarrow> request list" where
  "intended zone_id (Processed n details) = concat (map (detail_request zone_id) details)"
| "intended zone_id (DryRunCreate proposed) = [Post (records_path zone_id) proposed]"
| "intended zone_id _ = []"

definition intended_of :: "string \<Rightarrow> error + update_result \<Rightarrow> request list" where
  "intended_of zone_id r = (case r of Inl e \<Rightarrow> [] | Inr res \<Rightarrow> intended zone_id res)"



text \<open>
  The PATCH requests that \<^verbatim>\<open>process_existing\<close> has to issue for a listing: one for every
  record whose content or proxied flag differs from the desired value, in the order listed.
\<close>

fun pending :: "string \<Rightarrow> payload \<Rightarrow> string \<Rightarrow> bool \<Rightarrow> obj list \<Rightarrow> request list" where
  "pending zone_id pt new_ip proxied [] = []"
| "pending zone_id pt new_ip proxied (rec # recs) =
     (if o_content rec = Some new_ip \<and> o_proxied rec = Some proxied
      then pending zone_id pt new_ip proxied recs
      else Patch (record_path zone_id (fmt (o_id rec))) pt # pending zone_id pt new_ip proxied recs)"

text \<open>
  How a dry run \<open>D\<close> and an apply run \<open>A\<close> of one operation of update\_dns.py, both from
  the state \<open>s\<close>, relate: the dry run issues no mutation; the apply run issues the
  requests of the dry run and then the first \<open>k\<close> of the requests the dry-run report
  describes, all of them when it returns; and when it raises, either the dry run raised the
  same error at the same place, or the dry run returned and the error came with the last of
  these \<open>k\<close> requests.
\<close>

definition dry_apply_agree ::
  "string \<Rightarrow> state \<Rightarrow> (error + update_result) \<times> state \<Rightarrow> (error + update_result) \<times> state \<Rightarrow> bool" where
  "dry_apply_agree zone_id s D A =
     (\<exists>k. log (snd A) = log (snd D) @ take k (intended_of zone_id (fst D))
        \<and> mutations (snd D) = mutations s
        \<and> (case fst A of
              Inr ra \<Rightarrow> length (intended_of zone_id (fst D)) \<le> k \<and> \<not> isl (fst D)
            | Inl e \<Rightarrow> (fst D = Inl e \<and> k = 0)
                       \<or> (\<not> isl (fst D) \<and> 0 < k \<and> k \<le> length (intended_of zone_id (fst D)))))"

definition a_record_args :: args where
  "a_record_args = \<lparr> a_zone = ''example.org'', a_name = Some ''staging'', a_type = Some ''A'',
                      a_ip = Some ''not-an-ip'', a_target = None, a_content = None, a_priority = 10,
                      a_record_id = None, a_search = False, a_delete = False, a_dry_run = False,
                      a_proxied = False, a_no_proxy = False \<rparr>"

text \<open>
  The exception that ends a sequence of requests of the export, when the provider answers
  them one after the other from the history \<open>h\<close>: the one \<^verbatim>\<open>api_get\<close> raises for the
  first request that is not answered with an ok and successful response, a
  RequestException of \<^verbatim>\<open>requests\<close> when no response arrives and SystemExit for a failed
  response; \<open>None\<close> when every request is answered well.
\<close>

fun export_failure :: "provider \<Rightarrow> request list \<Rightarrow> request list \<Rightarrow> error option" where
  "export_failure prov h [] = None"
| "export_failure prov h (rq # rqs) =
     (case prov h rq of
        NetworkError \<Rightarrow> Some RequestException
      | Reply resp \<Rightarrow>
          if \<not> r_ok resp \<or> \<not> success resp then Some SystemExit
          else export_failure prov (h @ [rq]) rqs)"

definition error_of :: "error + 'a \<Rightarrow> error option" where
  "error_of r = (case r of Inl e \<Rightarrow> Some e | Inr v \<Rightarrow> None)"

text \<open>
  A step from the state \<open>s\<close> to the state \<open>s1\<close> that ends with the error \<open>e\<close> (or with
  none) is answered for: the requests it issued were all answered well but for the last,
  and \<open>e\<close> is the exception of the export for the answer to the last.
\<close>

definition answered :: "provider \<Rightarrow> state \<Rightarrow> error option \<Rightarrow> state \<Rightarrow> bool" where
  "answered prov s e s1 =
     (\<exists>reqs. log s1 = log s @ reqs
        \<and> export_failure prov (log s) (butlast reqs) = None
        \<and> export_failure prov (log s) reqs = e)"

text \<open>A provider that knows one zone and loses every request for its records.\<close>

definition unreadable :: "string \<Rightarrow> provider" where
  "unreadable zid hist rq =
     (case rq of
        Get path params \<Rightarrow>
          if path = ''/zones'' then Reply (listing [no_obj\<lparr>o_id := Some zid\<rparr>]) else NetworkError
      | _ \<Rightarrow> NetworkError)"

section \<open>Basic facts\<close>

lemma api_call_state: "api_call prov s rq = (r, s') \<Longrightarrow> s' = s\<lparr>log := log s @ [rq]\<rparr>"
  by (auto simp: api_call_def send_def split: reply.splits if_splits)

lemma pages_api_get_state:
  "pages_api_get prov s path params = (r, s') \<Longrightarrow> s' = s\<lparr>log := log s @ [Get path params]\<rparr>"
  by (auto simp: pages_api_get_def send_def split: reply.splits if_splits)

lemma pages_get_dns_records_state:
  "pages_get_dns_records prov s zone_id name t = (r, s') \<Longrightarrow>
     \<exists>ps. s' = s\<lparr>log := log s @ [Get (records_path zone_id) ps]\<rparr>"
  by (auto simp: pages_get_dns_records_def Let_def split: prod.splits sum.splits
           dest!: pages_api_get_state)

lemma get_dns_records_state:
  "get_dns_records prov s zone_id name t = (r, s') \<Longrightarrow>
     s' = s\<lparr>log := log s @ [Get (records_path zone_id) [(''type'', S t), (''name'', S name)]]\<rparr>"
  by (auto simp: get_dns_records_def api_get_def split: prod.splits sum.splits dest!: api_call_state)

lemma get_zone_id_state:
  "get_zone_id prov s domain = (r, s') \<Longrightarrow> s' = s\<lparr>log := log s @ [Get ''/zones'' [(''name'', S domain)]]\<rparr>"
  by (auto simp: get_zone_id_def api_get_def split: prod.splits sum.splits list.splits option.splits
           dest!: api_call_state)

section \<open>The CNAME upsert of update\_pages\_dns.py\<close>

text \<open>
  C10. In \<^verbatim>\<open>upsert_cname\<close>, when the first listed CNAME has the desired content and proxied
  flag, and its TTL is the desired TTL or 1 (the provider's Auto), the result is the message
  that the CNAME already points to the target and no mutating request is issued, in dry-run
  and in apply mode alike: a requested TTL is not enforced over an existing TTL of 1.
\<close>

theorem upsert_cname_auto_ttl_satisfied:
  assumes "pages_get_dns_records prov s zone_id name (Some ''CNAME'') = (Inr (current # others), s')"
    and "o_id current = Some rec_id"
    and "o_content current = Some target"
    and "o_proxied current = Some proxied"
    and "o_ttl current = Some ttl \<or> o_ttl current = Some 1"
  shows "upsert_cname prov s zone_id name target proxied ttl dry_run
           = (Inr (AlreadyPoints name target proxied), s')
         \<and> mutations s' = mutations s"
proof -
  from assms(1) obtain ps where "s' = s\<lparr>log := log s @ [Get (records_path zone_id) ps]\<rparr>"
    using pages_get_dns_records_state by blast
  then have "mutations s' = mutations s"
    by (simp add: mutations_def)
  moreover have "upsert_cname prov s zone_id name target proxied ttl dry_run
           = (Inr (AlreadyPoints name target proxied), s')"
    using assms by (auto simp: upsert_cname_def)
  ultimately show ?thesis by simp
qed

theorem upsert_cname_auto_ttl_satisfied_witness:
  "upsert_cname (accepting [rec_obj ''r1'' ''CNAME'' ''www.example.org'' ''host.github.io'' 1 False]) s0
      ''z1'' ''www.example.org'' ''host.github.io'' False 300 False
     = (Inr (AlreadyPoints ''www.example.org'' ''host.github.io'' False),
        \<lparr>log = [Get ''/zones/z1/dns_records'' [(''name'', S ''www.example.org''), (''type'', S ''CNAME'')]],
         out = []\<rparr>)
   \<and> mutations \<lparr>log = [Get ''/zones/z1/dns_records'' [(''name'', S ''www.example.org''), (''type'', S ''CNAME'')]],
         out = []\<rparr> = mutations s0"
  using upsert_cname_auto_ttl_satisfied
    [of "accepting [rec_obj ''r1'' ''CNAME'' ''www.example.org'' ''host.github.io'' 1 False]" s0 "''z1''"
        "''www.example.org''" "rec_obj ''r1'' ''CNAME'' ''www.example.org'' ''host.github.io'' 1 False" "[]"
        "\<lparr>log = [Get ''/zones/z1/dns_records'' [(''name'', S ''www.example.org''), (''type'', S ''CNAME'')]],
         out = []\<rparr>" "''r1''" "''host.github.io''" False 300 False]
  by (simp add: pages_get_dns_records_def pages_api_get_def send_def accepting_def listing_def
        rec_obj_def s0_def records_path_def falsy_def)

section \<open>Deleting a record by id in update\_dns.py\<close>

text \<open>
  C7, as stated, fails: for a provider that answers the DELETE of an absent id with status
  404, \<^verbatim>\<open>delete_dns_record\<close> raises CloudflareError and \<^verbatim>\<open>main\<close> exits with status 1.
\<close>

theorem delete_absent_id_counterexample:
  "fst (delete_dns_record record_gone s0 ''z1'' ''r9'' False) = Inl CloudflareError
   \<and> fst (main (\<lambda>ip. True) (\<lambda>ip. True) record_gone s0 delete_args ''token'') = Exit 1"
  by (simp add: delete_dns_record_def api_delete_def api_call_def send_def record_gone_def not_found_def
        main_def validate_args_def delete_args_def falsy_def get_zone_id_def api_get_def listing_def
        rec_obj_def outcome_of_def s0_def)

text \<open>
  C7, amended. Under dry-run \<^verbatim>\<open>delete_dns_record\<close> issues no request and reports what it
  would delete. In apply mode it issues the one DELETE and reports the record deleted only
  when the response is ok and its success flag is true; every other response, a not-found
  one included, is raised as CloudflareError.
\<close>

theorem delete_dns_record_propagates_failure:
  "delete_dns_record prov s zone_id record_id True = (Inr (WouldDeleteRecord record_id), s)
   \<and> log (snd (delete_dns_record prov s zone_id record_id False))
       = log s @ [Delete (record_path zone_id record_id)]
   \<and> (\<forall>resp. prov (log s) (Delete (record_path zone_id record_id)) = Reply resp \<longrightarrow>
        fst (delete_dns_record prov s zone_id record_id False)
          = (if r_ok resp \<and> success resp then Inr (RecordDeleted record_id resp) else Inl CloudflareError))"
  by (auto simp: delete_dns_record_def api_delete_def api_call_def send_def split: reply.splits)

theorem delete_dns_record_propagates_failure_witness:
  "record_gone (log s0) (Delete (record_path ''z1'' ''r9'')) = Reply not_found
   \<and> fst (delete_dns_record record_gone s0 ''z1'' ''r9'' False) = Inl CloudflareError"
  using delete_dns_record_propagates_failure [of record_gone s0 "''z1''" "''r9''"]
  by (simp add: record_gone_def not_found_def)

section \<open>The batch export of export\_zone\_dns\_summary.py\<close>

lemma export_api_get_state:
  "export_api_get prov s path params = (r, s') \<Longrightarrow> s' = s\<lparr>log := log s @ [Get path params]\<rparr>"
  by (auto simp: export_api_get_def send_def split: reply.splits if_splits)

lemma collect_zone_summary_zone:
  "collect_zone_summary prov s zone_name ov = (Inr r, s') \<Longrightarrow> row_zone r = zone_name"
  by (auto simp: collect_zone_summary_def empty_row_def Let_def
           split: prod.splits sum.splits if_splits)

lemma collect_rows_zones:
  "collect_rows prov m zones rows s = (Inr rows', s') \<Longrightarrow> map row_zone rows' = map row_zone rows @ zones"
proof (induction zones arbitrary: rows s)
  case Nil
  then show ?case by simp
next
  case (Cons z zs)
  obtain r s1 where step: "collect_zone_summary prov s z (m z) = (r, s1)"
    by (cases "collect_zone_summary prov s z (m z)")
  show ?case
  proof (cases r)
    case (Inl e)
    with Cons.prems step have "collect_rows prov m zs (rows @ [empty_row z]) s1 = (Inr rows', s')"
      by (cases e) simp_all
    from Cons.IH [OF this] show ?thesis by (simp add: empty_row_def)
  next
    case (Inr row)
    with Cons.prems step have "collect_rows prov m zs (rows @ [row]) s1 = (Inr rows', s')"
      by simp
    from Cons.IH [OF this] collect_zone_summary_zone [of prov s z "m z" row s1] step Inr
    show ?thesis by simp
  qed
qed

lemma collect_rows_error:
  "collect_rows prov m zones rows s = (Inl e, s') \<Longrightarrow> e = SystemExit"
proof (induction zones arbitrary: rows s)
  case Nil
  then show ?case by simp
next
  case (Cons z zs)
  obtain r s1 where step: "collect_zone_summary prov s z (m z) = (r, s1)"
    by (cases "collect_zone_summary prov s z (m z)")
  show ?case
  proof (cases r)
    case (Inl x)
    with Cons step show ?thesis by (cases x) auto
  next
    case (Inr row)
    with Cons step show ?thesis by auto
  qed
qed

lemma lookup_failed_response:
  assumes "falsy ov"
    and "prov (log s) (Get ''/zones'' [(''name'', S z), (''per_page'', I 1)]) = Reply resp"
    and "\<not> (r_ok resp \<and> success resp)"
  shows "collect_zone_summary prov s z ov
           = (Inl SystemExit, s\<lparr>log := log s @ [Get ''/zones'' [(''name'', S z), (''per_page'', I 1)]]\<rparr>)"
  using assms
  by (auto simp: collect_zone_summary_def get_zone_id_by_name_def export_api_get_def send_def)

lemma lookup_network_error:
  assumes "falsy ov"
    and "prov (log s) (Get ''/zones'' [(''name'', S z), (''per_page'', I 1)]) = NetworkError"
  shows "collect_zone_summary prov s z ov
           = (Inl RequestException, s\<lparr>log := log s @ [Get ''/zones'' [(''name'', S z), (''per_page'', I 1)]]\<rparr>)"
  using assms
  by (simp add: collect_zone_summary_def get_zone_id_by_name_def export_api_get_def send_def)

lemma lookup_no_zone:
  assumes "falsy ov"
    and "prov (log s) (Get ''/zones'' [(''name'', S z), (''per_page'', I 1)]) = Reply resp"
    and "r_ok resp" and "success resp" and "result resp = []"
  shows "collect_zone_summary prov s z ov
           = (Inr (empty_row z), s\<lparr>log := log s @ [Get ''/zones'' [(''name'', S z), (''per_page'', I 1)]]\<rparr>)"
  using assms
  by (simp add: collect_zone_summary_def get_zone_id_by_name_def export_api_get_def send_def falsy_def)

text \<open>
  C9, as stated, fails: for a provider that refuses the zone lookup with status 404, the
  export of two zones ends in SystemExit after the first request and collects no row.
\<close>

theorem export_aborts_on_failed_response_counterexample:
  "collect_rows refusing Map.empty [''a.org'', ''b.org''] [] s0
     = (Inl SystemExit, \<lparr>log = [Get ''/zones'' [(''name'', S ''a.org''), (''per_page'', I 1)]], out = []\<rparr>)"
  by (simp add: collect_zone_summary_def get_zone_id_by_name_def export_api_get_def send_def falsy_def
        refusing_def not_found_def s0_def)

section \<open>The ensure operations: enforce\_standard.py and update\_dns.py\<close>

lemma already_exists_match:
  assumes "already_exists zone rd all_records"
  shows "\<exists>r\<in>set all_records. o_type r = Some (d_type rd) \<and> o_name r = Some (rec_name_of zone rd)
            \<and> o_content r = Some (d_content rd)
            \<and> (d_type rd = ''MX'' \<longrightarrow> o_priority r = Some (get_priority rd))"
proof (cases "d_type rd \<in> set [''MX'', ''TXT'', ''A'']")
  case True
  with assms have "exact_match_of zone rd all_records \<noteq> []"
    by (simp add: already_exists_def)
  then obtain r where "r \<in> set (exact_match_of zone rd all_records)"
    by (cases "exact_match_of zone rd all_records") auto
  then show ?thesis
    by (auto simp: exact_match_of_def matches_of_def Let_def split: if_splits)
next
  case False
  with assms obtain m ms where m: "matches_of zone rd all_records = m # ms" "o_content m = Some (d_content rd)"
    by (auto simp: already_exists_def split: list.splits)
  then have "m \<in> set (matches_of zone rd all_records)" by simp
  then have "m \<in> set all_records \<and> o_type m = Some (d_type rd) \<and> o_name m = Some (rec_name_of zone rd)"
    by (simp add: matches_of_def)
  with m False show ?thesis by auto
qed

lemma already_exists_multi:
  assumes "d_type rd \<in> set [''MX'', ''TXT'', ''A'']"
    and "r \<in> set all_records" and "o_type r = Some (d_type rd)" and "o_name r = Some (rec_name_of zone rd)"
    and "o_content r = Some (d_content rd)"
    and "d_type rd = ''MX'' \<longrightarrow> o_priority r = Some (get_priority rd)"
  shows "already_exists zone rd all_records"
proof -
  from assms have "r \<in> set (exact_match_of zone rd all_records)"
    by (auto simp: exact_match_of_def matches_of_def Let_def)
  then have "exact_match_of zone rd all_records \<noteq> []" by auto
  with assms(1) show ?thesis by (simp add: already_exists_def)
qed

lemma ensure_record_satisfied:
  "(fst (ensure_record prov s zone_id zone rd all_records dry_run) = Inr False)
     = already_exists zone rd all_records"
  by (auto simp: ensure_record_def split: prod.splits sum.splits error.splits)

lemma ensure_record_dry:
  "\<not> already_exists zone rd all_records \<Longrightarrow>
   ensure_record prov s zone_id zone rd all_records True
     = (Inr True, emit (DryRunWouldCreate (d_type rd) (d_name rd) (d_content rd)) s)"
  by (simp add: ensure_record_def)

lemma ensure_record_apply_log:
  "\<not> already_exists zone rd all_records \<Longrightarrow>
   log (snd (ensure_record prov s zone_id zone rd all_records False))
     = log s @ [Post (records_path zone_id) (ensure_payload zone rd)]"
  by (auto simp: ensure_record_def api_post_def emit_def split: prod.splits sum.splits error.splits
           dest!: api_call_state)

lemma ensure_record_no_request:
  "already_exists zone rd all_records \<or> dry_run \<Longrightarrow>
   log (snd (ensure_record prov s zone_id zone rd all_records dry_run)) = log s"
  by (auto simp: ensure_record_def emit_def)

lemma find_exact_match_Some:
  "(\<exists>m. find_exact_match record_type content priority recs = Some m)
     = (\<exists>r\<in>set recs. o_content r = Some content \<and> (record_type = ''MX'' \<longrightarrow> o_priority r = Some priority))"
  by (induction recs) auto

lemma mx_txt_satisfied:
  assumes "get_dns_records prov s zone_id name record_type = (Inr existing, s1)"
  shows "(\<exists>i. update_or_create_mx_txt prov s zone_id name content dry_run record_type priority
                = (Inr (AlreadyExact i), s1))
         = (\<exists>r\<in>set existing. o_content r = Some content
               \<and> (record_type = ''MX'' \<longrightarrow> o_priority r = Some priority))"
proof -
  have "(\<exists>i. update_or_create_mx_txt prov s zone_id name content dry_run record_type priority
                = (Inr (AlreadyExact i), s1))
        = (\<exists>m. find_exact_match record_type content priority existing = Some m)"
    using assms
    by (auto simp: update_or_create_mx_txt_def Let_def split: option.splits prod.splits sum.splits)
  then show ?thesis by (simp only: find_exact_match_Some)
qed

lemma mx_txt_absent:
  assumes "get_dns_records prov s zone_id name record_type = (Inr existing, s1)"
    and "\<not> (\<exists>r\<in>set existing. o_content r = Some content
               \<and> (record_type = ''MX'' \<longrightarrow> o_priority r = Some priority))"
  shows "update_or_create_mx_txt prov s zone_id name content True record_type priority
           = (Inr (DryRunCreate (mx_txt_payload record_type name content priority)), s1)"
    and "log (snd (update_or_create_mx_txt prov s zone_id name content False record_type priority))
           = log s1 @ [Post (records_path zone_id) (mx_txt_payload record_type name content priority)]"
proof -
  from assms(2) have none: "find_exact_match record_type content priority existing = None"
    using find_exact_match_Some [of record_type content priority existing] by (metis not_Some_eq)
  show "update_or_create_mx_txt prov s zone_id name content True record_type priority
           = (Inr (DryRunCreate (mx_txt_payload record_type name content priority)), s1)"
    using assms(1) none by (simp add: update_or_create_mx_txt_def)
  show "log (snd (update_or_create_mx_txt prov s zone_id name content False record_type priority))
           = log s1 @ [Post (records_path zone_id) (mx_txt_payload record_type name content priority)]"
    using assms(1) none
    by (auto simp: update_or_create_mx_txt_def api_post_def split: prod.splits sum.splits
             dest!: api_call_state)
qed

lemma mx_txt_log:
  assumes "get_dns_records prov s zone_id name record_type = (Inr existing, s1)"
  shows "log (snd (update_or_create_mx_txt prov s zone_id name content dry_run record_type priority)) = log s1
       \<or> log (snd (update_or_create_mx_txt prov s zone_id name content dry_run record_type priority))
           = log s1 @ [Post (records_path zone_id) (mx_txt_payload record_type name content priority)]"
  using assms
  by (auto simp: update_or_create_mx_txt_def api_post_def Let_def
           split: prod.splits sum.splits option.splits dest!: api_call_state)

section \<open>Apex exclusivity in the standard ensure\<close>

lemma matches_of_own_records:
  "matches_of z rd (filter (\<lambda>r. o_type r = Some (d_type rd) \<and> o_name r = Some (rec_name_of z rd)) all_records)
     = matches_of z rd all_records"
  by (simp add: matches_of_def cong: conj_cong)

lemma already_exists_own_records:
  "already_exists z rd (filter (\<lambda>r. o_type r = Some (d_type rd) \<and> o_name r = Some (rec_name_of z rd)) all_records)
     = already_exists z rd all_records"
  by (simp only: already_exists_def exact_match_of_def matches_of_own_records)

lemma upsert_cname_requests:
  "\<exists>rest. log (snd (upsert_cname prov s zone_id name target proxied ttl dry_run))
            = log s @ Get (records_path zone_id) [(''name'', S name), (''type'', S ''CNAME'')] # rest
          \<and> list_all is_mutation rest"
proof -
  obtain r s1 where look: "pages_get_dns_records prov s zone_id name (Some ''CNAME'') = (r, s1)"
    by (cases "pages_get_dns_records prov s zone_id name (Some ''CNAME'')")
  then have s1: "s1 = s\<lparr>log := log s @ [Get (records_path zone_id) [(''name'', S name), (''type'', S ''CNAME'')]]\<rparr>"
    by (auto simp: pages_get_dns_records_def falsy_def split: prod.splits sum.splits
             dest!: pages_api_get_state)
  show ?thesis
  proof (cases r)
    case (Inl e)
    with look s1 show ?thesis by (simp add: upsert_cname_def)
  next
    case (Inr existing)
    with look s1 show ?thesis
      by (auto simp: upsert_cname_def api_put_def api_post_def Let_def
               split: list.splits option.splits prod.splits sum.splits dest!: api_call_state)
  qed
qed

text \<open>
  C6, as stated, fails: with an apex CNAME among the records of the zone,
  \<^verbatim>\<open>ensure_record\<close> for an apex A record reports no conflict; in apply mode it issues the
  POST that creates the A record.
\<close>

theorem apex_a_created_beside_cname_counterexample:
  "ensure_record (accepting []) s0 ''z1'' ''example.org'' apex_a_def [apex_cname] False
     = (Inr True,
        \<lparr>log = [Post ''/zones/z1/dns_records''
                  \<lparr>p_type = ''A'', p_name = ''example.org'', p_content = ''185.199.108.153'', p_ttl = 1,
                    p_priority = None, p_proxied = Some False, p_comment = None\<rparr>],
         out = [Creating ''A'' ''@'' ''185.199.108.153'', DoneMark]\<rparr>)"
  by (simp add: ensure_record_def already_exists_def exact_match_of_def matches_of_def apex_a_def_def
        apex_cname_def rec_obj_def rec_name_of_def api_post_def api_call_def send_def accepting_def
        listing_def emit_def s0_def records_path_def ensure_payload_def get_proxied_def)

text \<open>
  C6, amended. The code has no conflict outcome. \<^verbatim>\<open>ensure_record\<close> decides from the
  records of the spec's own type and name alone: the records of every other type, an apex
  CNAME beside a desired apex A record included, change neither its result nor its
  requests. \<^verbatim>\<open>upsert_cname\<close> reads the CNAME records at the name and nothing else: its
  one GET asks for type CNAME, and every further request is a mutation.
\<close>

theorem ensure_record_has_no_conflict_check:
  "ensure_record prov s zone_id z rd all_records dry_run
     = ensure_record prov s zone_id z rd
         (filter (\<lambda>r. o_type r = Some (d_type rd) \<and> o_name r = Some (rec_name_of z rd)) all_records)
         dry_run
   \<and> (\<exists>rest. log (snd (upsert_cname prov s zone_id name target proxied ttl dry_run))
            = log s @ Get (records_path zone_id) [(''name'', S name), (''type'', S ''CNAME'')] # rest
          \<and> list_all is_mutation rest)"
  using upsert_cname_requests [of prov s zone_id name target proxied ttl dry_run]
  by (simp add: ensure_record_def already_exists_own_records)

theorem ensure_record_has_no_conflict_check_witness:
  "ensure_record (accepting []) s0 ''z1'' ''example.org'' apex_a_def [apex_cname] False
     = ensure_record (accepting []) s0 ''z1'' ''example.org'' apex_a_def [] False"
  using ensure_record_has_no_conflict_check
          [of "accepting []" s0 "''z1''" "''example.org''" apex_a_def "[apex_cname]" False, THEN conjunct1]
  by (simp add: apex_a_def_def apex_cname_def rec_obj_def)

section \<open>Apex teardown before create in update\_pages\_dns.py\<close>

lemma delete_records_log:
  "delete_records prov s zone_id ids = (r, s') \<Longrightarrow>
   \<exists>k. k \<le> length ids
     \<and> log s' = log s @ map (\<lambda>c. Delete (record_path zone_id c)) (take k ids)
     \<and> out s' = out s
     \<and> (case r of Inl e \<Rightarrow> True | Inr u \<Rightarrow> k = length ids)"
proof (induction ids arbitrary: s)
  case Nil
  then show ?case by auto
next
  case (Cons c cs)
  let ?t = "s\<lparr>log := log s @ [Delete (record_path zone_id c)]\<rparr>"
  show ?case
  proof (cases "prov (log s) (Delete (record_path zone_id c))")
    case NetworkError
    with Cons.prems have "r = Inl RequestException" "s' = ?t"
      by (auto simp: send_def)
    then show ?thesis by (intro exI [of _ 1]) simp
  next
    case (Reply resp)
    show ?thesis
    proof (cases "r_ok resp \<and> success resp")
      case False
      with Reply Cons.prems have "r = Inl CloudflareError" "s' = ?t"
        by (auto simp: send_def)
      then show ?thesis by (intro exI [of _ 1]) simp
    next
      case True
      with Reply Cons.prems have "delete_records prov ?t zone_id cs = (r, s')"
        by (auto simp: send_def)
      from Cons.IH [OF this] obtain k where k: "k \<le> length cs"
        "log s' = log ?t @ map (\<lambda>c. Delete (record_path zone_id c)) (take k cs)"
        "out s' = out ?t" "case r of Inl e \<Rightarrow> True | Inr u \<Rightarrow> k = length cs"
        by blast
      then show ?thesis
        by (intro exI [of _ "Suc k"]) (auto split: sum.splits)
    qed
  qed
qed

lemma delete_records_ext:
  "delete_records prov s zone_id ids = (r, s') \<Longrightarrow> \<exists>rest. log s' = log s @ rest \<and> out s' = out s"
  using delete_records_log by blast

lemma create_each_ext:
  "\<exists>rest lines. log (snd (create_each prov zone_id domain t previous dry_run ips s)) = log s @ rest
     \<and> out (snd (create_each prov zone_id domain t previous dry_run ips s)) = out s @ lines
     \<and> (dry_run \<longrightarrow> rest = [])"
proof (induction ips arbitrary: s)
  case Nil
  then show ?case by simp
next
  case (Cons ip ips)
  show ?case
  proof (cases dry_run)
    case True
    from Cons.IH [of "emit (WouldCreateRec t domain ip) s"] True show ?thesis
      by (auto simp: emit_def)
  next
    case False
    let ?comment = "if previous \<noteq> [] then Some (''Previous apex '' @ t @ '': '' @ previous) else None"
    let ?pl = "create_payload (if t = ''A'' then ''A'' else ''AAAA'') domain ip 300 False ?comment"
    obtain x s1 where call: "api_post prov s (records_path zone_id) ?pl = (x, s1)"
      by (cases "api_post prov s (records_path zone_id) ?pl")
    then have s1: "s1 = s\<lparr>log := log s @ [Post (records_path zone_id) ?pl]\<rparr>"
      by (auto simp: api_post_def dest!: api_call_state)
    show ?thesis
    proof (cases x)
      case (Inl e)
      with False call s1 show ?thesis
        by (auto simp: create_a_record_def create_aaaa_record_def)
    next
      case (Inr created)
      from Cons.IH [of "emit (CreatedRec (if t = ''A'' then ''A'' else ''AAAA'') (result_or_empty created)) s1"]
      obtain rest lines where
        "log (snd (create_each prov zone_id domain t previous dry_run ips
              (emit (CreatedRec (if t = ''A'' then ''A'' else ''AAAA'') (result_or_empty created)) s1)))
           = log s1 @ rest"
        "out (snd (create_each prov zone_id domain t previous dry_run ips
              (emit (CreatedRec (if t = ''A'' then ''A'' else ''AAAA'') (result_or_empty created)) s1)))
           = out s1 @ [CreatedRec (if t = ''A'' then ''A'' else ''AAAA'') (result_or_empty created)] @ lines"
        by (auto simp: emit_def)
      with False call s1 Inr show ?thesis
        by (auto simp: create_a_record_def create_aaaa_record_def Let_def)
    qed
  qed
qed

lemma create_requested_ext:
  "\<exists>rest lines.
     log (snd (create_requested prov s zone_id domain a aaaa dry_run pa paaaa)) = log s @ rest
     \<and> out (snd (create_requested prov s zone_id domain a aaaa dry_run pa paaaa)) = out s @ lines
     \<and> (dry_run \<longrightarrow> rest = [])"
proof -
  obtain x s6 where first: "(if a then create_each prov zone_id domain ''A'' pa dry_run github_ips s
                             else (Inr (), s)) = (x, s6)"
    by (cases "if a then create_each prov zone_id domain ''A'' pa dry_run github_ips s else (Inr (), s)")
  from create_each_ext [of prov zone_id domain "''A''" pa dry_run github_ips s] first
  obtain r1 l1 where s6: "log s6 = log s @ r1" "out s6 = out s @ l1" "dry_run \<longrightarrow> r1 = []"
    by (cases a) auto
  from create_each_ext [of prov zone_id domain "''AAAA''" paaaa dry_run github_ipv6 s6]
  obtain r2 l2 where
    "log (snd (create_each prov zone_id domain ''AAAA'' paaaa dry_run github_ipv6 s6)) = log s6 @ r2"
    "out (snd (create_each prov zone_id domain ''AAAA'' paaaa dry_run github_ipv6 s6)) = out s6 @ l2"
    "dry_run \<longrightarrow> r2 = []"
    by blast
  with first s6 show ?thesis
    by (cases x) (auto simp: create_requested_def)
qed

lemma remove_apex_a_aaaa_ext:
  "\<exists>rest lines.
     log (snd (remove_apex_a_aaaa prov s zone_id domain dry_run)) = log s @ rest
     \<and> out (snd (remove_apex_a_aaaa prov s zone_id domain dry_run)) = out s @ lines
     \<and> list_all (\<lambda>l. \<not> is_would_create l) lines
     \<and> (dry_run \<longrightarrow> list_all (\<lambda>rq. \<not> is_mutation rq) rest)"
proof -
  obtain x s3 where a: "pages_get_dns_records prov s zone_id domain (Some ''A'') = (x, s3)"
    by (cases "pages_get_dns_records prov s zone_id domain (Some ''A'')")
  then obtain p3 where s3: "s3 = s\<lparr>log := log s @ [Get (records_path zone_id) p3]\<rparr>"
    using pages_get_dns_records_state by blast
  obtain y s4 where b: "pages_get_dns_records prov s3 zone_id domain (Some ''AAAA'') = (y, s4)"
    by (cases "pages_get_dns_records prov s3 zone_id domain (Some ''AAAA'')")
  then obtain p4 where s4: "s4 = s3\<lparr>log := log s3 @ [Get (records_path zone_id) p4]\<rparr>"
    using pages_get_dns_records_state by blast
  show ?thesis
    using a b s3 s4
    by (auto simp: remove_apex_a_aaaa_def emit_def split: sum.splits prod.splits
             dest!: delete_records_ext)
qed

lemma remove_apex_cname_apply:
  assumes "pages_get_dns_records prov s zone_id domain (Some ''CNAME'') = (Inr existing_apex_cname, s1)"
    and "ids_of existing_apex_cname = Inr cname_ids"
    and "remove_apex_cname prov s zone_id domain False = (r, s2)"
  shows "\<exists>k. k \<le> length cname_ids
           \<and> log s2 = log s1 @ map (\<lambda>c. Delete (record_path zone_id c)) (take k cname_ids)
           \<and> (case r of Inl e \<Rightarrow> True | Inr u \<Rightarrow> k = length cname_ids)"
proof (cases "cname_ids = []")
  case True
  with assms show ?thesis by (auto simp: remove_apex_cname_def)
next
  case False
  obtain x t where d: "delete_records prov s1 zone_id cname_ids = (x, t)"
    by (cases "delete_records prov s1 zone_id cname_ids")
  from delete_records_log [OF d] obtain k where k: "k \<le> length cname_ids"
    "log t = log s1 @ map (\<lambda>c. Delete (record_path zone_id c)) (take k cname_ids)"
    "case x of Inl e \<Rightarrow> True | Inr u \<Rightarrow> k = length cname_ids"
    by blast
  from assms False d have "(r, s2) = (case x of Inl e \<Rightarrow> (Inl e, t)
                                      | Inr u \<Rightarrow> (Inr (), emit (DeletedApexCname cname_ids) t))"
    by (simp add: remove_apex_cname_def split: sum.splits)
  with k show ?thesis
    by (intro exI [of _ k]) (auto simp: emit_def split: sum.splits)
qed

lemma remove_apex_cname_dry:
  assumes "pages_get_dns_records prov s zone_id domain (Some ''CNAME'') = (Inr existing_apex_cname, s1)"
    and "ids_of existing_apex_cname = Inr cname_ids"
  shows "remove_apex_cname prov s zone_id domain True
           = (Inr (), if cname_ids \<noteq> [] then emit (WouldDeleteApexCname cname_ids) s1 else s1)"
  using assms by (simp add: remove_apex_cname_def)

lemma set_github_rest_ext:
  "\<exists>rest lines.
     log (snd (case remove_apex_a_aaaa prov s zone_id domain dry_run of
                 (Inl e, s5) \<Rightarrow> (Inl e, s5)
               | (Inr (pa, pb), s5) \<Rightarrow> create_requested prov s5 zone_id domain a aaaa dry_run pa pb))
       = log s @ rest
     \<and> out (snd (case remove_apex_a_aaaa prov s zone_id domain dry_run of
                 (Inl e, s5) \<Rightarrow> (Inl e, s5)
               | (Inr (pa, pb), s5) \<Rightarrow> create_requested prov s5 zone_id domain a aaaa dry_run pa pb))
       = out s @ lines
     \<and> (dry_run \<longrightarrow> list_all (\<lambda>rq. \<not> is_mutation rq) rest)"
proof -
  obtain x s5 where step: "remove_apex_a_aaaa prov s zone_id domain dry_run = (x, s5)"
    by (cases "remove_apex_a_aaaa prov s zone_id domain dry_run")
  with remove_apex_a_aaaa_ext [of prov s zone_id domain dry_run]
  obtain r1 l1 where s5: "log s5 = log s @ r1" "out s5 = out s @ l1"
    "dry_run \<longrightarrow> list_all (\<lambda>rq. \<not> is_mutation rq) r1"
    by auto
  show ?thesis
  proof (cases x)
    case (Inl e)
    with step s5 show ?thesis by auto
  next
    case (Inr p)
    obtain pa pb where p: "p = (pa, pb)" by (cases p)
    from create_requested_ext [of prov s5 zone_id domain a aaaa dry_run pa pb]
    obtain r2 l2 where
      "log (snd (create_requested prov s5 zone_id domain a aaaa dry_run pa pb)) = log s5 @ r2"
      "out (snd (create_requested prov s5 zone_id domain a aaaa dry_run pa pb)) = out s5 @ l2"
      "dry_run \<longrightarrow> r2 = []"
      by blast
    with step s5 Inr p show ?thesis by auto
  qed
qed

text \<open>
  C3, amended. In update\_pages\_dns.py, in the branch of \<^verbatim>\<open>main\<close> that sets the GitHub
  Pages A and AAAA records at the apex, let \<open>cname_ids\<close> be the ids of the apex CNAME
  records the provider lists. In apply mode the requests issued split into a first part
  without any create and a rest, and whenever the rest is not empty the first part holds the
  DELETE of every id of \<open>cname_ids\<close>: no create is issued before every listed apex CNAME
  is deleted. Under dry-run no mutation is issued, and the lines printed split in the same
  way: the line that lists the apex CNAME ids to delete stands before every would-create
  line.
\<close>

theorem apex_cname_deleted_before_create:
  assumes "pages_get_dns_records prov s zone_id domain (Some ''CNAME'') = (Inr existing_apex_cname, s1)"
    and "ids_of existing_apex_cname = Inr cname_ids"
  shows "(\<exists>pre post.
            log (snd (main_set_github prov s zone_id domain a aaaa False)) = log s @ pre @ post
            \<and> list_all (\<lambda>rq. \<not> is_create rq) pre
            \<and> (post = [] \<or> (\<forall>c\<in>set cname_ids. Delete (record_path zone_id c) \<in> set pre)))
         \<and> mutations (snd (main_set_github prov s zone_id domain a aaaa True)) = mutations s
         \<and> (\<exists>pre post.
            out (snd (main_set_github prov s zone_id domain a aaaa True)) = out s @ pre @ post
            \<and> list_all (\<lambda>l. \<not> is_would_create l) pre
            \<and> (cname_ids = [] \<or> WouldDeleteApexCname cname_ids \<in> set pre))"
proof -
  from assms(1) obtain ps where s1: "s1 = s\<lparr>log := log s @ [Get (records_path zone_id) ps]\<rparr>"
    using pages_get_dns_records_state by blast
  have apply_mode: "\<exists>pre post.
            log (snd (main_set_github prov s zone_id domain a aaaa False)) = log s @ pre @ post
            \<and> list_all (\<lambda>rq. \<not> is_create rq) pre
            \<and> (post = [] \<or> (\<forall>c\<in>set cname_ids. Delete (record_path zone_id c) \<in> set pre))"
  proof -
    obtain r s2 where rc: "remove_apex_cname prov s zone_id domain False = (r, s2)"
      by (cases "remove_apex_cname prov s zone_id domain False")
    from remove_apex_cname_apply [OF assms rc] obtain k where k: "k \<le> length cname_ids"
      "log s2 = log s1 @ map (\<lambda>c. Delete (record_path zone_id c)) (take k cname_ids)"
      "case r of Inl e \<Rightarrow> True | Inr u \<Rightarrow> k = length cname_ids"
      by blast
    let ?pre = "Get (records_path zone_id) ps # map (\<lambda>c. Delete (record_path zone_id c)) (take k cname_ids)"
    have pre: "list_all (\<lambda>rq. \<not> is_create rq) ?pre"
      by (simp add: list_all_iff)
    have s2: "log s2 = log s @ ?pre"
      using k(2) s1 by simp
    show ?thesis
    proof (cases r)
      case (Inl e)
      with rc have "main_set_github prov s zone_id domain a aaaa False = (Inl e, s2)"
        by (simp add: main_set_github_def)
      with s2 pre show ?thesis
        by (intro exI [of _ ?pre] exI [of _ "[]"]) simp
    next
      case (Inr u)
      with k(3) have all: "take k cname_ids = cname_ids" by simp
      from set_github_rest_ext [where prov = prov and s = s2 and zone_id = zone_id and domain = domain
          and dry_run = False and a = a and aaaa = aaaa] obtain rest where
        "log (snd (case remove_apex_a_aaaa prov s2 zone_id domain False of
                 (Inl e, s5) \<Rightarrow> (Inl e, s5)
               | (Inr (pa, pb), s5) \<Rightarrow> create_requested prov s5 zone_id domain a aaaa False pa pb))
           = log s2 @ rest"
        by blast
      with rc Inr have "log (snd (main_set_github prov s zone_id domain a aaaa False)) = log s2 @ rest"
        by (simp add: main_set_github_def)
      with s2 pre all show ?thesis
        by (intro exI [of _ ?pre] exI [of _ rest]) auto
    qed
  qed
  let ?s2 = "if cname_ids \<noteq> [] then emit (WouldDeleteApexCname cname_ids) s1 else s1"
  let ?pre = "if cname_ids \<noteq> [] then [WouldDeleteApexCname cname_ids] else []"
  have rc: "remove_apex_cname prov s zone_id domain True = (Inr (), ?s2)"
    by (rule remove_apex_cname_dry [OF assms])
  from set_github_rest_ext [where prov = prov and s = ?s2 and zone_id = zone_id and domain = domain
      and dry_run = True and a = a and aaaa = aaaa] obtain rest lines where
    "log (snd (case remove_apex_a_aaaa prov ?s2 zone_id domain True of
                 (Inl e, s5) \<Rightarrow> (Inl e, s5)
               | (Inr (pa, pb), s5) \<Rightarrow> create_requested prov s5 zone_id domain a aaaa True pa pb))
       = log ?s2 @ rest"
    "out (snd (case remove_apex_a_aaaa prov ?s2 zone_id domain True of
                 (Inl e, s5) \<Rightarrow> (Inl e, s5)
               | (Inr (pa, pb), s5) \<Rightarrow> create_requested prov s5 zone_id domain a aaaa True pa pb))
       = out ?s2 @ lines"
    "list_all (\<lambda>rq. \<not> is_mutation rq) rest"
    by auto
  with rc have dry: "log (snd (main_set_github prov s zone_id domain a aaaa True)) = log ?s2 @ rest"
    "out (snd (main_set_github prov s zone_id domain a aaaa True)) = out ?s2 @ lines"
    "list_all (\<lambda>rq. \<not> is_mutation rq) rest"
    by (simp_all add: main_set_github_def)
  have "filter is_mutation rest = []"
    using dry(3) by (simp add: list_all_iff filter_empty_conv)
  with dry(1) s1 have no_mutation: "mutations (snd (main_set_github prov s zone_id domain a aaaa True)) = mutations s"
    by (simp add: mutations_def emit_def)
  from dry(2) s1 have "out (snd (main_set_github prov s zone_id domain a aaaa True)) = out s @ ?pre @ lines"
    by (simp add: emit_def)
  then have dry_mode: "\<exists>pre post.
            out (snd (main_set_github prov s zone_id domain a aaaa True)) = out s @ pre @ post
            \<and> list_all (\<lambda>l. \<not> is_would_create l) pre
            \<and> (cname_ids = [] \<or> WouldDeleteApexCname cname_ids \<in> set pre)"
    by (intro exI [of _ ?pre] exI [of _ lines]) simp
  from apply_mode no_mutation dry_mode show ?thesis by (intro conjI)
qed

theorem apex_cname_deleted_before_create_witness:
  "pages_get_dns_records (filtering [apex_cname]) s0 ''z1'' ''example.org'' (Some ''CNAME'')
     = (Inr [apex_cname],
        s0\<lparr>log := [Get ''/zones/z1/dns_records'' [(''name'', S ''example.org''), (''type'', S ''CNAME'')]]\<rparr>)
   \<and> ids_of [apex_cname] = Inr [''c1'']
   \<and> mutations (snd (main_set_github (filtering [apex_cname]) s0 ''z1'' ''example.org'' True False True))
       = mutations s0
   \<and> log (snd (main_set_github (filtering [apex_cname]) s0 ''z1'' ''example.org'' True False False))
       = [Get ''/zones/z1/dns_records'' [(''name'', S ''example.org''), (''type'', S ''CNAME'')],
          Delete ''/zones/z1/dns_records/c1'',
          Get ''/zones/z1/dns_records'' [(''name'', S ''example.org''), (''type'', S ''A'')],
          Get ''/zones/z1/dns_records'' [(''name'', S ''example.org''), (''type'', S ''AAAA'')],
          Post ''/zones/z1/dns_records'' (create_payload ''A'' ''example.org'' ''185.199.108.153'' 300 False None),
          Post ''/zones/z1/dns_records'' (create_payload ''A'' ''example.org'' ''185.199.109.153'' 300 False None),
          Post ''/zones/z1/dns_records'' (create_payload ''A'' ''example.org'' ''185.199.110.153'' 300 False None),
          Post ''/zones/z1/dns_records'' (create_payload ''A'' ''example.org'' ''185.199.111.153'' 300 False None)]"
proof -
  have listed: "pages_get_dns_records (filtering [apex_cname]) s0 ''z1'' ''example.org'' (Some ''CNAME'')
     = (Inr [apex_cname],
        s0\<lparr>log := [Get ''/zones/z1/dns_records'' [(''name'', S ''example.org''), (''type'', S ''CNAME'')]]\<rparr>)"
    by (simp add: pages_get_dns_records_def pages_api_get_def send_def filtering_def listing_def
          wanted_def apex_cname_def rec_obj_def falsy_def s0_def records_path_def)
  have ids: "ids_of [apex_cname] = Inr [''c1'']"
    by (simp add: apex_cname_def rec_obj_def)
  note dry = apex_cname_deleted_before_create [OF listed ids, of True False, THEN conjunct2, THEN conjunct1]
  have run: "log (snd (main_set_github (filtering [apex_cname]) s0 ''z1'' ''example.org'' True False False))
       = [Get ''/zones/z1/dns_records'' [(''name'', S ''example.org''), (''type'', S ''CNAME'')],
          Delete ''/zones/z1/dns_records/c1'',
          Get ''/zones/z1/dns_records'' [(''name'', S ''example.org''), (''type'', S ''A'')],
          Get ''/zones/z1/dns_records'' [(''name'', S ''example.org''), (''type'', S ''AAAA'')],
          Post ''/zones/z1/dns_records'' (create_payload ''A'' ''example.org'' ''185.199.108.153'' 300 False None),
          Post ''/zones/z1/dns_records'' (create_payload ''A'' ''example.org'' ''185.199.109.153'' 300 False None),
          Post ''/zones/z1/dns_records'' (create_payload ''A'' ''example.org'' ''185.199.110.153'' 300 False None),
          Post ''/zones/z1/dns_records'' (create_payload ''A'' ''example.org'' ''185.199.111.153'' 300 False None)]"
    by (simp add: main_set_github_def remove_apex_cname_def remove_apex_a_aaaa_def create_requested_def
          create_a_record_def api_post_def api_call_def github_ips_def
          pages_get_dns_records_def pages_api_get_def send_def filtering_def listing_def
          wanted_def apex_cname_def rec_obj_def falsy_def s0_def records_path_def record_path_def
          emit_def)
  from listed ids dry run show ?thesis by (intro conjI)
qed

section \<open>Listing records: pagination\<close>

lemma pages_cover:
  assumes "0 < page_size" and "(n + page_size - 1) div page_size \<le> (p::nat)"
  shows "n \<le> p * page_size"
proof -
  from assms have "(n + page_size - 1) div page_size < Suc p" by simp
  with assms(1) have "n + page_size - 1 < Suc p * page_size"
    by (simp only: div_less_iff_less_mult)
  with assms(1) show ?thesis by simp
qed

lemma api_get_paged:
  "api_get (paged page_size rs) s (records_path zone_id) [(''per_page'', I 100), (''page'', I p)]
     = (Inr \<lparr> r_ok = True, status_code = 200, success = True,
               result = take page_size (drop ((p - 1) * page_size) rs), result_obj = None,
               total_pages = Some ((length rs + page_size - 1) div page_size) \<rparr>,
        s\<lparr>log := log s @ [page_request zone_id p]\<rparr>)"
  by (simp add: api_get_def api_call_def send_def paged_def page_param_def page_request_def)

lemma get_all_records_loop_paged:
  assumes "0 < page_size" and "1 \<le> p"
  shows "get_all_records_loop (paged page_size rs) zone_id p (take ((p - 1) * page_size) rs) s
           = Some (Inr rs,
                   s\<lparr>log := log s @ map (page_request zone_id)
                                       [p ..< Suc (max p ((length rs + page_size - 1) div page_size))]\<rparr>)"
  using assms(2)
proof (induction "(length rs + page_size - 1) div page_size - p" arbitrary: p s)
  case 0
  let ?total = "(length rs + page_size - 1) div page_size"
  from 0 have last: "?total \<le> p" by simp
  with assms(1) have "length rs \<le> p * page_size" by (rule pages_cover)
  moreover have "p * page_size = (p - 1) * page_size + page_size"
    using 0(2) by (cases p) simp_all
  ultimately have all: "take ((p - 1) * page_size) rs @ take page_size (drop ((p - 1) * page_size) rs) = rs"
    by (simp add: take_add [symmetric])
  from last have "max p ?total = p" by simp
  with last all show ?case
    by (subst get_all_records_loop.simps) (simp add: api_get_paged)
next
  case (Suc n)
  let ?total = "(length rs + page_size - 1) div page_size"
  from Suc(2) have more: "\<not> ?total \<le> p" and n: "n = ?total - Suc p" by simp_all
  have "Suc p * page_size - page_size = p * page_size" by simp
  have acc: "take ((p - 1) * page_size) rs @ take page_size (drop ((p - 1) * page_size) rs)
               = take ((Suc p - 1) * page_size) rs"
    using Suc(3) by (cases p) (simp_all add: take_add [symmetric] add.commute)
  have "get_all_records_loop (paged page_size rs) zone_id (Suc p) (take ((Suc p - 1) * page_size) rs)
          (s\<lparr>log := log s @ [page_request zone_id p]\<rparr>)
        = Some (Inr rs,
                s\<lparr>log := log s @ [page_request zone_id p]\<rparr>
                 \<lparr>log := log (s\<lparr>log := log s @ [page_request zone_id p]\<rparr>)
                          @ map (page_request zone_id) [Suc p ..< Suc (max (Suc p) ?total)]\<rparr>)"
    by (rule Suc(1) [OF n]) simp
  moreover from more have "[p ..< Suc (max p ?total)] = p # [Suc p ..< Suc (max (Suc p) ?total)]"
    by (simp add: upt_conv_Cons max_def)
  ultimately show ?case
    using more acc by (subst get_all_records_loop.simps) (simp add: api_get_paged)
qed

lemma get_all_records_paged:
  assumes "0 < page_size"
  shows "get_all_records (paged page_size rs) s zone_id
           = Some (Inr rs,
                   s\<lparr>log := log s @ map (page_request zone_id)
                                       [1 ..< Suc (max 1 ((length rs + page_size - 1) div page_size))]\<rparr>)"
  using get_all_records_loop_paged [OF assms, of 1 rs zone_id s]
  by (simp add: get_all_records_def)

lemma get_dns_records_paged:
  "get_dns_records (paged page_size rs) s zone_id name record_type
     = (Inr (take page_size rs),
        s\<lparr>log := log s @ [Get (records_path zone_id) [(''type'', S record_type), (''name'', S name)]]\<rparr>)"
  by (simp add: get_dns_records_def api_get_def api_call_def send_def paged_def page_param_def)

text \<open>
  C2, as stated, fails for the filtered lookup of update\_dns.py: for a provider that holds
  three matching TXT records and answers in pages of two, \<^verbatim>\<open>get_dns_records\<close> issues one
  request and returns the first two records only.
\<close>

theorem filtered_lookup_truncated_counterexample:
  "get_dns_records (paged 2 [txt1, txt2, txt3]) s0 ''z1'' ''example.org'' ''TXT''
     = (Inr [txt1, txt2],
        \<lparr>log = [Get ''/zones/z1/dns_records'' [(''type'', S ''TXT''), (''name'', S ''example.org'')]],
         out = []\<rparr>)"
  by (simp add: get_dns_records_paged s0_def records_path_def)

text \<open>
  C2, amended. For a provider that holds the records \<open>rs\<close> and answers a listing in pages of
  \<open>page_size\<close> records, reporting the number of pages rounded up: \<^verbatim>\<open>get_all_records\<close> of
  enforce\_standard.py returns, for every number of records, and it returns exactly \<open>rs\<close>
  in the provider's order, after requesting the pages 1 to the number of pages (page 1
  alone when there is no record). \<^verbatim>\<open>get_dns_records\<close> of update\_dns.py, the lookup by type
  and name, issues a single request without a page number and returns what that response
  holds: the first \<open>page_size\<close> records.
\<close>

theorem listing_pagination:
  assumes "0 < page_size"
  shows "get_all_records (paged page_size rs) s zone_id
           = Some (Inr rs,
                   s\<lparr>log := log s @ map (page_request zone_id)
                                       [1 ..< Suc (max 1 ((length rs + page_size - 1) div page_size))]\<rparr>)
         \<and> get_dns_records (paged page_size rs) s zone_id name record_type
           = (Inr (take page_size rs),
              s\<lparr>log := log s @ [Get (records_path zone_id) [(''type'', S record_type), (''name'', S name)]]\<rparr>)"
  using get_all_records_paged [OF assms] get_dns_records_paged by simp

theorem listing_pagination_witness:
  "(0::nat) < 2
   \<and> get_all_records (paged 2 [txt1, txt2, txt3]) s0 ''z1''
       = Some (Inr [txt1, txt2, txt3], \<lparr>log = [page_request ''z1'' 1, page_request ''z1'' 2], out = []\<rparr>)"
proof -
  have pos: "(0::nat) < 2" by simp
  have pages: "[1 ..< Suc (max 1 ((length [txt1, txt2, txt3] + 2 - 1) div 2))] = [1, 2]"
    by (simp add: upt_conv_Cons)
  from listing_pagination [OF pos, of "[txt1, txt2, txt3]" s0 "''z1''", THEN conjunct1] pages pos
  show ?thesis by (simp add: s0_def numeral_2_eq_2)
qed

section \<open>Running the standard configuration twice\<close>

lemma posted_payloads_posts:
  "posted_payloads (map (\<lambda>d. Post path (f d)) ds) = map f ds"
  by (induction ds) simp_all

lemma ensure_all_apply:
  "ensure_all prov zone_id z all_records False stds n s = (Inr m, s') \<Longrightarrow>
   m = n + length (filter (\<lambda>d. \<not> already_exists z d all_records) stds)
   \<and> log s' = log s @ map (\<lambda>d. Post (records_path zone_id) (ensure_payload z d))
                        (filter (\<lambda>d. \<not> already_exists z d all_records) stds)"
proof (induction stds arbitrary: n s)
  case Nil
  then show ?case by simp
next
  case (Cons d ds)
  obtain x t where step: "ensure_record prov s zone_id z d all_records False = (x, t)"
    by (cases "ensure_record prov s zone_id z d all_records False")
  with Cons.prems obtain b where x: "x = Inr b"
    by (cases x) auto
  with Cons.prems step have rest:
    "ensure_all prov zone_id z all_records False ds (if b then n + 1 else n) t = (Inr m, s')"
    by simp
  show ?case
  proof (cases "already_exists z d all_records")
    case True
    with step x have "b = False" "log t = log s"
      using ensure_record_satisfied [of prov s zone_id z d all_records False]
        ensure_record_no_request [of z d all_records False prov s zone_id]
      by auto
    with Cons.IH [OF rest] True show ?thesis by simp
  next
    case False
    with step x have "b = True" "log t = log s @ [Post (records_path zone_id) (ensure_payload z d)]"
      using ensure_record_satisfied [of prov s zone_id z d all_records False]
        ensure_record_apply_log [of z d all_records prov s zone_id]
      by auto
    with Cons.IH [OF rest] False show ?thesis by simp
  qed
qed

lemma ensure_all_satisfied:
  "list_all (\<lambda>d. already_exists z d all_records) stds \<Longrightarrow>
   ensure_all prov zone_id z all_records dry_run stds n s
     = (Inr n, s\<lparr>out := out s @ map (\<lambda>d. OkExists (d_type d) (d_name d)) stds\<rparr>)"
proof (induction stds arbitrary: s)
  case Nil
  then show ?case by simp
next
  case (Cons d ds)
  then show ?case by (simp add: ensure_record_def emit_def)
qed

lemma stored_in_zip:
  assumes "length ids = length pls" and "pl \<in> set pls"
  shows "\<exists>i. stored i pl \<in> set (map (\<lambda>(i, pl). stored i pl) (zip ids pls))"
proof -
  from assms obtain k where k: "k < length pls" "pls ! k = pl"
    by (auto simp: in_set_conv_nth)
  with assms(1) have "(ids ! k, pl) \<in> set (zip ids pls)"
    by (auto simp: set_zip)
  then show ?thesis by force
qed

lemma multi_satisfied_after:
  assumes "d \<in> set stds" and "d_type d \<in> set [''MX'', ''TXT'', ''A'']"
    and "length ids = length (filter (\<lambda>d. \<not> already_exists z d all1) stds)"
  shows "already_exists z d
           (all1 @ map (\<lambda>(i, pl). stored i pl)
                     (zip ids (map (ensure_payload z) (filter (\<lambda>d. \<not> already_exists z d all1) stds))))"
    (is "already_exists z d (all1 @ ?created)")
proof (cases "already_exists z d all1")
  case True
  from already_exists_match [OF True] obtain r where "r \<in> set all1" "o_type r = Some (d_type d)"
    "o_name r = Some (rec_name_of z d)" "o_content r = Some (d_content d)"
    "d_type d = ''MX'' \<longrightarrow> o_priority r = Some (get_priority d)"
    by blast
  then show ?thesis
    using assms(2) by (intro already_exists_multi [of d r]) auto
next
  case False
  with assms(1) have mem: "ensure_payload z d \<in> set (map (ensure_payload z) (filter (\<lambda>d. \<not> already_exists z d all1) stds))"
    by simp
  have len: "length ids = length (map (ensure_payload z) (filter (\<lambda>d. \<not> already_exists z d all1) stds))"
    using assms(3) by simp
  from stored_in_zip [OF len mem] obtain i where "stored i (ensure_payload z d) \<in> set ?created"
    by blast
  then show ?thesis
    using assms(2)
    by (intro already_exists_multi [of d "stored i (ensure_payload z d)"])
       (auto simp: stored_def ensure_payload_def)
qed

lemma matches_of_stored:
  "matches_of z d (stored i (ensure_payload z e) # rs)
     = (if d_type e = d_type d \<and> rec_name_of z e = rec_name_of z d
        then stored i (ensure_payload z e) # matches_of z d rs
        else matches_of z d rs)"
  by (simp add: matches_of_def stored_def ensure_payload_def)

lemma stored_content: "o_content (stored i (ensure_payload z e)) = Some (d_content e)"
  by (simp add: stored_def ensure_payload_def)

lemma first_match_created:
  assumes "length ids = length ds" and "d \<in> set ds"
    and "\<forall>e\<in>set ds. d_type e = d_type d \<and> rec_name_of z e = rec_name_of z d \<longrightarrow> d_content e = d_content d"
  shows "\<exists>m ms. matches_of z d (map (\<lambda>(i, pl). stored i pl) (zip ids (map (ensure_payload z) ds))) = m # ms
            \<and> o_content m = Some (d_content d)"
  using assms
proof (induction ds arbitrary: ids)
  case Nil
  then show ?case by simp
next
  case (Cons e es)
  from Cons.prems(1) obtain i rest_ids where ids: "ids = i # rest_ids" "length rest_ids = length es"
    by (cases ids) simp_all
  let ?rest = "map (\<lambda>(i, pl). stored i pl) (zip rest_ids (map (ensure_payload z) es))"
  have unfold: "map (\<lambda>(i, pl). stored i pl) (zip ids (map (ensure_payload z) (e # es)))
                  = stored i (ensure_payload z e) # ?rest"
    using ids by simp
  show ?case
  proof (cases "d_type e = d_type d \<and> rec_name_of z e = rec_name_of z d")
    case True
    with Cons.prems(3) have "d_content e = d_content d" by simp
    with True show ?thesis
      unfolding unfold by (simp add: matches_of_stored stored_content)
  next
    case False
    with Cons.prems(2) have mem: "d \<in> set es" by auto
    from Cons.prems(3) have
      "\<forall>e\<in>set es. d_type e = d_type d \<and> rec_name_of z e = rec_name_of z d \<longrightarrow> d_content e = d_content d"
      by simp
    from Cons.IH [OF ids(2) mem this] False show ?thesis
      unfolding unfold by (auto simp: matches_of_stored)
  qed
qed

lemma www_satisfied_after:
  assumes "matches_of z (www_def z) all1 = [] \<or> already_exists z (www_def z) all1"
    and "length ids = length (filter (\<lambda>d. \<not> already_exists z d all1) (standards z))"
  shows "already_exists z (www_def z)
           (all1 @ map (\<lambda>(i, pl). stored i pl)
                     (zip ids (map (ensure_payload z) (filter (\<lambda>d. \<not> already_exists z d all1) (standards z)))))"
    (is "already_exists z ?w (all1 @ ?created)")
proof -
  have single: "d_type ?w \<notin> set [''MX'', ''TXT'', ''A'']"
    by (simp add: www_def_def)
  have split: "matches_of z ?w (all1 @ ?created) = matches_of z ?w all1 @ matches_of z ?w ?created"
    by (simp add: matches_of_def)
  show ?thesis
  proof (cases "already_exists z ?w all1")
    case True
    with single obtain m ms where "matches_of z ?w all1 = m # ms" "o_content m = Some (d_content ?w)"
      by (auto simp: already_exists_def split: list.splits)
    with single split show ?thesis
      by (simp add: already_exists_def)
  next
    case False
    with assms(1) have none: "matches_of z ?w all1 = []" by simp
    let ?needed = "filter (\<lambda>d. \<not> already_exists z d all1) (standards z)"
    have "?w \<in> set (standards z)"
      by (simp add: standards_def www_def_def)
    with False have mem: "?w \<in> set ?needed" by simp
    have only: "\<forall>e\<in>set ?needed. d_type e = d_type ?w \<and> rec_name_of z e = rec_name_of z ?w
                  \<longrightarrow> d_content e = d_content ?w"
      by (auto simp: standards_def www_def_def)
    from first_match_created [OF assms(2) mem only] obtain m ms where
      "matches_of z ?w ?created = m # ms" "o_content m = Some (d_content ?w)"
      by blast
    with single split none show ?thesis
      by (simp add: already_exists_def)
  qed
qed

lemma standards_kinds:
  "d \<in> set (standards z) \<Longrightarrow> d_type d \<in> set [''MX'', ''TXT'', ''A''] \<or> d = www_def z"
  by (auto simp: standards_def www_def_def)

lemma all_satisfied_after:
  assumes "matches_of z (www_def z) all1 = [] \<or> already_exists z (www_def z) all1"
    and "length ids = length (filter (\<lambda>d. \<not> already_exists z d all1) (standards z))"
  shows "list_all (\<lambda>d. already_exists z d
           (all1 @ map (\<lambda>(i, pl). stored i pl)
                     (zip ids (map (ensure_payload z) (filter (\<lambda>d. \<not> already_exists z d all1) (standards z))))))
           (standards z)"
  unfolding list_all_iff
proof
  fix d assume d: "d \<in> set (standards z)"
  from standards_kinds [OF d] show "already_exists z d
           (all1 @ map (\<lambda>(i, pl). stored i pl)
                     (zip ids (map (ensure_payload z) (filter (\<lambda>d. \<not> already_exists z d all1) (standards z)))))"
  proof
    assume "d_type d \<in> set [''MX'', ''TXT'', ''A'']"
    from d this assms(2) show ?thesis by (rule multi_satisfied_after)
  next
    assume "d = www_def z"
    with www_satisfied_after [OF assms] show ?thesis by simp
  qed
qed

lemma ensure_all_completes:
  assumes "\<And>hist path pl. \<exists>r. prov hist (Post path pl) = Reply r \<and> r_ok r \<and> success r"
  shows "\<exists>m t. ensure_all prov zone_id z all_records dry_run stds n s = (Inr m, t)"
proof (induction stds arbitrary: n s)
  case Nil
  then show ?case by simp
next
  case (Cons d ds)
  from assms obtain r where
    "prov (log (emit (Creating (d_type d) (d_name d) (d_content d)) s))
          (Post (records_path zone_id) (ensure_payload z d)) = Reply r" "r_ok r" "success r"
    by blast
  then have "\<exists>b t. ensure_record prov s zone_id z d all_records dry_run = (Inr b, t)"
    by (auto simp: ensure_record_def api_post_def api_call_def send_def)
  then obtain b t where "ensure_record prov s zone_id z d all_records dry_run = (Inr b, t)"
    by blast
  with Cons.IH [of "if b then n + 1 else n" t] show ?case by simp
qed

lemma accepting_posts: "\<exists>r. accepting rs hist (Post path pl) = Reply r \<and> r_ok r \<and> success r"
  by (simp add: accepting_def listing_def)

lemma hosting_posts: "\<exists>r. hosting zid rs hist (Post path pl) = Reply r \<and> r_ok r \<and> success r"
  by (simp add: hosting_def listing_def)

lemma zone_after_run:
  assumes "ensure_all prov zone_id z all1 False (standards z) 0 s = (Inr n, s1)"
  shows "n = length (filter (\<lambda>d. \<not> already_exists z d all1) (standards z))"
    and "zone_after all1 ids (log s) (log s1)
           = all1 @ map (\<lambda>(i, pl). stored i pl)
                      (zip ids (map (ensure_payload z) (filter (\<lambda>d. \<not> already_exists z d all1) (standards z))))"
proof -
  from ensure_all_apply [OF assms] have n: "n = length (filter (\<lambda>d. \<not> already_exists z d all1) (standards z))"
    and l: "log s1 = log s @ map (\<lambda>d. Post (records_path zone_id) (ensure_payload z d))
                              (filter (\<lambda>d. \<not> already_exists z d all1) (standards z))"
    by simp_all
  show "n = length (filter (\<lambda>d. \<not> already_exists z d all1) (standards z))" by (rule n)
  show "zone_after all1 ids (log s) (log s1)
           = all1 @ map (\<lambda>(i, pl). stored i pl)
                      (zip ids (map (ensure_payload z) (filter (\<lambda>d. \<not> already_exists z d all1) (standards z))))"
    unfolding zone_after_def l by (simp add: posted_payloads_posts)
qed

text \<open>
  C5, as stated, fails: in a zone whose CNAME at www points elsewhere, with a provider
  that accepts every request, the first run in apply mode completes with eight creates and
  the second run, on the records of the zone after the first, is not a run without change:
  the stale CNAME is still the first one listed at www.
\<close>

theorem second_run_not_idempotent_counterexample:
  "fst (ensure_all (accepting []) ''z1'' ''example.org'' [stale_www] False (standards ''example.org'') 0 s0)
     = Inr 8
   \<and> fst (ensure_all (accepting []) ''z1'' ''example.org''
            (zone_after [stale_www] new_ids [] first_run_log) False (standards ''example.org'') 0 s0)
     \<noteq> Inr 0"
proof -
  let ?z = "''example.org''"
  obtain n s1 where run1: "ensure_all (accepting []) ''z1'' ?z [stale_www] False (standards ?z) 0 s0 = (Inr n, s1)"
    using ensure_all_completes [where prov = "accepting []", OF accepting_posts] by blast
  have needed: "filter (\<lambda>d. \<not> already_exists ?z d [stale_www]) (standards ?z) = standards ?z"
    by (simp add: standards_def already_exists_def exact_match_of_def matches_of_def stale_www_def
          rec_obj_def rec_name_of_def)
  have "length (standards ?z) = 8" by (simp add: standards_def)
  with zone_after_run(1) [OF run1] needed have n: "n = 8" by simp
  have s1: "first_run_log = log s1"
    using run1 by (simp add: first_run_log_def)
  have "log s0 = []" by (simp add: s0_def)
  with zone_after_run(2) [OF run1, of new_ids] s1
  have "\<exists>rest. zone_after [stale_www] new_ids [] first_run_log = stale_www # rest"
    by simp
  then obtain rest where after: "zone_after [stale_www] new_ids [] first_run_log = stale_www # rest"
    by blast
  have stale: "\<not> already_exists ?z (www_def ?z) (stale_www # rest)"
    by (simp add: already_exists_def matches_of_def www_def_def stale_www_def rec_obj_def rec_name_of_def)
  have www: "www_def ?z \<in> set (standards ?z)"
    by (simp add: standards_def www_def_def)
  have "fst (ensure_all (accepting []) ''z1'' ?z (stale_www # rest) False (standards ?z) 0 s0) \<noteq> Inr 0"
  proof
    assume zero: "fst (ensure_all (accepting []) ''z1'' ?z (stale_www # rest) False (standards ?z) 0 s0) = Inr 0"
    obtain t where "ensure_all (accepting []) ''z1'' ?z (stale_www # rest) False (standards ?z) 0 s0 = (Inr 0, t)"
      using zero by (cases "ensure_all (accepting []) ''z1'' ?z (stale_www # rest) False (standards ?z) 0 s0") simp
    from ensure_all_apply [OF this]
    have "filter (\<lambda>d. \<not> already_exists ?z d (stale_www # rest)) (standards ?z) = []" by simp
    with www have "already_exists ?z (www_def ?z) (stale_www # rest)"
      by (simp add: filter_empty_conv)
    with stale show False by simp
  qed
  with run1 n after show ?thesis by simp
qed

text \<open>
  C5, amended. Let a first run of the standard configuration in apply mode complete with
  \<open>n\<close> changes, let the provider list for the second run the records it listed for the
  first, followed by one record for each payload the first run posted (same type, name,
  content, priority, under new ids), and let the first CNAME listed at www before the first
  run, if there was one, already have the zone as content. Then the second run in apply
  mode finds every record of the standard set in place: it issues no request after its
  listing, prints one OK line for each record of the standard set, and reports zero changes.
\<close>

theorem standard_run_twice_idempotent:
  assumes "ensure_all prov zone_id z all1 False (standards z) 0 s = (Inr n, s1)"
    and "length ids = n"
    and "matches_of z (www_def z) all1 = [] \<or> already_exists z (www_def z) all1"
    and "get_zone_id prov2 s2 z = (Inr zone_id2, s3)"
    and "get_all_records prov2 s3 zone_id2 = Some (Inr (zone_after all1 ids (log s) (log s1)), s4)"
  shows "enforce_standard prov2 s2 z False
           = Some (Inr 0, s4\<lparr>out := out s4 @ map (\<lambda>d. OkExists (d_type d) (d_name d)) (standards z)
                                          @ [AllInPlace]\<rparr>)"
proof -
  let ?all2 = "zone_after all1 ids (log s) (log s1)"
  from zone_after_run(1) [OF assms(1)] zone_after_run(2) [OF assms(1), of ids] assms(2)
  have len: "length ids = length (filter (\<lambda>d. \<not> already_exists z d all1) (standards z))"
    and all2: "?all2 = all1 @ map (\<lambda>(i, pl). stored i pl)
                      (zip ids (map (ensure_payload z) (filter (\<lambda>d. \<not> already_exists z d all1) (standards z))))"
    by simp_all
  from all_satisfied_after [OF assms(3) len] all2
  have "list_all (\<lambda>d. already_exists z d ?all2) (standards z)" by simp
  from ensure_all_satisfied [OF this]
  have "ensure_all prov2 zone_id2 z ?all2 False (standards z) 0 s4
          = (Inr 0, s4\<lparr>out := out s4 @ map (\<lambda>d. OkExists (d_type d) (d_name d)) (standards z)\<rparr>)" .
  with assms(4,5) show ?thesis
    by (simp add: enforce_standard_def summary_line_def emit_def)
qed

lemma hosting_get_zone_id:
  "get_zone_id (hosting zid rs) s z = (Inr zid, s\<lparr>log := log s @ [Get ''/zones'' [(''name'', S z)]]\<rparr>)"
  by (simp add: get_zone_id_def api_get_def api_call_def send_def hosting_def listing_def no_obj_def)

lemma hosting_get_all_records:
  "get_all_records (hosting zid rs) s zone_id = Some (Inr rs, s\<lparr>log := log s @ [page_request zone_id 1]\<rparr>)"
  unfolding get_all_records_def
  by (subst get_all_records_loop.simps)
     (simp add: api_get_def api_call_def send_def hosting_def listing_def records_path_def page_request_def)

theorem standard_run_twice_idempotent_witness:
  "fst (ensure_all (hosting ''z1'' []) ''z1'' ''example.org'' [] False (standards ''example.org'') 0 s0) = Inr 8
   \<and> length new_ids = 8
   \<and> enforce_standard (hosting ''z1'' (zone_after [] new_ids [] fresh_run_log)) s0 ''example.org'' False
       = Some (Inr 0,
               \<lparr>log = [Get ''/zones'' [(''name'', S ''example.org'')], page_request ''z1'' 1],
                out = map (\<lambda>d. OkExists (d_type d) (d_name d)) (standards ''example.org'') @ [AllInPlace]\<rparr>)"
proof -
  let ?z = "''example.org''"
  obtain n s1 where run1: "ensure_all (hosting ''z1'' []) ''z1'' ?z [] False (standards ?z) 0 s0 = (Inr n, s1)"
    using ensure_all_completes [where prov = "hosting ''z1'' []", OF hosting_posts] by blast
  have "filter (\<lambda>d. \<not> already_exists ?z d []) (standards ?z) = standards ?z"
    by (simp add: already_exists_def exact_match_of_def matches_of_def)
  moreover have "length (standards ?z) = 8" by (simp add: standards_def)
  ultimately have n: "n = 8"
    using zone_after_run(1) [OF run1] by simp
  have ids: "length new_ids = n"
    using n by (simp add: new_ids_def)
  have www: "matches_of ?z (www_def ?z) [] = [] \<or> already_exists ?z (www_def ?z) []"
    by (simp add: matches_of_def)
  have logs: "fresh_run_log = log s1" "log s0 = []"
    using run1 by (simp_all add: fresh_run_log_def s0_def)
  let ?all2 = "zone_after [] new_ids (log s0) (log s1)"
  from standard_run_twice_idempotent
         [OF run1 ids www hosting_get_zone_id [of "''z1''" ?all2 s0 ?z]
             hosting_get_all_records [of "''z1''" ?all2 _ "''z1''"]]
  have "enforce_standard (hosting ''z1'' ?all2) s0 ?z False
       = Some (Inr 0,
               s0\<lparr>log := log s0 @ [Get ''/zones'' [(''name'', S ''example.org'')]]\<rparr>
                 \<lparr>log := log (s0\<lparr>log := log s0 @ [Get ''/zones'' [(''name'', S ''example.org'')]]\<rparr>)
                          @ [page_request ''z1'' 1]\<rparr>
                 \<lparr>out := out (s0\<lparr>log := log s0 @ [Get ''/zones'' [(''name'', S ''example.org'')]]\<rparr>
                                \<lparr>log := log (s0\<lparr>log := log s0 @ [Get ''/zones'' [(''name'', S ''example.org'')]]\<rparr>)
                                         @ [page_request ''z1'' 1]\<rparr>)
                          @ map (\<lambda>d. OkExists (d_type d) (d_name d)) (standards ?z) @ [AllInPlace]\<rparr>)" .
  then have "enforce_standard (hosting ''z1'' (zone_after [] new_ids [] fresh_run_log)) s0 ?z False
       = Some (Inr 0,
               \<lparr>log = [Get ''/zones'' [(''name'', S ''example.org'')], page_request ''z1'' 1],
                out = map (\<lambda>d. OkExists (d_type d) (d_name d)) (standards ?z) @ [AllInPlace]\<rparr>)"
    unfolding logs by (simp add: s0_def)
  with run1 n ids show ?thesis by simp
qed

section \<open>Dry-run and apply\<close>

lemma process_existing_dry:
  "\<exists>ds. process_existing prov zone_id pt new_ip True proxied recs acc s = (Inr (acc @ ds), s)
     \<and> concat (map (detail_request zone_id) ds) = pending zone_id pt new_ip proxied recs"
proof (induction recs arbitrary: acc)
  case Nil
  then show ?case by simp
next
  case (Cons rec recs)
  show ?case
  proof (cases "o_content rec = Some new_ip \<and> o_proxied rec = Some proxied")
    case True
    from Cons.IH [of "acc @ [Unchanged (o_id rec) (o_content rec) (o_proxied rec)]"] obtain ds where
      "process_existing prov zone_id pt new_ip True proxied recs
         (acc @ [Unchanged (o_id rec) (o_content rec) (o_proxied rec)]) s
        = (Inr ((acc @ [Unchanged (o_id rec) (o_content rec) (o_proxied rec)]) @ ds), s)"
      "concat (map (detail_request zone_id) ds) = pending zone_id pt new_ip proxied recs"
      by blast
    with True show ?thesis
      by (intro exI [of _ "Unchanged (o_id rec) (o_content rec) (o_proxied rec) # ds"]) simp
  next
    case False
    from Cons.IH [of "acc @ [DryRunDetail (o_id rec) pt (o_content rec) (o_proxied rec)]"] obtain ds where
      "process_existing prov zone_id pt new_ip True proxied recs
         (acc @ [DryRunDetail (o_id rec) pt (o_content rec) (o_proxied rec)]) s
        = (Inr ((acc @ [DryRunDetail (o_id rec) pt (o_content rec) (o_proxied rec)]) @ ds), s)"
      "concat (map (detail_request zone_id) ds) = pending zone_id pt new_ip proxied recs"
      by blast
    with False show ?thesis
      by (intro exI [of _ "DryRunDetail (o_id rec) pt (o_content rec) (o_proxied rec) # ds"]) auto
  qed
qed

lemma process_existing_apply:
  "\<exists>k. log (snd (process_existing prov zone_id pt new_ip False proxied recs acc s))
         = log s @ take k (pending zone_id pt new_ip proxied recs)
     \<and> (case fst (process_existing prov zone_id pt new_ip False proxied recs acc s) of
           Inr ds \<Rightarrow> length (pending zone_id pt new_ip proxied recs) \<le> k
         | Inl e \<Rightarrow> 0 < k \<and> k \<le> length (pending zone_id pt new_ip proxied recs))"
  (is "\<exists>k. ?P recs acc s k")
proof (induction recs arbitrary: acc s)
  case Nil
  then show ?case by simp
next
  case (Cons rec recs)
  show ?case
  proof (cases "o_content rec = Some new_ip \<and> o_proxied rec = Some proxied")
    case True
    from Cons.IH [of "acc @ [Unchanged (o_id rec) (o_content rec) (o_proxied rec)]" s]
    obtain k where "?P recs (acc @ [Unchanged (o_id rec) (o_content rec) (o_proxied rec)]) s k"
      by blast
    with True show ?thesis by (intro exI [of _ k]) (auto split: sum.splits)
  next
    case False
    obtain x t where call: "api_patch prov s (record_path zone_id (fmt (o_id rec))) pt = (x, t)"
      by (cases "api_patch prov s (record_path zone_id (fmt (o_id rec))) pt")
    then have t: "log t = log s @ [Patch (record_path zone_id (fmt (o_id rec))) pt]"
      by (auto simp: api_patch_def dest!: api_call_state)
    show ?thesis
    proof (cases x)
      case (Inl e)
      with False call t show ?thesis by (intro exI [of _ 1]) auto
    next
      case (Inr updated)
      from Cons.IH [of "acc @ [Updated (o_id rec) (o_content (result_or_empty updated)) (o_content rec)
                                   (o_proxied (result_or_empty updated)) (o_proxied rec)]" t]
      obtain k where "?P recs (acc @ [Updated (o_id rec) (o_content (result_or_empty updated)) (o_content rec)
                                   (o_proxied (result_or_empty updated)) (o_proxied rec)]) t k"
        by blast
      with False call t Inr show ?thesis
        by (intro exI [of _ "Suc k"]) (auto split: sum.splits)
    qed
  qed
qed

lemma get_dns_records_mutations:
  "get_dns_records prov s zone_id name t = (r, s1) \<Longrightarrow> mutations s1 = mutations s"
  by (auto simp: mutations_def dest!: get_dns_records_state)

lemma update_or_create_agree:
  assumes get: "get_dns_records prov s zone_id name t = (g, s1)"
    and dry: "\<And>existing. g = Inr existing \<Longrightarrow>
               D = (if existing \<noteq> []
                    then (case process_existing prov zone_id pt new_ip True proxied existing [] s1 of
                            (Inl e, s2) \<Rightarrow> (Inl e, s2)
                          | (Inr results, s2) \<Rightarrow> (Inr (Processed (length existing) results), s2))
                    else (Inr (DryRunCreate pt), s1))"
    and app: "\<And>existing. g = Inr existing \<Longrightarrow>
               A = (if existing \<noteq> []
                    then (case process_existing prov zone_id pt new_ip False proxied existing [] s1 of
                            (Inl e, s2) \<Rightarrow> (Inl e, s2)
                          | (Inr results, s2) \<Rightarrow> (Inr (Processed (length existing) results), s2))
                    else (case api_post prov s1 (records_path zone_id) pt of
                            (Inl e, s2) \<Rightarrow> (Inl e, s2)
                          | (Inr created, s2) \<Rightarrow> (Inr (Created (result_obj created)), s2)))"
    and fail: "\<And>e. g = Inl e \<Longrightarrow> D = (Inl e, s1) \<and> A = (Inl e, s1)"
  shows "dry_apply_agree zone_id s D A"
proof (cases g)
  case (Inl e)
  with fail get_dns_records_mutations [OF get] show ?thesis
    by (auto simp: dry_apply_agree_def intro!: exI [of _ 0])
next
  case (Inr existing)
  note m = get_dns_records_mutations [OF get]
  show ?thesis
  proof (cases "existing = []")
    case True
    obtain x t' where call: "api_post prov s1 (records_path zone_id) pt = (x, t')"
      by (cases "api_post prov s1 (records_path zone_id) pt")
    then have "log t' = log s1 @ [Post (records_path zone_id) pt]"
      by (auto simp: api_post_def dest!: api_call_state)
    with dry [OF Inr] app [OF Inr] True call m show ?thesis
      by (auto simp: dry_apply_agree_def intended_of_def intro!: exI [of _ 1] split: sum.splits)
  next
    case False
    from process_existing_dry [of prov zone_id pt new_ip proxied existing "[]" s1] obtain ds where
      ds: "process_existing prov zone_id pt new_ip True proxied existing [] s1 = (Inr ds, s1)"
        "concat (map (detail_request zone_id) ds) = pending zone_id pt new_ip proxied existing"
      by auto
    with dry [OF Inr] False have D: "D = (Inr (Processed (length existing) ds), s1)" by simp
    with ds have i: "intended_of zone_id (fst D) = pending zone_id pt new_ip proxied existing"
      by (simp add: intended_of_def)
    obtain x t' where pe: "process_existing prov zone_id pt new_ip False proxied existing [] s1 = (x, t')"
      by (cases "process_existing prov zone_id pt new_ip False proxied existing [] s1")
    from process_existing_apply [of prov zone_id pt new_ip proxied existing "[]" s1] pe
    obtain k where k: "log t' = log s1 @ take k (pending zone_id pt new_ip proxied existing)"
      "case x of Inr ds \<Rightarrow> length (pending zone_id pt new_ip proxied existing) \<le> k
               | Inl e \<Rightarrow> 0 < k \<and> k \<le> length (pending zone_id pt new_ip proxied existing)"
      by auto
    from app [OF Inr] False pe have A: "A = (case x of Inl e \<Rightarrow> (Inl e, t')
                                             | Inr results \<Rightarrow> (Inr (Processed (length existing) results), t'))"
      by (simp split: sum.splits)
    show ?thesis
      unfolding dry_apply_agree_def i
      using k A D m by (intro exI [of _ k]) (auto split: sum.splits)
  qed
qed

lemma records_agree:
  "dry_apply_agree zone_id s
     (update_or_create_records prov s zone_id name new_ip True proxied record_type)
     (update_or_create_records prov s zone_id name new_ip False proxied record_type)"
proof -
  obtain g s1 where get: "get_dns_records prov s zone_id name record_type = (g, s1)"
    by (cases "get_dns_records prov s zone_id name record_type")
  show ?thesis
    by (rule update_or_create_agree [OF get, where pt = "payload_template record_type name new_ip proxied"
                                              and new_ip = new_ip and proxied = proxied])
       (simp_all add: update_or_create_records_def get)
qed

lemma cname_agree:
  "dry_apply_agree zone_id s
     (update_or_create_cname prov s zone_id name target True proxied)
     (update_or_create_cname prov s zone_id name target False proxied)"
proof -
  obtain g s1 where get: "get_dns_records prov s zone_id name ''CNAME'' = (g, s1)"
    by (cases "get_dns_records prov s zone_id name ''CNAME''")
  show ?thesis
    by (rule update_or_create_agree [OF get, where pt = "payload_template ''CNAME'' name target proxied"
                                              and new_ip = target and proxied = proxied])
       (simp_all add: update_or_create_cname_def get)
qed

lemma mx_txt_agree:
  "dry_apply_agree zone_id s
     (update_or_create_mx_txt prov s zone_id name content True record_type priority)
     (update_or_create_mx_txt prov s zone_id name content False record_type priority)"
proof -
  obtain g s1 where get: "get_dns_records prov s zone_id name record_type = (g, s1)"
    by (cases "get_dns_records prov s zone_id name record_type")
  note m = get_dns_records_mutations [OF get]
  let ?pt = "mx_txt_payload record_type name content priority"
  show ?thesis
  proof (cases g)
    case (Inl e)
    with get m show ?thesis
      by (auto simp: dry_apply_agree_def update_or_create_mx_txt_def intro!: exI [of _ 0])
  next
    case (Inr existing)
    show ?thesis
    proof (cases "find_exact_match record_type content priority existing")
      case (Some exact)
      with get Inr m show ?thesis
        by (auto simp: dry_apply_agree_def update_or_create_mx_txt_def intended_of_def intro!: exI [of _ 0])
    next
      case None
      obtain x t' where call: "api_post prov s1 (records_path zone_id) ?pt = (x, t')"
        by (cases "api_post prov s1 (records_path zone_id) ?pt")
      then have "log t' = log s1 @ [Post (records_path zone_id) ?pt]"
        by (auto simp: api_post_def dest!: api_call_state)
      with get Inr None call m show ?thesis
        by (auto simp: dry_apply_agree_def update_or_create_mx_txt_def intended_of_def
                 intro!: exI [of _ 1] split: sum.splits)
    qed
  qed
qed





section \<open>The same outcome under dry-run and apply in update\_dns.py\<close>

lemma intended_mutations: "list_all is_mutation (intended_of zone_id r)"
proof (cases r)
  case (Inl e)
  then show ?thesis by (simp add: intended_of_def)
next
  case (Inr res)
  have details: "list_all is_mutation (concat (map (detail_request zone_id) ds))" for ds
  proof (induction ds)
    case Nil
    then show ?case by simp
  next
    case (Cons d ds)
    then show ?case by (cases d) simp_all
  qed
  from Inr show ?thesis
    by (cases res) (simp_all add: intended_of_def details)
qed

lemma last_of_taken:
  assumes "0 < k" and "k \<le> length xs" and "list_all P xs"
  shows "ys @ take k xs \<noteq> [] \<and> P (last (ys @ take k xs))"
proof -
  from assms(1,2) have ne: "take k xs \<noteq> []" by auto
  then have "last (ys @ take k xs) = last (take k xs)" by simp
  moreover from ne have "last (take k xs) \<in> set (take k xs)" by simp
  then have "last (take k xs) \<in> set xs" by (rule in_set_takeD)
  ultimately show ?thesis
    using assms(3) ne by (simp add: list_all_iff)
qed

lemma agree_outcome:
  assumes "dry_apply_agree zone_id s D A"
  shows "mutations (snd D) = mutations s
         \<and> (outcome_of (fst D) = outcome_of (fst A)
            \<or> outcome_of (fst D) = Returned \<and> log (snd A) \<noteq> [] \<and> is_mutation (last (log (snd A))))"
proof -
  from assms obtain k where k: "log (snd A) = log (snd D) @ take k (intended_of zone_id (fst D))"
    "mutations (snd D) = mutations s"
    "case fst A of
       Inr ra \<Rightarrow> length (intended_of zone_id (fst D)) \<le> k \<and> \<not> isl (fst D)
     | Inl e \<Rightarrow> (fst D = Inl e \<and> k = 0)
                \<or> (\<not> isl (fst D) \<and> 0 < k \<and> k \<le> length (intended_of zone_id (fst D)))"
    unfolding dry_apply_agree_def by blast
  have returned: "outcome_of (fst D) = Returned" if "\<not> isl (fst D)"
    using that by (cases "fst D") (simp_all add: outcome_of_def)
  show ?thesis
  proof (cases "fst A")
    case (Inr ra)
    with k(3) returned have "outcome_of (fst D) = outcome_of (fst A)"
      by (simp add: outcome_of_def)
    with k(2) show ?thesis by simp
  next
    case (Inl e)
    with k(3) consider "fst D = Inl e" | "\<not> isl (fst D)" "0 < k" "k \<le> length (intended_of zone_id (fst D))"
      by auto
    then show ?thesis
    proof cases
      case 1
      with Inl k(2) show ?thesis by (simp add: outcome_of_def)
    next
      case 2
      from last_of_taken [OF 2(2,3) intended_mutations, of "log (snd D)"] k(1) returned [OF 2(1)] k(2)
      show ?thesis by simp
    qed
  qed
qed

lemma delete_outcome:
  "mutations (snd (delete_dns_record prov s zone_id record_id True)) = mutations s
   \<and> (outcome_of (fst (delete_dns_record prov s zone_id record_id True))
        = outcome_of (fst (delete_dns_record prov s zone_id record_id False))
      \<or> outcome_of (fst (delete_dns_record prov s zone_id record_id True)) = Returned
        \<and> log (snd (delete_dns_record prov s zone_id record_id False)) \<noteq> []
        \<and> is_mutation (last (log (snd (delete_dns_record prov s zone_id record_id False)))))"
  by (auto simp: delete_dns_record_def api_delete_def outcome_of_def
           split: prod.splits sum.splits dest!: api_call_state)

lemma args_but_dry_run:
  "a_zone (a\<lparr>a_dry_run := b\<rparr>) = a_zone a" "a_name (a\<lparr>a_dry_run := b\<rparr>) = a_name a"
  "a_type (a\<lparr>a_dry_run := b\<rparr>) = a_type a" "a_ip (a\<lparr>a_dry_run := b\<rparr>) = a_ip a"
  "a_target (a\<lparr>a_dry_run := b\<rparr>) = a_target a" "a_content (a\<lparr>a_dry_run := b\<rparr>) = a_content a"
  "a_priority (a\<lparr>a_dry_run := b\<rparr>) = a_priority a" "a_record_id (a\<lparr>a_dry_run := b\<rparr>) = a_record_id a"
  "a_search (a\<lparr>a_dry_run := b\<rparr>) = a_search a" "a_delete (a\<lparr>a_dry_run := b\<rparr>) = a_delete a"
  "a_proxied (a\<lparr>a_dry_run := b\<rparr>) = a_proxied a" "a_no_proxy (a\<lparr>a_dry_run := b\<rparr>) = a_no_proxy a"
  "a_dry_run (a\<lparr>a_dry_run := b\<rparr>) = b"
  by simp_all

lemma validate_args_dry_run:
  "validate_args ipv4 ipv6 (a\<lparr>a_dry_run := b\<rparr>) token = validate_args ipv4 ipv6 a token"
  unfolding validate_args_def by (simp only: args_but_dry_run)

lemma full_name_of_dry_run: "full_name_of (a\<lparr>a_dry_run := b\<rparr>) = full_name_of a"
  unfolding full_name_of_def by (simp only: args_but_dry_run)

lemma get_zone_id_mutations: "get_zone_id prov s domain = (g, s1) \<Longrightarrow> mutations s1 = mutations s"
  by (auto simp: mutations_def dest!: get_zone_id_state)


lemma records_created:
  assumes "fst (update_or_create_records prov s zone_id name new_ip b proxied record_type) = Inr (Created x)"
  shows "\<not> b \<and> log (snd (update_or_create_records prov s zone_id name new_ip b proxied record_type)) \<noteq> []
         \<and> is_mutation (last (log (snd (update_or_create_records prov s zone_id name new_ip b proxied record_type))))"
  using assms
  by (auto simp: update_or_create_records_def api_post_def Let_def
           split: prod.splits sum.splits if_splits dest!: api_call_state)

lemma cname_created:
  assumes "fst (update_or_create_cname prov s zone_id name target b proxied) = Inr (Created x)"
  shows "\<not> b \<and> log (snd (update_or_create_cname prov s zone_id name target b proxied)) \<noteq> []
         \<and> is_mutation (last (log (snd (update_or_create_cname prov s zone_id name target b proxied))))"
  using assms
  by (auto simp: update_or_create_cname_def api_post_def Let_def
           split: prod.splits sum.splits if_splits dest!: api_call_state)

lemma mx_txt_created:
  assumes "fst (update_or_create_mx_txt prov s zone_id name content b record_type priority) = Inr (Created x)"
  shows "\<not> b \<and> log (snd (update_or_create_mx_txt prov s zone_id name content b record_type priority)) \<noteq> []
         \<and> is_mutation (last (log (snd (update_or_create_mx_txt prov s zone_id name content b record_type priority))))"
  using assms
  by (auto simp: update_or_create_mx_txt_def api_post_def Let_def
           split: prod.splits sum.splits if_splits option.splits dest!: api_call_state)

lemma print_result_not_created:
  "(\<And>x. res \<noteq> Created x) \<Longrightarrow> print_result res = Inr ()"
  by (cases res) (auto simp: print_result_def split: option.splits)

lemma printed_outcome:
  assumes agree: "dry_apply_agree zone_id s D A"
    and dry: "\<And>x. fst D \<noteq> Inr (Created x)"
    and app: "\<And>x. fst A = Inr (Created x) \<Longrightarrow> log (snd A) \<noteq> [] \<and> is_mutation (last (log (snd A)))"
  shows "mutations (snd D) = mutations s
         \<and> ((case fst D of Inl e \<Rightarrow> outcome_of (Inl e :: error + unit)
                          | Inr res \<Rightarrow> outcome_of (print_result res))
              = (case fst A of Inl e \<Rightarrow> outcome_of (Inl e :: error + unit)
                             | Inr res \<Rightarrow> outcome_of (print_result res))
            \<or> (case fst D of Inl e \<Rightarrow> outcome_of (Inl e :: error + unit)
                            | Inr res \<Rightarrow> outcome_of (print_result res)) = Returned
              \<and> log (snd A) \<noteq> [] \<and> is_mutation (last (log (snd A))))"
proof -
  let ?fin = "\<lambda>r. case r of Inl e \<Rightarrow> outcome_of (Inl e :: error + unit)
                          | Inr res \<Rightarrow> outcome_of (print_result res)"
  have finD: "?fin (fst D) = outcome_of (fst D)"
  proof (cases "fst D")
    case (Inl e)
    then show ?thesis by (simp add: outcome_of_def)
  next
    case (Inr res)
    with dry have "\<And>x. res \<noteq> Created x" by auto
    from print_result_not_created [OF this] Inr show ?thesis by (simp add: outcome_of_def)
  qed
  from agree_outcome [OF agree] have m: "mutations (snd D) = mutations s"
    and rel: "outcome_of (fst D) = outcome_of (fst A)
              \<or> outcome_of (fst D) = Returned \<and> log (snd A) \<noteq> [] \<and> is_mutation (last (log (snd A)))"
    by simp_all
  have "?fin (fst D) = ?fin (fst A)
        \<or> ?fin (fst D) = Returned \<and> log (snd A) \<noteq> [] \<and> is_mutation (last (log (snd A)))"
  proof (cases "\<exists>x. fst A = Inr (Created x)")
    case True
    then obtain x where x: "fst A = Inr (Created x)" by blast
    from app [OF x] have last: "log (snd A) \<noteq> [] \<and> is_mutation (last (log (snd A)))" .
    from agree x have "\<not> isl (fst D)"
      by (auto simp: dry_apply_agree_def)
    then have "outcome_of (fst D) = Returned"
      by (cases "fst D") (simp_all add: outcome_of_def)
    with finD last show ?thesis by simp
  next
    case False
    have "?fin (fst A) = outcome_of (fst A)"
    proof (cases "fst A")
      case (Inl e)
      then show ?thesis by (simp add: outcome_of_def)
    next
      case (Inr res)
      with False have "\<And>x. res \<noteq> Created x" by auto
      from print_result_not_created [OF this] Inr show ?thesis by (simp add: outcome_of_def)
    qed
    with finD rel show ?thesis by simp
  qed
  with m show ?thesis by simp
qed

text \<open>
  C8. In \<^verbatim>\<open>main\<close> of update\_dns.py the checks that run before any request, the address
  validation included, do not read the dry-run flag: they end a dry run and an apply run of
  the same command line in the same way. A dry run issues no mutation. From the same state
  and with the same provider, a dry run and an apply run end with the same outcome, unless
  the dry run returns and the last request the apply run issued is a mutating one: the
  apply run then ends with the error that request was answered with, or with the error of
  printing a created record that the answer does not hold.
\<close>

theorem dry_run_same_error_outcome:
  "validate_args ipv4 ipv6 (a\<lparr>a_dry_run := True\<rparr>) token
     = validate_args ipv4 ipv6 (a\<lparr>a_dry_run := False\<rparr>) token
   \<and> mutations (snd (main ipv4 ipv6 prov s (a\<lparr>a_dry_run := True\<rparr>) token)) = mutations s
   \<and> (fst (main ipv4 ipv6 prov s (a\<lparr>a_dry_run := True\<rparr>) token)
         = fst (main ipv4 ipv6 prov s (a\<lparr>a_dry_run := False\<rparr>) token)
       \<or> fst (main ipv4 ipv6 prov s (a\<lparr>a_dry_run := True\<rparr>) token) = Returned
         \<and> log (snd (main ipv4 ipv6 prov s (a\<lparr>a_dry_run := False\<rparr>) token)) \<noteq> []
         \<and> is_mutation (last (log (snd (main ipv4 ipv6 prov s (a\<lparr>a_dry_run := False\<rparr>) token)))))"
proof -
  define proxied where "proxied = (a_proxied a \<and> \<not> a_no_proxy a)"
  define fin :: "(error + update_result) \<times> state \<Rightarrow> outcome \<times> state"
    where "fin X = ((case fst X of Inl e \<Rightarrow> outcome_of (Inl e :: error + unit)
                                 | Inr res \<Rightarrow> outcome_of (print_result res)), snd X)" for X
  define op where "op b zone_id s1 =
     (if a_delete a
      then (case delete_dns_record prov s1 zone_id (the (a_record_id a)) b of
              (r, s2) \<Rightarrow> (outcome_of r, s2))
      else if a_search a
      then (case get_dns_records prov s1 zone_id (fmt (full_name_of a)) (the (a_type a)) of
              (r, s2) \<Rightarrow> (outcome_of r, s2))
      else
        (case (if the (a_type a) \<in> set [''A'', ''AAAA'']
               then Some (update_or_create_records prov s1 zone_id (fmt (full_name_of a))
                            (the (a_ip a)) b proxied (the (a_type a)))
               else if the (a_type a) = ''CNAME''
               then Some (update_or_create_cname prov s1 zone_id (fmt (full_name_of a))
                            (the (a_target a)) b proxied)
               else if the (a_type a) \<in> set [''MX'', ''TXT'']
               then Some (update_or_create_mx_txt prov s1 zone_id (fmt (full_name_of a))
                            (the (a_content a)) b (the (a_type a)) (a_priority a))
               else None) of
           None \<Rightarrow> (Traceback UnboundLocalError, s1)
         | Some (Inl e, s2) \<Rightarrow> (outcome_of (Inl e :: error + unit), s2)
         | Some (Inr res, s2) \<Rightarrow> (outcome_of (print_result res), s2)))" for b zone_id s1
  have main_eq: "main ipv4 ipv6 prov s (a\<lparr>a_dry_run := b\<rparr>) token =
     (case validate_args ipv4 ipv6 a token of
        Some x \<Rightarrow> (x, s)
      | None \<Rightarrow>
          (case get_zone_id prov s (a_zone a) of
             (Inl e, s1) \<Rightarrow> (outcome_of (Inl e :: error + unit), s1)
           | (Inr zone_id, s1) \<Rightarrow> op b zone_id s1))" for b
    unfolding main_def op_def proxied_def Let_def
    by (simp only: args_but_dry_run validate_args_dry_run full_name_of_dry_run)
  have fin_eq: "(case X of (Inl e, s2) \<Rightarrow> (outcome_of (Inl e :: error + unit), s2)
                 | (Inr res, s2) \<Rightarrow> (outcome_of (print_result res), s2)) = fin X" for X
    by (cases X) (simp add: fin_def split: sum.splits)
  have fin_rel: "mutations (snd (fin D)) = mutations s1
       \<and> (fst (fin D) = fst (fin A)
          \<or> fst (fin D) = Returned \<and> log (snd (fin A)) \<noteq> [] \<and> is_mutation (last (log (snd (fin A)))))"
    if "dry_apply_agree zone_id s1 D A" "\<And>x. fst D \<noteq> Inr (Created x)"
       "\<And>x. fst A = Inr (Created x) \<Longrightarrow> log (snd A) \<noteq> [] \<and> is_mutation (last (log (snd A)))"
    for zone_id s1 D A
    using printed_outcome [OF that] by (simp add: fin_def)
  have op_rel: "mutations (snd (op True zone_id s1)) = mutations s1
       \<and> (fst (op True zone_id s1) = fst (op False zone_id s1)
          \<or> fst (op True zone_id s1) = Returned \<and> log (snd (op False zone_id s1)) \<noteq> []
            \<and> is_mutation (last (log (snd (op False zone_id s1)))))" for zone_id s1
  proof -
    consider (delete) "a_delete a"
      | (search) "\<not> a_delete a" "a_search a"
      | (records) "\<not> a_delete a" "\<not> a_search a" "the (a_type a) \<in> set [''A'', ''AAAA'']"
      | (cname) "\<not> a_delete a" "\<not> a_search a" "the (a_type a) \<notin> set [''A'', ''AAAA'']"
          "the (a_type a) = ''CNAME''"
      | (mx_txt) "\<not> a_delete a" "\<not> a_search a" "the (a_type a) \<notin> set [''A'', ''AAAA'']"
          "the (a_type a) \<noteq> ''CNAME''" "the (a_type a) \<in> set [''MX'', ''TXT'']"
      | (other) "\<not> a_delete a" "\<not> a_search a" "the (a_type a) \<notin> set [''A'', ''AAAA'']"
          "the (a_type a) \<noteq> ''CNAME''" "the (a_type a) \<notin> set [''MX'', ''TXT'']"
      by blast
    then show ?thesis
    proof cases
      case delete
      then have "op b zone_id s1
                   = (outcome_of (fst (delete_dns_record prov s1 zone_id (the (a_record_id a)) b)),
                      snd (delete_dns_record prov s1 zone_id (the (a_record_id a)) b))" for b
        by (simp add: op_def case_prod_beta)
      with delete_outcome [of prov s1 zone_id "the (a_record_id a)"] show ?thesis by simp
    next
      case search
      then have "op b zone_id s1
               = (outcome_of (fst (get_dns_records prov s1 zone_id (fmt (full_name_of a)) (the (a_type a)))),
                  snd (get_dns_records prov s1 zone_id (fmt (full_name_of a)) (the (a_type a))))" for b
        by (simp add: op_def case_prod_beta)
      moreover have "mutations (snd (get_dns_records prov s1 zone_id (fmt (full_name_of a)) (the (a_type a))))
                       = mutations s1"
        by (rule get_dns_records_mutations) (rule prod.collapse [symmetric])
      ultimately show ?thesis by simp
    next
      case records
      let ?f = "\<lambda>b. update_or_create_records prov s1 zone_id (fmt (full_name_of a)) (the (a_ip a))
                       b proxied (the (a_type a))"
      from records have "op b zone_id s1 = fin (?f b)" for b
        by (simp add: op_def fin_eq)
      moreover have "\<And>x. fst (?f True) \<noteq> Inr (Created x)"
        using records_created by blast
      moreover have "\<And>x. fst (?f False) = Inr (Created x) \<Longrightarrow>
                       log (snd (?f False)) \<noteq> [] \<and> is_mutation (last (log (snd (?f False))))"
        using records_created by blast
      ultimately show ?thesis
        using fin_rel [OF records_agree [of zone_id s1 prov "fmt (full_name_of a)" "the (a_ip a)"
                                          proxied "the (a_type a)"]]
        by simp
    next
      case cname
      let ?f = "\<lambda>b. update_or_create_cname prov s1 zone_id (fmt (full_name_of a)) (the (a_target a))
                       b proxied"
      from cname have "op b zone_id s1 = fin (?f b)" for b
        by (simp add: op_def fin_eq)
      moreover have "\<And>x. fst (?f True) \<noteq> Inr (Created x)"
        using cname_created by blast
      moreover have "\<And>x. fst (?f False) = Inr (Created x) \<Longrightarrow>
                       log (snd (?f False)) \<noteq> [] \<and> is_mutation (last (log (snd (?f False))))"
        using cname_created by blast
      ultimately show ?thesis
        using fin_rel [OF cname_agree [of zone_id s1 prov "fmt (full_name_of a)" "the (a_target a)" proxied]]
        by simp
    next
      case mx_txt
      let ?f = "\<lambda>b. update_or_create_mx_txt prov s1 zone_id (fmt (full_name_of a)) (the (a_content a))
                       b (the (a_type a)) (a_priority a)"
      from mx_txt have "op b zone_id s1 = fin (?f b)" for b
        by (simp add: op_def fin_eq)
      moreover have "\<And>x. fst (?f True) \<noteq> Inr (Created x)"
        using mx_txt_created by blast
      moreover have "\<And>x. fst (?f False) = Inr (Created x) \<Longrightarrow>
                       log (snd (?f False)) \<noteq> [] \<and> is_mutation (last (log (snd (?f False))))"
        using mx_txt_created by blast
      ultimately show ?thesis
        using fin_rel [OF mx_txt_agree [of zone_id s1 prov "fmt (full_name_of a)" "the (a_content a)"
                                         "the (a_type a)" "a_priority a"]]
        by simp
    next
      case other
      then have "op b zone_id s1 = (Traceback UnboundLocalError, s1)" for b
        by (simp add: op_def)
      then show ?thesis by simp
    qed
  qed
  have checks: "validate_args ipv4 ipv6 (a\<lparr>a_dry_run := True\<rparr>) token
     = validate_args ipv4 ipv6 (a\<lparr>a_dry_run := False\<rparr>) token"
    by (simp only: validate_args_dry_run)
  have runs: "mutations (snd (main ipv4 ipv6 prov s (a\<lparr>a_dry_run := True\<rparr>) token)) = mutations s
   \<and> (fst (main ipv4 ipv6 prov s (a\<lparr>a_dry_run := True\<rparr>) token)
         = fst (main ipv4 ipv6 prov s (a\<lparr>a_dry_run := False\<rparr>) token)
       \<or> fst (main ipv4 ipv6 prov s (a\<lparr>a_dry_run := True\<rparr>) token) = Returned
         \<and> log (snd (main ipv4 ipv6 prov s (a\<lparr>a_dry_run := False\<rparr>) token)) \<noteq> []
         \<and> is_mutation (last (log (snd (main ipv4 ipv6 prov s (a\<lparr>a_dry_run := False\<rparr>) token)))))"
  proof (cases "validate_args ipv4 ipv6 a token")
    case (Some x)
    then show ?thesis by (simp add: main_eq)
  next
    case None
    obtain g s1 where zone: "get_zone_id prov s (a_zone a) = (g, s1)"
      by (cases "get_zone_id prov s (a_zone a)")
    note m = get_zone_id_mutations [OF zone]
    show ?thesis
    proof (cases g)
      case (Inl e)
      with None zone m show ?thesis by (simp add: main_eq)
    next
      case (Inr zone_id)
      with None zone have "main ipv4 ipv6 prov s (a\<lparr>a_dry_run := b\<rparr>) token = op b zone_id s1" for b
        by (simp add: main_eq)
      with op_rel [of zone_id s1] m show ?thesis by simp
    qed
  qed
  from checks runs show ?thesis by (rule conjI)
qed

theorem dry_run_same_error_outcome_witness:
  "validate_args (\<lambda>ip. False) (\<lambda>ip. False) (a_record_args\<lparr>a_dry_run := True\<rparr>) ''token'' = Some ExitMessage
   \<and> validate_args (\<lambda>ip. False) (\<lambda>ip. False) (a_record_args\<lparr>a_dry_run := False\<rparr>) ''token'' = Some ExitMessage
   \<and> mutations (snd (main (\<lambda>ip. False) (\<lambda>ip. False) refusing s0 (a_record_args\<lparr>a_dry_run := True\<rparr>) ''token''))
       = mutations s0
   \<and> fst (main (\<lambda>ip. True) (\<lambda>ip. True) (hosting ''z1'' []) s0 (a_record_args\<lparr>a_dry_run := True\<rparr>) ''token'')
       = Returned
   \<and> fst (main (\<lambda>ip. True) (\<lambda>ip. True) (hosting ''z1'' []) s0 (a_record_args\<lparr>a_dry_run := False\<rparr>) ''token'')
       = Traceback AttributeError
   \<and> is_mutation (last (log (snd (main (\<lambda>ip. True) (\<lambda>ip. True) (hosting ''z1'' []) s0
                                     (a_record_args\<lparr>a_dry_run := False\<rparr>) ''token''))))"
proof -
  have rejected: "validate_args (\<lambda>ip. False) (\<lambda>ip. False) (a_record_args\<lparr>a_dry_run := True\<rparr>) ''token''
                    = Some ExitMessage"
    by (simp add: validate_args_def validate_ip_def a_record_args_def falsy_def)
  note both = dry_run_same_error_outcome
    [of "\<lambda>ip. False" "\<lambda>ip. False" a_record_args "''token''" refusing s0]
  have dry: "fst (main (\<lambda>ip. True) (\<lambda>ip. True) (hosting ''z1'' []) s0 (a_record_args\<lparr>a_dry_run := True\<rparr>) ''token'')
       = Returned"
    by (simp add: main_def validate_args_def validate_ip_def a_record_args_def falsy_def
          hosting_get_zone_id full_name_of_def fmt_def update_or_create_records_def get_dns_records_def
          api_get_def api_call_def send_def hosting_def listing_def records_path_def print_result_def
          outcome_of_def)
  have app: "fst (main (\<lambda>ip. True) (\<lambda>ip. True) (hosting ''z1'' []) s0 (a_record_args\<lparr>a_dry_run := False\<rparr>) ''token'')
       = Traceback AttributeError"
    by (simp add: main_def validate_args_def validate_ip_def a_record_args_def falsy_def
          hosting_get_zone_id full_name_of_def fmt_def update_or_create_records_def get_dns_records_def
          api_get_def api_post_def api_call_def send_def hosting_def listing_def records_path_def
          print_result_def outcome_of_def)
  note differ = dry_run_same_error_outcome
    [of "\<lambda>ip. True" "\<lambda>ip. True" a_record_args "''token''" "hosting ''z1'' []" s0,
     THEN conjunct2, THEN conjunct2]
  from differ dry app have last: "is_mutation (last (log (snd (main (\<lambda>ip. True) (\<lambda>ip. True) (hosting ''z1'' []) s0
                                     (a_record_args\<lparr>a_dry_run := False\<rparr>) ''token''))))"
    by simp
  from rejected both [THEN conjunct1] both [THEN conjunct2, THEN conjunct1] dry app last
  show ?thesis by simp
qed

section \<open>Creating and updating in place\<close>

lemma records_apply_log:
  assumes "get_dns_records prov s zone_id name record_type = (Inr existing, s1)"
  shows "(existing = [] \<longrightarrow>
           log (snd (update_or_create_records prov s zone_id name new_ip False proxied record_type))
             = log s1 @ [Post (records_path zone_id) (payload_template record_type name new_ip proxied)])
        \<and> (existing \<noteq> [] \<longrightarrow>
             (\<exists>k. log (snd (update_or_create_records prov s zone_id name new_ip False proxied record_type))
                   = log s1 @ take k (pending zone_id (payload_template record_type name new_ip proxied)
                                        new_ip proxied existing)
                \<and> (if isl (fst (update_or_create_records prov s zone_id name new_ip False proxied record_type))
                    then 0 < k \<and> k \<le> length (pending zone_id (payload_template record_type name new_ip proxied)
                                                  new_ip proxied existing)
                    else length (pending zone_id (payload_template record_type name new_ip proxied)
                                   new_ip proxied existing) \<le> k)))"
proof (cases "existing = []")
  case True
  let ?pt = "payload_template record_type name new_ip proxied"
  obtain x t where call: "api_post prov s1 (records_path zone_id) ?pt = (x, t)"
    by (cases "api_post prov s1 (records_path zone_id) ?pt")
  then have "log t = log s1 @ [Post (records_path zone_id) ?pt]"
    by (auto simp: api_post_def dest!: api_call_state)
  with assms True call show ?thesis
    by (auto simp: update_or_create_records_def split: sum.splits)
next
  case False
  let ?pt = "payload_template record_type name new_ip proxied"
  obtain x t where pe: "process_existing prov zone_id ?pt new_ip False proxied existing [] s1 = (x, t)"
    by (cases "process_existing prov zone_id ?pt new_ip False proxied existing [] s1")
  from process_existing_apply [of prov zone_id ?pt new_ip proxied existing "[]" s1] pe
  obtain k where k: "log t = log s1 @ take k (pending zone_id ?pt new_ip proxied existing)"
    "case x of Inr ds \<Rightarrow> length (pending zone_id ?pt new_ip proxied existing) \<le> k
             | Inl e \<Rightarrow> 0 < k \<and> k \<le> length (pending zone_id ?pt new_ip proxied existing)"
    by auto
  from assms False pe have "update_or_create_records prov s zone_id name new_ip False proxied record_type
      = (case x of Inl e \<Rightarrow> (Inl e, t) | Inr results \<Rightarrow> (Inr (Processed (length existing) results), t))"
    by (simp add: update_or_create_records_def split: sum.splits)
  with k False show ?thesis
    by (auto split: sum.splits intro!: exI [of _ k])
qed

text \<open>
  C1, as stated, fails for A and AAAA in update\_dns.py: with one A record listed at the
  name whose content differs from the desired address, \<^verbatim>\<open>update_or_create_records\<close> in
  apply mode issues a PATCH that overwrites that record, and creates nothing.
\<close>

theorem a_record_overwritten_counterexample:
  "update_or_create_records (accepting [old_a]) s0 ''z1'' ''staging.example.org'' ''203.0.113.42''
      False False ''A''
     = (Inr (Processed 1 [Updated (Some ''a1'') None (Some ''203.0.113.7'') None (Some False)]),
        \<lparr>log = [Get ''/zones/z1/dns_records'' [(''type'', S ''A''), (''name'', S ''staging.example.org'')],
                Patch ''/zones/z1/dns_records/a1''
                  (payload_template ''A'' ''staging.example.org'' ''203.0.113.42'' False)],
         out = []\<rparr>)"
  by (simp add: update_or_create_records_def get_dns_records_def api_get_def api_patch_def api_call_def
        send_def accepting_def listing_def old_a_def rec_obj_def no_obj_def result_or_empty_def s0_def
        records_path_def
        record_path_def fmt_def)

text \<open>
  C1, amended. In the standard ensure (\<^verbatim>\<open>ensure_record\<close>, for every type) a spec is
  satisfied only when a record of the same type and name has equal content and, for MX,
  equal priority; for MX, TXT and A every such record satisfies it. A spec that is not
  satisfied is reported as a would-create under dry-run and created with one POST in apply
  mode; no other request is issued. For MX and TXT in update\_dns.py
  (\<^verbatim>\<open>update_or_create_mx_txt\<close>) the spec is satisfied exactly when a listed record has
  equal content and, for MX, equal priority, and otherwise a create is reported or one POST
  issued; no other request follows the listing. For A and AAAA in update\_dns.py
  (\<^verbatim>\<open>update_or_create_records\<close>) the code updates in place. When no record is listed
  at the name, apply mode issues one POST of the desired payload and nothing else. When
  records are listed, it issues no create: after the listing it issues the PATCH, with the
  desired payload, of the listed records whose content or proxied flag differs from the
  desired values (\<open>pending\<close>), in the order listed; all of them when it returns, and
  those up to the first PATCH that fails when it raises.
\<close>

theorem ensure_creates_and_never_updates:
  "(fst (ensure_record prov s zone_id z rd all_records dry_run) = Inr False \<longrightarrow>
      (\<exists>r\<in>set all_records. o_type r = Some (d_type rd) \<and> o_name r = Some (rec_name_of z rd)
          \<and> o_content r = Some (d_content rd)
          \<and> (d_type rd = ''MX'' \<longrightarrow> o_priority r = Some (get_priority rd))))
   \<and> (d_type rd \<in> set [''MX'', ''TXT'', ''A'']
        \<and> (\<exists>r\<in>set all_records. o_type r = Some (d_type rd) \<and> o_name r = Some (rec_name_of z rd)
              \<and> o_content r = Some (d_content rd)
              \<and> (d_type rd = ''MX'' \<longrightarrow> o_priority r = Some (get_priority rd))) \<longrightarrow>
      fst (ensure_record prov s zone_id z rd all_records dry_run) = Inr False)
   \<and> (fst (ensure_record prov s zone_id z rd all_records dry_run) \<noteq> Inr False \<longrightarrow>
        ensure_record prov s zone_id z rd all_records True
          = (Inr True, emit (DryRunWouldCreate (d_type rd) (d_name rd) (d_content rd)) s)
        \<and> log (snd (ensure_record prov s zone_id z rd all_records False))
          = log s @ [Post (records_path zone_id) (ensure_payload z rd)])
   \<and> (fst (ensure_record prov s zone_id z rd all_records dry_run) = Inr False \<or> dry_run \<longrightarrow>
        log (snd (ensure_record prov s zone_id z rd all_records dry_run)) = log s)
   \<and> (get_dns_records prov s zone_id name record_type = (Inr existing, s1) \<longrightarrow>
        ((\<exists>i. update_or_create_mx_txt prov s zone_id name content dry_run record_type priority
                = (Inr (AlreadyExact i), s1))
          = (\<exists>r\<in>set existing. o_content r = Some content
                \<and> (record_type = ''MX'' \<longrightarrow> o_priority r = Some priority)))
        \<and> (\<not> (\<exists>r\<in>set existing. o_content r = Some content
                \<and> (record_type = ''MX'' \<longrightarrow> o_priority r = Some priority)) \<longrightarrow>
             update_or_create_mx_txt prov s zone_id name content True record_type priority
               = (Inr (DryRunCreate (mx_txt_payload record_type name content priority)), s1)
             \<and> log (snd (update_or_create_mx_txt prov s zone_id name content False record_type priority))
               = log s1 @ [Post (records_path zone_id) (mx_txt_payload record_type name content priority)])
        \<and> (log (snd (update_or_create_mx_txt prov s zone_id name content dry_run record_type priority))
               = log s1
             \<or> log (snd (update_or_create_mx_txt prov s zone_id name content dry_run record_type priority))
               = log s1 @ [Post (records_path zone_id) (mx_txt_payload record_type name content priority)]))
   \<and> (get_dns_records prov s zone_id name record_type = (Inr existing, s1) \<longrightarrow>
        (existing = [] \<longrightarrow>
           log (snd (update_or_create_records prov s zone_id name new_ip False proxied record_type))
             = log s1 @ [Post (records_path zone_id) (payload_template record_type name new_ip proxied)])
        \<and> (existing \<noteq> [] \<longrightarrow>
             (\<exists>k. log (snd (update_or_create_records prov s zone_id name new_ip False proxied record_type))
                   = log s1 @ take k (pending zone_id (payload_template record_type name new_ip proxied)
                                        new_ip proxied existing)
                \<and> (if isl (fst (update_or_create_records prov s zone_id name new_ip False proxied record_type))
                    then 0 < k \<and> k \<le> length (pending zone_id (payload_template record_type name new_ip proxied)
                                                  new_ip proxied existing)
                    else length (pending zone_id (payload_template record_type name new_ip proxied)
                                   new_ip proxied existing) \<le> k))))"
proof -
  let ?sat = "fst (ensure_record prov s zone_id z rd all_records dry_run) = Inr False"
  have sat: "?sat = already_exists z rd all_records"
    by (rule ensure_record_satisfied)
  have a: "?sat \<longrightarrow>
      (\<exists>r\<in>set all_records. o_type r = Some (d_type rd) \<and> o_name r = Some (rec_name_of z rd)
          \<and> o_content r = Some (d_content rd)
          \<and> (d_type rd = ''MX'' \<longrightarrow> o_priority r = Some (get_priority rd)))"
    unfolding sat using already_exists_match by blast
  have b: "d_type rd \<in> set [''MX'', ''TXT'', ''A'']
        \<and> (\<exists>r\<in>set all_records. o_type r = Some (d_type rd) \<and> o_name r = Some (rec_name_of z rd)
              \<and> o_content r = Some (d_content rd)
              \<and> (d_type rd = ''MX'' \<longrightarrow> o_priority r = Some (get_priority rd))) \<longrightarrow> ?sat"
    unfolding sat using already_exists_multi by blast
  have c: "\<not> ?sat \<longrightarrow>
        ensure_record prov s zone_id z rd all_records True
          = (Inr True, emit (DryRunWouldCreate (d_type rd) (d_name rd) (d_content rd)) s)
        \<and> log (snd (ensure_record prov s zone_id z rd all_records False))
          = log s @ [Post (records_path zone_id) (ensure_payload z rd)]"
    unfolding sat using ensure_record_dry ensure_record_apply_log by blast
  have d: "?sat \<or> dry_run \<longrightarrow>
        log (snd (ensure_record prov s zone_id z rd all_records dry_run)) = log s"
    unfolding sat using ensure_record_no_request by blast
  have e: "get_dns_records prov s zone_id name record_type = (Inr existing, s1) \<longrightarrow>
        ((\<exists>i. update_or_create_mx_txt prov s zone_id name content dry_run record_type priority
                = (Inr (AlreadyExact i), s1))
          = (\<exists>r\<in>set existing. o_content r = Some content
                \<and> (record_type = ''MX'' \<longrightarrow> o_priority r = Some priority)))
        \<and> (\<not> (\<exists>r\<in>set existing. o_content r = Some content
                \<and> (record_type = ''MX'' \<longrightarrow> o_priority r = Some priority)) \<longrightarrow>
             update_or_create_mx_txt prov s zone_id name content True record_type priority
               = (Inr (DryRunCreate (mx_txt_payload record_type name content priority)), s1)
             \<and> log (snd (update_or_create_mx_txt prov s zone_id name content False record_type priority))
               = log s1 @ [Post (records_path zone_id) (mx_txt_payload record_type name content priority)])
        \<and> (log (snd (update_or_create_mx_txt prov s zone_id name content dry_run record_type priority))
               = log s1
             \<or> log (snd (update_or_create_mx_txt prov s zone_id name content dry_run record_type priority))
               = log s1 @ [Post (records_path zone_id) (mx_txt_payload record_type name content priority)])"
    using mx_txt_satisfied [of prov s zone_id name record_type existing s1 content dry_run priority]
      mx_txt_absent [of prov s zone_id name record_type existing s1 content priority]
      mx_txt_log [of prov s zone_id name record_type existing s1 content dry_run priority]
    by blast
  have f: "get_dns_records prov s zone_id name record_type = (Inr existing, s1) \<longrightarrow>
        (existing = [] \<longrightarrow>
           log (snd (update_or_create_records prov s zone_id name new_ip False proxied record_type))
             = log s1 @ [Post (records_path zone_id) (payload_template record_type name new_ip proxied)])
        \<and> (existing \<noteq> [] \<longrightarrow>
             (\<exists>k. log (snd (update_or_create_records prov s zone_id name new_ip False proxied record_type))
                   = log s1 @ take k (pending zone_id (payload_template record_type name new_ip proxied)
                                        new_ip proxied existing)
                \<and> (if isl (fst (update_or_create_records prov s zone_id name new_ip False proxied record_type))
                    then 0 < k \<and> k \<le> length (pending zone_id (payload_template record_type name new_ip proxied)
                                                  new_ip proxied existing)
                    else length (pending zone_id (payload_template record_type name new_ip proxied)
                                   new_ip proxied existing) \<le> k)))"
    using records_apply_log [of prov s zone_id name record_type existing s1 new_ip proxied]
    by blast
  from a b c d e f show ?thesis by (intro conjI)
qed

theorem ensure_creates_and_never_updates_witness:
  "fst (ensure_record (accepting []) s0 ''z1'' ''example.org'' apex_a_def [old_a] False) \<noteq> Inr False
   \<and> ensure_record (accepting []) s0 ''z1'' ''example.org'' apex_a_def [old_a] True
       = (Inr True, emit (DryRunWouldCreate ''A'' ''@'' ''185.199.108.153'') s0)
   \<and> log (snd (ensure_record (accepting []) s0 ''z1'' ''example.org'' apex_a_def [old_a] False))
       = log s0 @ [Post (records_path ''z1'') (ensure_payload ''example.org'' apex_a_def)]
   \<and> get_dns_records (accepting [old_a]) s0 ''z1'' ''staging.example.org'' ''A''
       = (Inr [old_a], s0\<lparr>log := [Get ''/zones/z1/dns_records''
                                   [(''type'', S ''A''), (''name'', S ''staging.example.org'')]]\<rparr>)
   \<and> update_or_create_mx_txt (accepting [old_a]) s0 ''z1'' ''staging.example.org'' ''203.0.113.42'' True
         ''A'' 10
       = (Inr (DryRunCreate (mx_txt_payload ''A'' ''staging.example.org'' ''203.0.113.42'' 10)),
          s0\<lparr>log := [Get ''/zones/z1/dns_records''
                       [(''type'', S ''A''), (''name'', S ''staging.example.org'')]]\<rparr>)
   \<and> [old_a] \<noteq> []
   \<and> (\<exists>k. log (snd (update_or_create_records (accepting [old_a]) s0 ''z1'' ''staging.example.org''
                        ''203.0.113.42'' False False ''A''))
            = log (s0\<lparr>log := [Get ''/zones/z1/dns_records''
                                  [(''type'', S ''A''), (''name'', S ''staging.example.org'')]]\<rparr>)
              @ take k (pending ''z1'' (payload_template ''A'' ''staging.example.org'' ''203.0.113.42'' False)
                          ''203.0.113.42'' False [old_a])
          \<and> (if isl (fst (update_or_create_records (accepting [old_a]) s0 ''z1'' ''staging.example.org''
                              ''203.0.113.42'' False False ''A''))
              then 0 < k \<and> k \<le> length (pending ''z1''
                                            (payload_template ''A'' ''staging.example.org'' ''203.0.113.42'' False)
                                            ''203.0.113.42'' False [old_a])
              else length (pending ''z1'' (payload_template ''A'' ''staging.example.org'' ''203.0.113.42'' False)
                             ''203.0.113.42'' False [old_a]) \<le> k))"
proof -
  have unsat: "fst (ensure_record (accepting []) s0 ''z1'' ''example.org'' apex_a_def [old_a] False) \<noteq> Inr False"
    by (simp add: ensure_record_satisfied already_exists_def exact_match_of_def matches_of_def
          apex_a_def_def old_a_def rec_obj_def rec_name_of_def)
  have listed: "get_dns_records (accepting [old_a]) s0 ''z1'' ''staging.example.org'' ''A''
       = (Inr [old_a], s0\<lparr>log := [Get ''/zones/z1/dns_records''
                                   [(''type'', S ''A''), (''name'', S ''staging.example.org'')]]\<rparr>)"
    by (simp add: get_dns_records_def api_get_def api_call_def send_def accepting_def listing_def
          s0_def records_path_def)
  have differs: "\<not> (\<exists>r\<in>set [old_a]. o_content r = Some ''203.0.113.42''
                \<and> (''A'' = ''MX'' \<longrightarrow> o_priority r = Some 10))"
    by (simp add: old_a_def rec_obj_def)
  note std = ensure_creates_and_never_updates
      [of "accepting []" s0 "''z1''" "''example.org''" apex_a_def "[old_a]" False]
  note adhoc = ensure_creates_and_never_updates
      [of "accepting [old_a]" s0 "''z1''" "''example.org''" apex_a_def "[old_a]" False
          "''staging.example.org''" "''A''" "[old_a]"
          "s0\<lparr>log := [Get ''/zones/z1/dns_records''
                       [(''type'', S ''A''), (''name'', S ''staging.example.org'')]]\<rparr>"
          "''203.0.113.42''" 10]
  from std [THEN conjunct2, THEN conjunct2, THEN conjunct1, THEN mp, OF unsat]
  have created: "ensure_record (accepting []) s0 ''z1'' ''example.org'' apex_a_def [old_a] True
       = (Inr True, emit (DryRunWouldCreate ''A'' ''@'' ''185.199.108.153'') s0)
   \<and> log (snd (ensure_record (accepting []) s0 ''z1'' ''example.org'' apex_a_def [old_a] False))
       = log s0 @ [Post (records_path ''z1'') (ensure_payload ''example.org'' apex_a_def)]"
    by (simp add: apex_a_def_def)
  from adhoc [THEN conjunct2, THEN conjunct2, THEN conjunct2, THEN conjunct2, THEN conjunct1,
              THEN mp, OF listed, THEN conjunct2, THEN conjunct1, THEN mp, OF differs, THEN conjunct1]
  have reported: "update_or_create_mx_txt (accepting [old_a]) s0 ''z1'' ''staging.example.org''
         ''203.0.113.42'' True ''A'' 10
       = (Inr (DryRunCreate (mx_txt_payload ''A'' ''staging.example.org'' ''203.0.113.42'' 10)),
          s0\<lparr>log := [Get ''/zones/z1/dns_records''
                       [(''type'', S ''A''), (''name'', S ''staging.example.org'')]]\<rparr>)" .
  note inplace = ensure_creates_and_never_updates
      [of "accepting [old_a]" s0 "''z1''" "''example.org''" apex_a_def "[old_a]" False
          "''staging.example.org''" "''A''" "[old_a]"
          "s0\<lparr>log := [Get ''/zones/z1/dns_records''
                       [(''type'', S ''A''), (''name'', S ''staging.example.org'')]]\<rparr>"
          "''203.0.113.42''" 10 "''203.0.113.42''" False]
  have listed_some: "[old_a] \<noteq> []" by simp
  note patched = inplace [THEN conjunct2, THEN conjunct2, THEN conjunct2, THEN conjunct2, THEN conjunct2,
                          THEN mp, OF listed, THEN conjunct2, THEN mp, OF listed_some]
  from unsat created listed reported listed_some patched show ?thesis by (intro conjI) simp_all
qed

section \<open>The standard run beside an apex CNAME\<close>

text \<open>
  C3, as stated, fails for the standard run of enforce\_standard.py: for a provider that
  lists an apex CNAME and accepts every request, the run in apply mode completes with eight
  changes; after the zone lookup and the listing it issues one POST for each record of the
  standard set, the four apex A records included, and no DELETE.
\<close>

theorem standard_run_deletes_no_apex_cname_counterexample:
  "map_option fst (enforce_standard (hosting ''z1'' [apex_cname]) s0 ''example.org'' False) = Some (Inr 8)
   \<and> map_option (log \<circ> snd) (enforce_standard (hosting ''z1'' [apex_cname]) s0 ''example.org'' False)
       = Some (Get ''/zones'' [(''name'', S ''example.org'')] # page_request ''z1'' 1
               # map (Post ''/zones/z1/dns_records'')
                   (map (ensure_payload ''example.org'') (standards ''example.org'')))
   \<and> apex_a_def \<in> set (standards ''example.org'')
   \<and> ensure_payload ''example.org'' apex_a_def
       = \<lparr>p_type = ''A'', p_name = ''example.org'', p_content = ''185.199.108.153'', p_ttl = 1,
          p_priority = None, p_proxied = Some False, p_comment = None\<rparr>"
proof -
  let ?z = "''example.org''"
  let ?prov = "hosting ''z1'' [apex_cname]"
  let ?s3 = "s0\<lparr>log := log s0 @ [Get ''/zones'' [(''name'', S ?z)]]\<rparr>"
  let ?s4 = "?s3\<lparr>log := log ?s3 @ [page_request ''z1'' 1]\<rparr>"
  have zone: "get_zone_id ?prov s0 ?z = (Inr ''z1'', ?s3)"
    by (rule hosting_get_zone_id)
  have listed: "get_all_records ?prov ?s3 ''z1'' = Some (Inr [apex_cname], ?s4)"
    by (rule hosting_get_all_records)
  obtain n s5 where run: "ensure_all ?prov ''z1'' ?z [apex_cname] False (standards ?z) 0 ?s4 = (Inr n, s5)"
    using ensure_all_completes [where prov = ?prov, OF hosting_posts] by blast
  have needed: "filter (\<lambda>d. \<not> already_exists ?z d [apex_cname]) (standards ?z) = standards ?z"
    by (simp add: standards_def already_exists_def exact_match_of_def matches_of_def apex_cname_def
          rec_obj_def rec_name_of_def)
  have "length (standards ?z) = 8" by (simp add: standards_def)
  with ensure_all_apply [OF run] needed
  have n: "n = 8"
    and s5: "log s5 = log ?s4 @ map (\<lambda>d. Post (records_path ''z1'') (ensure_payload ?z d)) (standards ?z)"
    by simp_all
  have path: "records_path ''z1'' = ''/zones/z1/dns_records''"
    by (simp add: records_path_def)
  from zone listed run have result: "enforce_standard ?prov s0 ?z False
                     = Some (Inr n, emit (summary_line n False) s5)"
    by (simp add: enforce_standard_def)
  have a: "map_option fst (enforce_standard ?prov s0 ?z False) = Some (Inr 8)"
    using result n by simp
  have b: "map_option (log \<circ> snd) (enforce_standard ?prov s0 ?z False)
       = Some (Get ''/zones'' [(''name'', S ''example.org'')] # page_request ''z1'' 1
               # map (Post ''/zones/z1/dns_records'')
                   (map (ensure_payload ''example.org'') (standards ''example.org'')))"
    using result s5 path by (simp add: emit_def s0_def comp_def)
  have c: "apex_a_def \<in> set (standards ?z)"
    by (simp add: standards_def apex_a_def_def)
  have d: "ensure_payload ?z apex_a_def
       = \<lparr>p_type = ''A'', p_name = ''example.org'', p_content = ''185.199.108.153'', p_ttl = 1,
          p_priority = None, p_proxied = Some False, p_comment = None\<rparr>"
    by (simp add: ensure_payload_def apex_a_def_def rec_name_of_def get_proxied_def)
  from a b c d show ?thesis by (intro conjI)
qed

section \<open>The batch export: every request of a zone\<close>

lemma export_failure_append:
  "export_failure prov h (xs @ ys)
     = (case export_failure prov h xs of Some e \<Rightarrow> Some e | None \<Rightarrow> export_failure prov (h @ xs) ys)"
  by (induction xs arbitrary: h) (auto split: reply.splits option.splits)

lemma answered_return: "answered prov s (error_of (fst (Inr v, s))) (snd (Inr v, s))"
  by (simp add: answered_def error_of_def)

lemma answered_api_get:
  "answered prov s (error_of (fst (export_api_get prov s path params)))
     (snd (export_api_get prov s path params))"
  unfolding answered_def
  by (rule exI [of _ "[Get path params]"])
     (auto simp: export_api_get_def send_def error_of_def split: reply.splits)

lemma answered_lookup:
  "answered prov s (error_of (fst (get_zone_id_by_name prov s z)))
     (snd (get_zone_id_by_name prov s z))"
proof -
  obtain r t where call: "export_api_get prov s ''/zones'' [(''name'', S z), (''per_page'', I 1)] = (r, t)"
    by (cases "export_api_get prov s ''/zones'' [(''name'', S z), (''per_page'', I 1)]")
  from answered_api_get [of prov s "''/zones''" "[(''name'', S z), (''per_page'', I 1)]"] call
  have "answered prov s (error_of r) t" by simp
  with call show ?thesis
    by (cases r) (auto simp: get_zone_id_by_name_def error_of_def split: list.splits)
qed

lemma answered_dns_records:
  "answered prov s (error_of (fst (dns_records prov s zone_id params)))
     (snd (dns_records prov s zone_id params))"
proof -
  obtain r t where call: "export_api_get prov s (records_path zone_id) params = (r, t)"
    by (cases "export_api_get prov s (records_path zone_id) params")
  from answered_api_get [of prov s "records_path zone_id" params] call
  have "answered prov s (error_of r) t" by simp
  with call show ?thesis
    by (cases r) (auto simp: dns_records_def error_of_def)
qed

lemma answered_then:
  assumes "answered prov s None s1" and "answered prov s1 e s2"
  shows "answered prov s e s2"
proof -
  from assms(1) obtain xs where xs: "log s1 = log s @ xs" "export_failure prov (log s) xs = None"
    by (auto simp: answered_def)
  from assms(2) obtain ys where ys: "log s2 = log s1 @ ys"
    "export_failure prov (log s1) (butlast ys) = None" "export_failure prov (log s1) ys = e"
    by (auto simp: answered_def)
  show ?thesis
    unfolding answered_def
  proof (intro exI [of _ "xs @ ys"] conjI)
    show "log s2 = log s @ xs @ ys" using xs ys by simp
    show "export_failure prov (log s) (xs @ ys) = e"
      using xs ys by (simp add: export_failure_append)
    show "export_failure prov (log s) (butlast (xs @ ys)) = None"
    proof (cases "ys = []")
      case True
      with ys(3) have "e = None" by simp
      from assms(1) True show ?thesis
        using xs by (auto simp: answered_def)
    next
      case False
      then have "butlast (xs @ ys) = xs @ butlast ys" by (simp add: butlast_append)
      with xs ys show ?thesis by (simp add: export_failure_append)
    qed
  qed
qed

lemma answered_bind:
  assumes "answered prov s (error_of (fst m)) (snd m)"
    and "\<And>a t. m = (Inr a, t) \<Longrightarrow> answered prov t (error_of (fst (g a t))) (snd (g a t))"
  shows "answered prov s
           (error_of (fst (case m of (Inl e, t) \<Rightarrow> (Inl e, t) | (Inr a, t) \<Rightarrow> g a t)))
           (snd (case m of (Inl e, t) \<Rightarrow> (Inl e, t) | (Inr a, t) \<Rightarrow> g a t))"
proof (cases m)
  case (Pair r t)
  show ?thesis
  proof (cases r)
    case (Inl e)
    with Pair assms(1) show ?thesis by (simp add: error_of_def)
  next
    case (Inr a)
    with Pair assms(1) have "answered prov s None t" by (simp add: error_of_def)
    from answered_then [OF this assms(2)] Pair Inr show ?thesis by simp
  qed
qed

lemma answered_if:
  assumes "c \<Longrightarrow> answered prov s (error_of (fst A)) (snd A)"
    and "\<not> c \<Longrightarrow> answered prov s (error_of (fst B)) (snd B)"
  shows "answered prov s (error_of (fst (if c then A else B))) (snd (if c then A else B))"
  using assms by simp

lemma answered_collect_zone_summary:
  "answered prov s (error_of (fst (collect_zone_summary prov s z ov)))
     (snd (collect_zone_summary prov s z ov))"
  unfolding collect_zone_summary_def Let_def
  by (intro answered_bind answered_if answered_return answered_lookup answered_dns_records)

lemma collect_rows_step:
  assumes "collect_zone_summary prov s z (m z) = (Inl err, t)"
  shows "collect_rows prov m (z # zs) rows s
           = (if err = SystemExit then (Inl SystemExit, t)
              else collect_rows prov m zs (rows @ [empty_row z]) t)"
  using assms by (cases err) simp_all

text \<open>
  C9, amended. A run of the loop that completes has one row per input zone, in the order of
  the input, and SystemExit is the only error that ends the loop. For a zone without a given
  id, with \<open>rq\<close> its lookup by name: when the lookup answers with no zone, and when it
  raises a network exception, the loop appends the empty row of the zone and goes on; when
  the response is not ok or its success flag is false, the run ends there with SystemExit.
  The same holds for every request of a zone, the lookup and the six reads of its records:
  the requests \<^verbatim>\<open>collect_zone_summary\<close> issued were all answered well but for the last,
  and it raises exactly when the last was not, a RequestException when no response arrived
  and SystemExit for a failed response (\<open>answered\<close>); on SystemExit the loop ends the run
  with it, and on any other error it appends the empty row of the zone and goes on with the
  remaining zones.
\<close>

theorem export_one_row_per_zone_unless_exit:
  "(collect_rows prov m zones rows s = (Inr rows', s') \<longrightarrow> map row_zone rows' = map row_zone rows @ zones)
   \<and> (collect_rows prov m zones rows s = (Inl e, s') \<longrightarrow> e = SystemExit)
   \<and> (falsy (m z) \<and> rq = Get ''/zones'' [(''name'', S z), (''per_page'', I 1)] \<longrightarrow>
        (prov (log s) rq = Reply resp \<and> r_ok resp \<and> success resp \<and> result resp = [] \<longrightarrow>
           collect_rows prov m (z # zs) rows s
             = collect_rows prov m zs (rows @ [empty_row z]) (s\<lparr>log := log s @ [rq]\<rparr>))
        \<and> (prov (log s) rq = NetworkError \<longrightarrow>
           collect_rows prov m (z # zs) rows s
             = collect_rows prov m zs (rows @ [empty_row z]) (s\<lparr>log := log s @ [rq]\<rparr>))
        \<and> (prov (log s) rq = Reply resp \<and> \<not> (r_ok resp \<and> success resp) \<longrightarrow>
           collect_rows prov m (z # zs) rows s = (Inl SystemExit, s\<lparr>log := log s @ [rq]\<rparr>)))
   \<and> answered prov s (error_of (fst (collect_zone_summary prov s z ov)))
        (snd (collect_zone_summary prov s z ov))
   \<and> (collect_zone_summary prov s z (m z) = (Inl err, t) \<longrightarrow>
        collect_rows prov m (z # zs) rows s
          = (if err = SystemExit then (Inl SystemExit, t)
             else collect_rows prov m zs (rows @ [empty_row z]) t))"
proof -
  have a: "collect_rows prov m zones rows s = (Inr rows', s') \<longrightarrow> map row_zone rows' = map row_zone rows @ zones"
    using collect_rows_zones by blast
  have b: "collect_rows prov m zones rows s = (Inl e, s') \<longrightarrow> e = SystemExit"
    using collect_rows_error by blast
  have c: "collect_rows prov m (z # zs) rows s
             = collect_rows prov m zs (rows @ [empty_row z]) (s\<lparr>log := log s @ [rq]\<rparr>)"
    if "falsy (m z)" "rq = Get ''/zones'' [(''name'', S z), (''per_page'', I 1)]"
       "prov (log s) rq = Reply resp" "r_ok resp" "success resp" "result resp = []"
    using lookup_no_zone [of "m z" prov s z resp] that by simp
  have d: "collect_rows prov m (z # zs) rows s
             = collect_rows prov m zs (rows @ [empty_row z]) (s\<lparr>log := log s @ [rq]\<rparr>)"
    if "falsy (m z)" "rq = Get ''/zones'' [(''name'', S z), (''per_page'', I 1)]"
       "prov (log s) rq = NetworkError"
    using lookup_network_error [of "m z" prov s z] that by simp
  have e: "collect_rows prov m (z # zs) rows s = (Inl SystemExit, s\<lparr>log := log s @ [rq]\<rparr>)"
    if "falsy (m z)" "rq = Get ''/zones'' [(''name'', S z), (''per_page'', I 1)]"
       "prov (log s) rq = Reply resp" "\<not> (r_ok resp \<and> success resp)"
    using lookup_failed_response [of "m z" prov s z resp] that by simp
  have lookup: "falsy (m z) \<and> rq = Get ''/zones'' [(''name'', S z), (''per_page'', I 1)] \<longrightarrow>
        (prov (log s) rq = Reply resp \<and> r_ok resp \<and> success resp \<and> result resp = [] \<longrightarrow>
           collect_rows prov m (z # zs) rows s
             = collect_rows prov m zs (rows @ [empty_row z]) (s\<lparr>log := log s @ [rq]\<rparr>))
        \<and> (prov (log s) rq = NetworkError \<longrightarrow>
           collect_rows prov m (z # zs) rows s
             = collect_rows prov m zs (rows @ [empty_row z]) (s\<lparr>log := log s @ [rq]\<rparr>))
        \<and> (prov (log s) rq = Reply resp \<and> \<not> (r_ok resp \<and> success resp) \<longrightarrow>
           collect_rows prov m (z # zs) rows s = (Inl SystemExit, s\<lparr>log := log s @ [rq]\<rparr>))"
    using c d e by blast
  have every: "answered prov s (error_of (fst (collect_zone_summary prov s z ov)))
        (snd (collect_zone_summary prov s z ov))"
    by (rule answered_collect_zone_summary)
  have step: "collect_zone_summary prov s z (m z) = (Inl err, t) \<longrightarrow>
        collect_rows prov m (z # zs) rows s
          = (if err = SystemExit then (Inl SystemExit, t)
             else collect_rows prov m zs (rows @ [empty_row z]) t)"
    using collect_rows_step by blast
  from a b lookup every step show ?thesis by (intro conjI)
qed

theorem export_one_row_per_zone_unless_exit_witness:
  "collect_rows (accepting []) Map.empty [''a.org'', ''b.org''] [] s0
     = (Inr [empty_row ''a.org'', empty_row ''b.org''],
        \<lparr>log = [Get ''/zones'' [(''name'', S ''a.org''), (''per_page'', I 1)],
                Get ''/zones'' [(''name'', S ''b.org''), (''per_page'', I 1)]], out = []\<rparr>)
   \<and> map row_zone [empty_row ''a.org'', empty_row ''b.org''] = map row_zone ([] :: row list) @ [''a.org'', ''b.org'']
   \<and> collect_zone_summary (unreadable ''z1'') s0 ''a.org'' (Map.empty ''a.org'')
     = (Inl RequestException,
        \<lparr>log = [Get ''/zones'' [(''name'', S ''a.org''), (''per_page'', I 1)],
                Get ''/zones/z1/dns_records'' [(''type'', S ''A''), (''name'', S ''a.org''), (''per_page'', I 100)]],
         out = []\<rparr>)
   \<and> collect_rows (unreadable ''z1'') Map.empty [''a.org''] [] s0
     = (Inr [empty_row ''a.org''],
        \<lparr>log = [Get ''/zones'' [(''name'', S ''a.org''), (''per_page'', I 1)],
                Get ''/zones/z1/dns_records'' [(''type'', S ''A''), (''name'', S ''a.org''), (''per_page'', I 100)]],
         out = []\<rparr>)"
proof -
  let ?rows = "[empty_row ''a.org'', empty_row ''b.org'']"
  let ?after = "\<lparr>log = [Get ''/zones'' [(''name'', S ''a.org''), (''per_page'', I 1)],
                        Get ''/zones'' [(''name'', S ''b.org''), (''per_page'', I 1)]], out = []\<rparr>"
  let ?lost = "\<lparr>log = [Get ''/zones'' [(''name'', S ''a.org''), (''per_page'', I 1)],
                Get ''/zones/z1/dns_records'' [(''type'', S ''A''), (''name'', S ''a.org''), (''per_page'', I 100)]],
         out = []\<rparr>"
  have run: "collect_rows (accepting []) Map.empty [''a.org'', ''b.org''] [] s0 = (Inr ?rows, ?after)"
    by (simp add: collect_zone_summary_def get_zone_id_by_name_def export_api_get_def send_def falsy_def
          accepting_def listing_def s0_def)
  note rows = export_one_row_per_zone_unless_exit
      [where prov = "accepting []" and m = Map.empty and zones = "[''a.org'', ''b.org'']" and rows = "[]"
         and s = s0 and rows' = ?rows and s' = ?after, THEN conjunct1, THEN mp, OF run]
  have lost: "collect_zone_summary (unreadable ''z1'') s0 ''a.org'' (Map.empty ''a.org'')
                = (Inl RequestException, ?lost)"
    by (simp add: collect_zone_summary_def get_zone_id_by_name_def dns_records_def export_api_get_def
          send_def falsy_def unreadable_def listing_def no_obj_def s0_def records_path_def)
  note step = export_one_row_per_zone_unless_exit
      [where prov = "unreadable ''z1''" and m = Map.empty and z = "''a.org''" and s = s0
         and err = RequestException and t = ?lost and zs = "[]" and rows = "[]",
       THEN conjunct2, THEN conjunct2, THEN conjunct2, THEN conjunct2, THEN mp, OF lost]
  from step have empty: "collect_rows (unreadable ''z1'') Map.empty [''a.org''] [] s0
                           = (Inr [empty_row ''a.org''], ?lost)"
    by simp
  from run rows lost empty show ?thesis by - (intro conjI, assumption+)
qed

end
